(* ===== verification/Polaris_Prelude.thy ===== *)
theory Polaris_Prelude
  imports Main "HOL-Library.Word" "HOL-Library.Signed_Division"
begin

text \<open>
  What every component of the development shares: the result of a contract call, the
  checked integer arithmetic of the workspace's release profile, and sums over maps with
  finitely many entries.

  The workspace builds with \<open>overflow-checks = true\<close> and \<open>panic = "abort"\<close>
  (\<open>Cargo.toml\<close>): an \<open>i128\<close>, \<open>u32\<close> or \<open>u64\<close> operation that leaves its range does not wrap,
  it traps, and the host then discards every effect of the call.  A call therefore ends in
  one of three ways: it traps, it returns a typed contract error (whose effects the host
  discards as well), or it returns a value.
\<close>

section \<open>Results of a call\<close>

text \<open>\<open>Trap\<close> is a panic, a host error or a failed sub-call; \<open>Err e\<close> is a typed
  \<open>contracterror\<close>.\<close>

datatype 'e failure = Trap | Err 'e

type_synonym ('e, 'a) res = "'e failure + 'a"

named_theorems res_simps "inversion of successful computations"
named_theorems err_simps "inversion of computations that return a typed error"

text \<open>The \<open>?\<close> operator: a failure ends the computation, a value feeds the rest.\<close>

definition bindr :: "('e, 'a) res \<Rightarrow> ('a \<Rightarrow> ('e, 'b) res) \<Rightarrow> ('e, 'b) res" where
  "bindr m k = (case m of Inl f \<Rightarrow> Inl f | Inr x \<Rightarrow> k x)"

lemma bindr_Inl [simp]: "bindr (Inl f) k = Inl f"
  by (simp add: bindr_def)

lemma bindr_Inr [simp]: "bindr (Inr x) k = k x"
  by (simp add: bindr_def)

lemma bindr_eq_Inr [res_simps]:
  "bindr m k = Inr y \<longleftrightarrow> (\<exists>x. m = Inr x \<and> k x = Inr y)"
  by (cases m) auto

lemma bindr_cong [fundef_cong]:
  "m = m' \<Longrightarrow> (\<And>x. m' = Inr x \<Longrightarrow> k x = k' x) \<Longrightarrow> bindr m k = bindr m' k'"
  by (cases m') auto

text \<open>\<open>ok_or(e)\<close>: a missing value is the typed error.\<close>

definition ok_or :: "'e \<Rightarrow> 'a option \<Rightarrow> ('e, 'a) res" where
  "ok_or e x = (case x of None \<Rightarrow> Inl (Err e) | Some v \<Rightarrow> Inr v)"

lemma ok_or_simps [simp]: "ok_or e None = Inl (Err e)" "ok_or e (Some v) = Inr v"
  by (simp_all add: ok_or_def)

lemma ok_or_eq_Inr [res_simps]: "ok_or e x = Inr v \<longleftrightarrow> x = Some v"
  by (cases x) auto

text \<open>A sub-call through a generated client: when the callee does not return, the caller
  traps.\<close>

definition sub_call :: "'a option \<Rightarrow> ('e, 'a) res" where
  "sub_call x = (case x of None \<Rightarrow> Inl Trap | Some v \<Rightarrow> Inr v)"

lemma sub_call_simps [simp]: "sub_call None = Inl Trap" "sub_call (Some v) = Inr v"
  by (simp_all add: sub_call_def)

lemma sub_call_eq_Inr [res_simps]: "sub_call x = Inr v \<longleftrightarrow> x = Some v"
  by (cases x) auto

text \<open>A call of another contract of the workspace through its generated client: when the callee
  fails, for whatever reason, the caller traps.\<close>

definition call_client :: "('e, 'a) res \<Rightarrow> ('f, 'a) res" where
  "call_client m = (case m of Inl _ \<Rightarrow> Inl Trap | Inr x \<Rightarrow> Inr x)"

lemma call_client_simps [simp]: "call_client (Inl f) = Inl Trap" "call_client (Inr x) = Inr x"
  by (simp_all add: call_client_def)

lemma call_client_eq_Inr [res_simps]: "call_client m = Inr x \<longleftrightarrow> m = Inr x"
  by (cases m) simp_all

text \<open>\<open>map_err\<close> changes a typed error and leaves a trap alone.\<close>

definition map_err :: "('e \<Rightarrow> 'f) \<Rightarrow> ('e, 'a) res \<Rightarrow> ('f, 'a) res" where
  "map_err g m = (case m of Inl Trap \<Rightarrow> Inl Trap | Inl (Err e) \<Rightarrow> Inl (Err (g e)) | Inr x \<Rightarrow> Inr x)"

lemma map_err_simps [simp]:
  "map_err g (Inl Trap) = Inl Trap"
  "map_err g (Inl (Err e)) = Inl (Err (g e))"
  "map_err g (Inr x) = Inr x"
  by (simp_all add: map_err_def)

lemma map_err_eq_Inr [res_simps]: "map_err g m = Inr x \<longleftrightarrow> m = Inr x"
  by (auto simp: map_err_def split: sum.splits failure.splits)

lemma if_eq_Inr [res_simps]:
  "(if c then Inl f else m) = Inr x \<longleftrightarrow> \<not> c \<and> m = Inr x"
  by simp

text \<open>Forgetting the result of a call, keeping its state.\<close>

definition discard :: "('e, 'a \<times> 's) res \<Rightarrow> ('e, 's) res" where
  "discard m = bindr m (\<lambda>(_, st). Inr st)"

lemma discard_eq_Inr [res_simps]: "discard m = Inr st \<longleftrightarrow> (\<exists>r. m = Inr (r, st))"
  by (auto simp: discard_def res_simps)

text \<open>The inversions for typed errors: which of the steps returned it.\<close>

lemma bindr_eq_Err [err_simps]:
  "bindr m k = Inl (Err e) \<longleftrightarrow> m = Inl (Err e) \<or> (\<exists>x. m = Inr x \<and> k x = Inl (Err e))"
  by (cases m) auto

lemma leaf_eq_Err [err_simps]:
  "ok_or e x = Inl (Err e') \<longleftrightarrow> x = None \<and> e' = e"
  "sub_call y \<noteq> Inl (Err e')"
  by (auto simp: ok_or_def sub_call_def split: option.splits)

lemma map_err_eq_Err [err_simps]:
  "map_err g m = Inl (Err e) \<longleftrightarrow> (\<exists>d. m = Inl (Err d) \<and> e = g d)"
  by (auto simp: map_err_def split: sum.splits failure.splits)

section \<open>Machine integers\<close>

type_synonym u32 = "32 word"
type_synonym u64 = "64 word"
type_synonym byte = "8 word"

text \<open>The bounds of \<open>i128\<close>. Values of that type are modelled as \<open>int\<close>, every
  operation checks its result.\<close>

definition i128_max :: int where
  "i128_max = 170141183460469231731687303715884105727"

definition i128_min :: int where
  "i128_min = - 170141183460469231731687303715884105728"

definition in_i128 :: "int \<Rightarrow> bool" where
  "in_i128 x \<longleftrightarrow> i128_min \<le> x \<and> x \<le> i128_max"

lemmas i128_bounds = in_i128_def i128_min_def i128_max_def

lemma i128_max_power: "i128_max = 2 ^ 127 - 1"
  by (simp add: i128_max_def)

lemma i128_min_power: "i128_min = - (2 ^ 127)"
  by (simp add: i128_min_def)

definition i128 :: "int \<Rightarrow> ('e, int) res" where
  "i128 x = (if in_i128 x then Inr x else Inl Trap)"

definition i128_add :: "int \<Rightarrow> int \<Rightarrow> ('e, int) res" where
  "i128_add a b = i128 (a + b)"

definition i128_sub :: "int \<Rightarrow> int \<Rightarrow> ('e, int) res" where
  "i128_sub a b = i128 (a - b)"

definition i128_mul :: "int \<Rightarrow> int \<Rightarrow> ('e, int) res" where
  "i128_mul a b = i128 (a * b)"

text \<open>Rust's division truncates towards zero and panics on a zero divisor; the one
  quotient that does not fit, \<open>MIN / -1\<close>, fails the range check.\<close>

definition i128_div :: "int \<Rightarrow> int \<Rightarrow> ('e, int) res" where
  "i128_div a b = (if b = 0 then Inl Trap else i128 (a sdiv b))"

definition i128_neg :: "int \<Rightarrow> ('e, int) res" where
  "i128_neg a = i128 (- a)"

definition i128_abs :: "int \<Rightarrow> ('e, int) res" where
  "i128_abs a = i128 \<bar>a\<bar>"

text \<open>\<open>10i128.pow(e)\<close>.\<close>

definition i128_pow10 :: "nat \<Rightarrow> ('e, int) res" where
  "i128_pow10 e = i128 (10 ^ e)"

lemma i128_eq_Inr: "i128 x = Inr y \<longleftrightarrow> y = x \<and> in_i128 x"
  by (auto simp: i128_def)

lemma i128_ok [simp]: "in_i128 x \<Longrightarrow> i128 x = Inr x"
  by (simp add: i128_def)

lemma i128_ops_eq_Inr [res_simps]:
  "i128_add a b = Inr r \<longleftrightarrow> r = a + b \<and> in_i128 (a + b)"
  "i128_sub a b = Inr r \<longleftrightarrow> r = a - b \<and> in_i128 (a - b)"
  "i128_mul a b = Inr r \<longleftrightarrow> r = a * b \<and> in_i128 (a * b)"
  "i128_div a b = Inr r \<longleftrightarrow> b \<noteq> 0 \<and> r = a sdiv b \<and> in_i128 (a sdiv b)"
  "i128_neg a = Inr r \<longleftrightarrow> r = - a \<and> in_i128 (- a)"
  "i128_abs a = Inr r \<longleftrightarrow> r = \<bar>a\<bar> \<and> in_i128 \<bar>a\<bar>"
  "i128_pow10 e = Inr r \<longleftrightarrow> r = 10 ^ e \<and> in_i128 (10 ^ e)"
  by (auto simp: i128_add_def i128_sub_def i128_mul_def i128_div_def i128_neg_def i128_abs_def
      i128_pow10_def i128_eq_Inr)

lemma i128_ops_eq_Err [err_simps]:
  "i128_add a b \<noteq> Inl (Err e)" "i128_sub a b \<noteq> Inl (Err e)" "i128_mul a b \<noteq> Inl (Err e)"
  "i128_div a b \<noteq> Inl (Err e)" "i128_neg a \<noteq> Inl (Err e)" "i128_abs a \<noteq> Inl (Err e)"
  "i128_pow10 n \<noteq> Inl (Err e)"
  by (simp_all add: i128_add_def i128_sub_def i128_mul_def i128_div_def i128_neg_def i128_abs_def
      i128_pow10_def i128_def)

lemmas i128_ops = i128_add_def i128_sub_def i128_mul_def i128_div_def i128_neg_def
  i128_abs_def i128_pow10_def

text \<open>The facts that evaluate checked arithmetic on numerals.\<close>

lemmas i128_eval = i128_ops i128_def i128_bounds signed_divide_int_def

lemma sdiv_nonneg: "0 \<le> a \<Longrightarrow> 0 < b \<Longrightarrow> a sdiv b = a div (b::int)"
  by (cases "a = 0") (simp_all add: signed_divide_int_def)

lemma sdiv_neg: "a \<le> 0 \<Longrightarrow> 0 < b \<Longrightarrow> a sdiv b = - (- a div (b::int))"
  by (cases "a = 0") (simp_all add: signed_divide_int_def)

lemma in_i128_div:
  assumes "in_i128 a" "0 \<le> a" "0 < b"
  shows "in_i128 (a div b)"
proof -
  have "0 \<le> a div b" "a div b \<le> a"
    using assms zdiv_mono2 [of a 1 b] by (simp_all add: pos_imp_zdiv_nonneg_iff)
  then show ?thesis using assms by (simp add: in_i128_def i128_min_def)
qed

lemma in_i128_neg: "in_i128 a \<Longrightarrow> 0 \<le> a \<Longrightarrow> in_i128 (- a)"
  by (simp add: i128_bounds)

text \<open>When the operands are in order, each operation is the mathematical one.\<close>

lemma i128_add_ok: "in_i128 (a + b) \<Longrightarrow> i128_add a b = Inr (a + b)"
  and i128_sub_ok: "in_i128 (a - b) \<Longrightarrow> i128_sub a b = Inr (a - b)"
  and i128_mul_ok: "in_i128 (a * b) \<Longrightarrow> i128_mul a b = Inr (a * b)"
  and i128_div_ok: "in_i128 a \<Longrightarrow> 0 \<le> a \<Longrightarrow> 0 < b \<Longrightarrow> i128_div a b = Inr (a div b)"
  by (simp_all add: i128_ops sdiv_nonneg in_i128_div)

lemmas i128_ok_ops = i128_add_ok i128_sub_ok i128_mul_ok i128_div_ok

lemma in_i128_between: "in_i128 a \<Longrightarrow> in_i128 b \<Longrightarrow> a \<le> x \<Longrightarrow> x \<le> b \<Longrightarrow> in_i128 x"
  by (simp add: in_i128_def)

lemma in_i128_0 [simp]: "in_i128 0" "in_i128 1"
  by (simp_all add: i128_bounds)

text \<open>Unsigned addition at a word's width.\<close>

definition word_add :: "'w::len word \<Rightarrow> 'w word \<Rightarrow> ('e, 'w word) res" where
  "word_add a b = (if unat a + unat b < 2 ^ LENGTH('w) then Inr (a + b) else Inl Trap)"

lemma word_add_eq_Inr [res_simps]:
  "word_add (a::'w::len word) b = Inr r \<longleftrightarrow> r = a + b \<and> unat a + unat b < 2 ^ LENGTH('w)"
  by (auto simp: word_add_def)

lemma word_add_eq_Err [err_simps]: "word_add a b \<noteq> Inl (Err e)"
  by (simp add: word_add_def)

lemma unat_word_add:
  "unat (a::'w::len word) + unat b < 2 ^ LENGTH('w) \<Longrightarrow> unat (a + b) = unat a + unat b"
  by (simp add: unat_word_ariths)

text \<open>\<open>extend_ttl(threshold, to)\<close>: a remaining lifetime below the threshold is raised.\<close>

definition extend_ttl :: "nat \<Rightarrow> nat \<Rightarrow> nat \<Rightarrow> nat" where
  "extend_ttl threshold to ttl = (if ttl < threshold then to else ttl)"

lemma extend_ttl_ge: "threshold \<le> to \<Longrightarrow> threshold \<le> extend_ttl threshold to ttl"
  by (simp add: extend_ttl_def)

section \<open>Sums of finitely supported functions\<close>

text \<open>The sum of a function over the keys where it is not zero: the total of a ledger.\<close>

definition fsum :: "('k \<Rightarrow> int) \<Rightarrow> int" where
  "fsum f = (\<Sum>k | f k \<noteq> 0. f k)"

lemma fsum_superset:
  assumes "finite A" "{k. f k \<noteq> 0} \<subseteq> A"
  shows "fsum f = (\<Sum>k\<in>A. f k)"
  unfolding fsum_def using assms by (intro sum.mono_neutral_left) auto

lemma fsum_upd:
  assumes "finite {k. f k \<noteq> 0}"
  shows "fsum (f(k := v)) = fsum f - f k + v"
proof -
  let ?A = "insert k {k. f k \<noteq> 0}"
  have "fsum (f(k := v)) = (\<Sum>j\<in>?A. (f(k := v)) j)"
    using assms by (intro fsum_superset) (auto split: if_splits)
  also have "\<dots> = v + (\<Sum>j\<in>?A - {k}. f j)"
    using assms by (subst sum.remove [of ?A k]) (auto intro!: sum.cong)
  also have "(\<Sum>j\<in>?A - {k}. f j) = fsum f - f k"
    using assms fsum_superset [of ?A f] sum.remove [of ?A k f] by (simp add: subset_insertI)
  finally show ?thesis by (simp del: fun_upd_apply)
qed

lemma finite_support_upd: "finite {k. f k \<noteq> 0} \<Longrightarrow> finite {j. (f(k := v)) j \<noteq> (0::int)}"
  by (rule finite_subset [of _ "insert k {k. f k \<noteq> 0}"]) (auto split: if_splits)

lemma fsum_zero [simp]: "fsum (\<lambda>_. 0) = 0"
  by (simp add: fsum_def)

lemma fsum_nonneg: "\<forall>k. 0 \<le> f k \<Longrightarrow> 0 \<le> fsum f"
  by (simp add: fsum_def sum_nonneg)

lemma le_fsum:
  assumes "finite {k. f k \<noteq> 0}" "\<forall>k. 0 \<le> f k"
  shows "f k \<le> fsum f"
proof (cases "f k = 0")
  case True
  then show ?thesis using fsum_nonneg [OF assms(2)] by simp
next
  case False
  then show ?thesis unfolding fsum_def using assms by (intro member_le_sum) auto
qed

end
