(* ===== verification/Host.thy ===== *)
theory Host
  imports Polaris_Prelude
begin

text \<open>
  What the contracts see of the world around them: the types of
  \<open>polaris_ctf_math::sep40\<close>, and the parameters that stand for code outside the
  repository.  The ledger time, the authorisations of the transaction, the collateral token,
  the SEP-40 oracle contracts and the Pyth Lazer verifier reach a contract through the
  environment \<open>Env\<close>, which every entry point takes as its first argument, as the Rust code
  does.

  A contract call that fails (by a trap or by a typed error) is rolled back by the host with
  all its effects, so the model returns a state only with a successful result.
\<close>

section \<open>Oracle data (\<open>contracts/ctf-math/src/lib.rs\<close>, module \<open>sep40\<close>)\<close>

text \<open>Addresses are opaque to the contracts, which only compare them.\<close>

type_synonym Address = nat
type_synonym Symbol = string

datatype Asset = Stellar Address | Other Symbol

record PriceData =
  price :: int
  timestamp :: u64

record OracleFeedConfig =
  contract :: Address
  asset :: Asset
  max_staleness_secs :: u64
  tolerance_bps :: u32

section \<open>Pyth Lazer updates\<close>

text \<open>The fields of the verifier SDK's update and feed that the contracts read.\<close>

record LazerFeed =
  lf_feed_id :: u32
  lf_price :: "64 word option"
  lf_exponent :: "16 word option"
  lf_feed_update_timestamp :: "u64 option"

record LazerUpdate =
  lu_feeds :: "LazerFeed list"
  lu_timestamp :: u64

section \<open>The environment\<close>

text \<open>
  \<open>'tok\<close> is the state of all token contracts.  \<open>token_transfer env c from to amount t\<close> is the
  transfer entry point of the token contract at address \<open>c\<close>; \<open>None\<close> is a failed transfer.
  An oracle call that does not return is \<open>None\<close> as well; the inner option of
  \<open>sep40_lastprice\<close> is the \<open>Option<PriceData>\<close> of the interface.  The Lazer SDK returns an
  error value for a payload it rejects (\<open>Err ()\<close>) and traps with a failing verifier.
\<close>

record 'tok Env =
  ledger_timestamp :: u64
  current_contract_address :: Address
  authorized :: "Address \<Rightarrow> bool"
  token_transfer :: "Address \<Rightarrow> Address \<Rightarrow> Address \<Rightarrow> int \<Rightarrow> 'tok \<Rightarrow> 'tok option"
  token_balance :: "Address \<Rightarrow> Address \<Rightarrow> 'tok \<Rightarrow> int"
  sep40_lastprice :: "Address \<Rightarrow> Asset \<Rightarrow> PriceData option option"
  sep40_decimals :: "Address \<Rightarrow> u32 option"
  sep40_resolution :: "Address \<Rightarrow> u32 option"
  lazer_verify_update :: "Address \<Rightarrow> byte list \<Rightarrow> (unit, LazerUpdate) res"

text \<open>\<open>addr.require_auth()\<close> traps when the transaction does not carry the authorisation.\<close>

definition require_auth :: "'tok Env \<Rightarrow> Address \<Rightarrow> ('e, unit) res" where
  "require_auth env a = (if authorized env a then Inr () else Inl Trap)"

lemma require_auth_eq_Inr [res_simps]: "require_auth env a = Inr u \<longleftrightarrow> authorized env a"
  by (simp add: require_auth_def)

text \<open>The documented behaviour of a token transfer, as seen from one address: it moves
  exactly the amount, never more than the sender has, and touches no other token.\<close>

definition sep41_at :: "'tok Env \<Rightarrow> Address \<Rightarrow> bool" where
  "sep41_at env a \<longleftrightarrow>
     (\<forall>c t. 0 \<le> token_balance env c a t)
   \<and> (\<forall>c from to amount t t'. token_transfer env c from to amount t = Some t' \<longrightarrow>
        token_balance env c a t' = token_balance env c a t
          - (if a = from then amount else 0) + (if a = to then amount else 0)
      \<and> (\<forall>d. d \<noteq> c \<longrightarrow> token_balance env d a t' = token_balance env d a t))"

lemma sep41_balance_nonneg: "sep41_at env a \<Longrightarrow> 0 \<le> token_balance env c a t"
  by (simp add: sep41_at_def)

lemma sep41_transfer:
  assumes "sep41_at env a" "token_transfer env c from to amount t = Some t'"
  shows "token_balance env c a t' = token_balance env c a t
    - (if a = from then amount else 0) + (if a = to then amount else 0)"
  using assms unfolding sep41_at_def by blast

lemma sep41_pay_in:
  assumes "sep41_at env a" "token_transfer env c from a amount t = Some t'" "from \<noteq> a"
  shows "token_balance env c a t' = token_balance env c a t + amount"
  using sep41_transfer [OF assms(1,2)] assms(3) by simp

lemma sep41_pay_out:
  assumes "sep41_at env a" "token_transfer env c a to amount t = Some t'" "to \<noteq> a"
  shows "token_balance env c a t' = token_balance env c a t - amount"
  using sep41_transfer [OF assms(1,2)] assms(3) by simp

text \<open>The environments one deployed contract can be called in: its address and the token
  contracts stay, the time, the oracles and the authorisations vary.  No transaction can carry
  an authorisation of the contract itself, which has no signer and never calls itself.\<close>

definition hosted :: "'tok Env \<Rightarrow> 'tok Env \<Rightarrow> bool" where
  "hosted chain env \<longleftrightarrow>
     current_contract_address env = current_contract_address chain
   \<and> token_transfer env = token_transfer chain
   \<and> token_balance env = token_balance chain
   \<and> \<not> authorized env (current_contract_address env)
   \<and> sep41_at env (current_contract_address env)"

lemma hosted_facts:
  assumes "hosted chain env"
  shows "sep41_at env (current_contract_address env)"
    and "current_contract_address chain = current_contract_address env"
    and "token_balance chain = token_balance env" and "token_transfer chain = token_transfer env"
    and "authorized env a \<Longrightarrow> a \<noteq> current_contract_address env"
  using assms by (auto simp: hosted_def)

lemma hosted_pay_in:
  assumes "hosted chain env" "authorized env from"
    "token_transfer env c from (current_contract_address env) n t = Some t'"
  shows "token_balance chain c (current_contract_address chain) t'
    = token_balance chain c (current_contract_address chain) t + n"
  unfolding hosted_facts(2,3) [OF assms(1)]
  by (rule sep41_pay_in [OF hosted_facts(1) [OF assms(1)] assms(3)
        hosted_facts(5) [OF assms(1,2)]])

lemma hosted_pay_out:
  assumes "hosted chain env" "authorized env to"
    "token_transfer env c (current_contract_address env) to n t = Some t'"
  shows "token_balance chain c (current_contract_address chain) t'
    = token_balance chain c (current_contract_address chain) t - n"
  unfolding hosted_facts(2,3) [OF assms(1)]
  by (rule sep41_pay_out [OF hosted_facts(1) [OF assms(1)] assms(3)
        hosted_facts(5) [OF assms(1,2)]])

lemma hosted_balance_nonneg:
  "hosted chain env \<Longrightarrow> 0 \<le> token_balance chain c (current_contract_address chain) t"
  unfolding hosted_def using sep41_balance_nonneg [of env "current_contract_address env" c t]
  by (elim conjE) simp

text \<open>A concrete token for the witnesses: a map of balances per token contract, whose
  transfer fails without funds.\<close>

type_synonym ledger = "Address \<Rightarrow> Address \<Rightarrow> nat"

definition ledger_transfer ::
    "Address \<Rightarrow> Address \<Rightarrow> Address \<Rightarrow> int \<Rightarrow> ledger \<Rightarrow> ledger option" where
  "ledger_transfer c from to amount t =
     (if amount < 0 \<or> int (t c from) < amount then None
      else
        let row = (t c)(from := t c from - nat amount)
        in Some (t(c := row(to := row to + nat amount))))"

definition ledger_balance :: "Address \<Rightarrow> Address \<Rightarrow> ledger \<Rightarrow> int" where
  "ledger_balance c a t = int (t c a)"

lemma ledger_sep41:
  "token_transfer env = ledger_transfer \<Longrightarrow> token_balance env = ledger_balance \<Longrightarrow>
    sep41_at env a"
  by (auto simp: sep41_at_def ledger_transfer_def ledger_balance_def Let_def split: if_splits)

text \<open>
  A concrete environment for the witnesses: the contract at address 1, every other address
  signing, one Lazer feed (id 100) at 1500 dollars stamped with the ledger time, and SEP-40
  oracles of 14 decimals that report the given price, fresh.
\<close>

definition sample_env :: "u64 \<Rightarrow> int \<Rightarrow> ledger Env" where
  "sample_env now px = \<lparr>ledger_timestamp = now, current_contract_address = 1,
     authorized = (\<lambda>a. a \<noteq> 1),
     token_transfer = ledger_transfer, token_balance = ledger_balance,
     sep40_lastprice = (\<lambda>_ _. Some (Some \<lparr>price = px, timestamp = now\<rparr>)),
     sep40_decimals = (\<lambda>_. Some 14), sep40_resolution = (\<lambda>_. Some 300),
     lazer_verify_update = (\<lambda>_ _. Inr \<lparr>lu_feeds = [\<lparr>lf_feed_id = 100,
         lf_price = Some 150000000000, lf_exponent = Some (- 8),
         lf_feed_update_timestamp = None\<rparr>], lu_timestamp = now * 1000000\<rparr>)\<rparr>"

lemma sample_env_fields:
  "ledger_timestamp (sample_env now px) = now" "current_contract_address (sample_env now px) = 1"
  "authorized (sample_env now px) a \<longleftrightarrow> a \<noteq> 1"
  "token_transfer (sample_env now px) = ledger_transfer"
  "token_balance (sample_env now px) = ledger_balance"
  by (simp_all add: sample_env_def)

lemma sample_hosted: "hosted (sample_env now px) (sample_env now' px')"
  by (simp add: hosted_def sample_env_def ledger_sep41)

text \<open>A token contract that honours every transfer its sender can fund.\<close>

definition pays_when_funded :: "'tok Env \<Rightarrow> bool" where
  "pays_when_funded env \<longleftrightarrow> (\<forall>c from to n t. 0 \<le> n \<and> n \<le> token_balance env c from t \<longrightarrow>
     token_transfer env c from to n t \<noteq> None)"

lemma pays_when_fundedD:
  assumes "pays_when_funded env" "0 \<le> n" "n \<le> token_balance env c from t"
  shows "\<exists>t'. token_transfer env c from to n t = Some t'"
  using assms unfolding pays_when_funded_def by blast

lemma sample_pays: "pays_when_funded (sample_env now px)"
  by (simp add: pays_when_funded_def sample_env_def ledger_transfer_def ledger_balance_def Let_def)

definition sample_tokens :: ledger where
  "sample_tokens = (\<lambda>_ _. 0)(5 := (\<lambda>_. 0)(10 := 1000000, 12 := 50000))"

definition sample_feed :: OracleFeedConfig where
  "sample_feed = \<lparr>contract = 7, asset = Other ''XLM'', max_staleness_secs = 600,
     tolerance_bps = 150\<rparr>"

end
