(* ===== verification/Ctf_Math.thy ===== *)
theory Ctf_Math
  imports Polaris_Prelude
begin

text \<open>
  The pure functions of \<open>contracts/ctf-math/src/lib.rs\<close>: the constant-product swap and
  sell formulas, the Newton square root they use, the fee and its curve, and the two
  conversions of an oracle price to whole cents.  Every intermediate value is checked at
  the width the code computes it in, so an overflow is a trap of the model.
\<close>

section \<open>Definitions\<close>

definition cpmm_out :: "int \<Rightarrow> int \<Rightarrow> int \<Rightarrow> ('e, int) res" where
  "cpmm_out reserve_in reserve_out effective_in =
     bindr (i128_mul reserve_in reserve_out) (\<lambda>k.
     bindr (i128_add reserve_in effective_in) (\<lambda>new_reserve_in.
     bindr (i128_div k new_reserve_in) (\<lambda>new_reserve_out.
     i128_sub reserve_out new_reserve_out)))"

text \<open>The loop of \<open>isqrt\<close>: its two variables are the arguments \<open>x\<close> and \<open>y\<close>.  It stops on
  every input, because \<open>x\<close> decreases and every \<open>y\<close> it computes is in the range of
  \<open>i128\<close>.\<close>

function isqrt_loop :: "int \<Rightarrow> int \<Rightarrow> int \<Rightarrow> ('e, int) res" where
  "isqrt_loop n x y =
     (if y < x then
        bindr (i128_div n y) (\<lambda>q.
        bindr (i128_add y q) (\<lambda>s.
        bindr (i128_div s 2) (\<lambda>y'. isqrt_loop n y y')))
      else Inr x)"
  by pat_completeness auto
termination
  by (relation "measure (\<lambda>(n, x, y). if y < x then Suc (nat (y - i128_min)) else 0)")
    (auto simp: i128_ops_eq_Inr in_i128_def)

declare isqrt_loop.simps [simp del]

definition isqrt :: "int \<Rightarrow> ('e, int) res" where
  "isqrt n =
     (if n < 2 then Inr n
      else
        bindr (i128_add n 1) (\<lambda>s.
        bindr (i128_div s 2) (\<lambda>y. isqrt_loop n n y)))"

definition cpmm_sell_out :: "int \<Rightarrow> int \<Rightarrow> int \<Rightarrow> ('e, int) res" where
  "cpmm_sell_out reserve_in reserve_out effective_in =
     bindr (i128_add reserve_in effective_in) (\<lambda>s0.
     bindr (i128_add s0 reserve_out) (\<lambda>s.
     bindr (i128_mul effective_in reserve_out) (\<lambda>p.
     bindr (i128_mul s s) (\<lambda>ss.
     bindr (i128_mul 4 p) (\<lambda>p4.
     bindr (i128_sub ss p4) (\<lambda>disc.
     bindr (isqrt (max disc 0)) (\<lambda>sqrt_disc.
     bindr (i128_sub s sqrt_disc) (\<lambda>d.
     i128_div d 2))))))))"

definition apply_fee :: "int \<Rightarrow> u32 \<Rightarrow> ('e, int) res" where
  "apply_fee amount fee_bps =
     bindr (i128_mul amount (uint fee_bps)) (\<lambda>x.
     bindr (i128_div x 10000) (\<lambda>fee.
     i128_sub amount fee))"

text \<open>\<open>scaled as u32\<close> keeps the low 32 bits.\<close>

definition effective_fee_bps :: "u32 \<Rightarrow> u32 \<Rightarrow> int \<Rightarrow> int \<Rightarrow> ('e, u32) res" where
  "effective_fee_bps base_fee_bps min_fee_bps initial_liquidity total_supply =
     (let base = uint base_fee_bps; mn = uint min_fee_bps in
      bindr (i128_sub base mn) (\<lambda>spread.
      bindr (i128_mul spread initial_liquidity) (\<lambda>x.
      bindr (i128_div x total_supply) (\<lambda>y.
      bindr (i128_add mn y) (\<lambda>scaled.
      Inr (word_of_int scaled))))))"

definition to_cents :: "64 word \<Rightarrow> 16 word \<Rightarrow> ('e, int) res" where
  "to_cents price exponent =
     (let p = sint price; e = sint exponent + 2 in
      if 0 \<le> e then bindr (i128_pow10 (nat e)) (\<lambda>t. i128_mul p t)
      else bindr (i128_pow10 (nat (- e))) (\<lambda>t. i128_div p t))"

definition reflector_price_to_cents :: "int \<Rightarrow> u32 \<Rightarrow> ('e, int) res" where
  "reflector_price_to_cents price decimals =
     (if decimals < 2 then Inl Trap
      else
        bindr (i128_pow10 (unat (decimals - 2))) (\<lambda>divisor.
        bindr (i128_div divisor 2) (\<lambda>half.
        if 0 \<le> price then
          bindr (i128_add price half) (\<lambda>t. i128_div t divisor)
        else
          bindr (i128_neg price) (\<lambda>np.
          bindr (i128_add np half) (\<lambda>t.
          bindr (i128_div t divisor) (\<lambda>q.
          i128_neg q))))))"

section \<open>The Newton square root\<close>

text \<open>One Newton step from any positive start lands at or above the floor root: the
  arithmetic mean bounds the geometric one.\<close>

lemma newton_step_above:
  fixes n x :: int
  assumes "0 \<le> n" "1 \<le> x"
  shows "n < ((x + n div x) div 2 + 1) * ((x + n div x) div 2 + 1)"
proof -
  define q where "q = n div x"
  define m where "m = (x + q) div 2"
  have "n < x * (q + 1)"
  proof -
    have "x * q + n mod x = n" "n mod x < x" using assms by (simp_all add: q_def)
    then show ?thesis by (simp add: algebra_simps)
  qed
  moreover have "4 * (x * (q + 1)) \<le> (x + (q + 1)) * (x + (q + 1))"
  proof -
    have "0 \<le> (x - (q + 1)) * (x - (q + 1))" by simp
    then show ?thesis by (simp add: algebra_simps)
  qed
  moreover have "(x + (q + 1)) * (x + (q + 1)) \<le> (2 * (m + 1)) * (2 * (m + 1))"
  proof -
    have "x + (q + 1) \<le> 2 * (m + 1)" by (simp add: m_def)
    moreover have "0 \<le> q" using assms by (simp add: q_def pos_imp_zdiv_nonneg_iff)
    ultimately show ?thesis using assms by (intro mult_mono) auto
  qed
  ultimately have "4 * n < 4 * ((m + 1) * (m + 1))" by (simp add: algebra_simps)
  then show ?thesis by (simp add: m_def q_def)
qed

lemma newton_sum_bound:
  fixes n x :: int
  assumes "1 \<le> x" "x \<le> n"
  shows "x + n div x \<le> n + 1"
proof -
  have "1 \<le> n div x" using assms by (simp add: pos_imp_zdiv_pos_iff int_one_le_iff_zero_less)
  then have "0 \<le> (x - 1) * (n div x - 1)" using assms by simp
  moreover have "x * (n div x) \<le> n"
    using assms mult_div_mod_eq [of x n] pos_mod_sign [of x n] by linarith
  ultimately show ?thesis by (simp add: algebra_simps)
qed

lemma isqrt_loop_correct:
  assumes "y = (x + n div x) div 2" "1 \<le> x" "x \<le> n" "n < i128_max"
    and "n < (x + 1) * (x + 1)"
  shows "\<exists>r. isqrt_loop n x y = (Inr r :: ('e, int) res) \<and> 0 \<le> r \<and> r * r \<le> n \<and> n < (r + 1) * (r + 1)"
  using assms
proof (induction "nat x" arbitrary: x y rule: less_induct)
  case less
  have q1: "1 \<le> n div x"
    using less.prems by (simp add: pos_imp_zdiv_pos_iff int_one_le_iff_zero_less)
  show ?case
  proof (cases "y < x")
    case True
    have y1: "1 \<le> y" using less.prems q1 by linarith
    have yn: "y \<le> n" using True less.prems by linarith
    define y' where "y' = (y + n div y) div 2"
    have sum: "y + n div y \<le> n + 1" by (rule newton_sum_bound [OF y1 yn])
    have qn: "0 \<le> n div y" using y1 yn by (simp add: pos_imp_zdiv_nonneg_iff)
    have "in_i128 n"
      using y1 yn less.prems(4) by (simp add: in_i128_def i128_min_def)
    moreover have "in_i128 (y + n div y)"
      unfolding in_i128_def i128_min_def using y1 qn sum less.prems(4) by linarith
    ultimately have
      "i128_div n y = (Inr (n div y) :: ('e, int) res)"
      "i128_add y (n div y) = (Inr (y + n div y) :: ('e, int) res)"
      "i128_div (y + n div y) 2 = (Inr y' :: ('e, int) res)"
      using y1 yn qn unfolding y'_def by (auto intro!: i128_ok_ops)
    then have "isqrt_loop n x y = (isqrt_loop n y y' :: ('e, int) res)"
      using True by (simp add: isqrt_loop.simps [of n x y])
    moreover have "n < (y + 1) * (y + 1)"
      using newton_step_above [of n x] less.prems by simp
    moreover have "nat y < nat x" using True y1 by simp
    ultimately show ?thesis
      using less.hyps [OF _ y'_def y1 yn less.prems(4)] by simp
  next
    case False
    then have "x \<le> n div x" using less.prems by linarith
    then have "x * x \<le> x * (n div x)" using less.prems by simp
    also have "\<dots> \<le> n"
      using less.prems mult_div_mod_eq [of x n] pos_mod_sign [of x n] by linarith
    finally show ?thesis
      using False less.prems by (subst isqrt_loop.simps) simp
  qed
qed

lemma isqrt_correct:
  assumes "0 \<le> n" "n < i128_max"
  shows "\<exists>r. isqrt n = (Inr r :: ('e, int) res) \<and> 0 \<le> r \<and> r * r \<le> n \<and> n < (r + 1) * (r + 1)"
proof (cases "n < 2")
  case True
  then have "n = 0 \<or> n = 1" using assms by auto
  then show ?thesis by (auto simp: isqrt_def)
next
  case False
  then have "in_i128 (n + 1)" "0 \<le> n + 1"
    using assms by (simp_all add: in_i128_def i128_min_def)
  then have "isqrt n = (isqrt_loop n n ((n + n div n) div 2) :: ('e, int) res)"
    using False by (simp add: isqrt_def i128_ok_ops)
  moreover have "n < (n + 1) * (n + 1)"
    using False by (simp add: algebra_simps add_pos_nonneg)
  ultimately show ?thesis
    using isqrt_loop_correct [of _ n n] False assms by simp
qed


lemma isqrt_eq_Inr:
  assumes "isqrt n = (Inr r :: ('e, int) res)" "0 \<le> n" "in_i128 n"
  shows "0 \<le> r \<and> r * r \<le> n \<and> n < (r + 1) * (r + 1)"
proof -
  have "n \<noteq> i128_max"
    using assms(1) by (auto simp: isqrt_def res_simps i128_bounds)
  then have "n < i128_max" using assms(3) by (simp add: in_i128_def)
  then obtain r' where "isqrt n = (Inr r' :: ('e, int) res)"
      "0 \<le> r' \<and> r' * r' \<le> n \<and> n < (r' + 1) * (r' + 1)"
    using isqrt_correct [where 'e = 'e, of n] assms(2) by auto
  then show ?thesis using assms(1) by simp
qed

section \<open>The constant-product swap\<close>

lemma cpmm_out_eq:
  assumes "cpmm_out rin rout ein = Inr out" "0 < rin" "0 < rout" "0 < rin + ein"
  shows "out = rout - rin * rout div (rin + ein)"
  using assms by (auto simp: cpmm_out_def res_simps sdiv_nonneg)

lemma cpmm_out_rounding:
  assumes "cpmm_out rin rout ein = Inr out" "0 < rin" "0 < rout" "0 \<le> ein"
  shows "0 \<le> out \<and> out \<le> rout
    \<and> (rin + ein) * (rout - out) \<le> rin * rout
    \<and> rin * rout < (rin + ein) * (rout - out + 1)"
proof -
  define n where "n = rin + ein"
  define q where "q = rin * rout div n"
  have n: "0 < n" "rin \<le> n" using assms by (simp_all add: n_def)
  have out: "out = rout - q"
    using cpmm_out_eq [OF assms(1-3)] n by (simp add: n_def q_def)
  have "rin * rout \<le> n * rout" using n assms by simp
  then have "q \<le> rout" using n zdiv_mono1 [of "rin * rout" "n * rout" n] by (simp add: q_def)
  moreover have "0 \<le> q" using n assms by (simp add: q_def pos_imp_zdiv_nonneg_iff)
  moreover have "n * q + rin * rout mod n = rin * rout" "0 \<le> rin * rout mod n"
      "rin * rout mod n < n"
    using n by (simp_all add: q_def)
  ultimately show ?thesis
    unfolding n_def [symmetric] out by (simp add: algebra_simps)
qed

section \<open>The one-call sell\<close>

lemma square_less_imp_le:
  fixes x f :: int
  assumes "x * x < (f + 1) * (f + 1)" "0 \<le> f"
  shows "x \<le> f"
proof (rule ccontr)
  assume "\<not> x \<le> f"
  then have "(f + 1) * (f + 1) \<le> x * x" using assms(2) by (intro mult_mono) auto
  then show False using assms(1) by simp
qed

lemma square_le_imp_le:
  fixes f x :: int
  assumes "f * f \<le> x * x" "0 \<le> x"
  shows "f \<le> x"
proof (rule square_less_imp_le [OF _ assms(2)])
  show "f * f < (x + 1) * (x + 1)" using assms by (simp add: algebra_simps)
qed

text \<open>What a successful run of the formula computes: half of the sum \<open>s\<close> less the floor
  root of the discriminant, which is positive whatever the sign of the effective input.\<close>

lemma cpmm_sell_out_eq:
  assumes "cpmm_sell_out rin rout ein = Inr r" "0 < rin" "0 < rout"
  obtains f where "r = (rin + ein + rout - f) sdiv 2" "0 \<le> f"
    "f * f \<le> (rin + ein - rout) * (rin + ein - rout) + 4 * (rin * rout)"
    "(rin + ein - rout) * (rin + ein - rout) + 4 * (rin * rout) < (f + 1) * (f + 1)"
proof -
  let ?s = "rin + ein + rout"
  let ?D = "(rin + ein - rout) * (rin + ein - rout) + 4 * (rin * rout)"
  have disc: "?s * ?s - 4 * (ein * rout) = ?D" by (simp add: algebra_simps)
  have pos: "0 < ?D" using assms(2,3) by (simp add: add_nonneg_pos)
  then have pos_max: "max ?D 0 = ?D" by simp
  from assms(1) obtain f where f: "isqrt ?D = (Inr f :: ('a, int) res)" "r = (?s - f) sdiv 2"
      "in_i128 ?D"
    using pos_max by (auto simp: cpmm_sell_out_def res_simps disc)
  then show thesis
    using that [of f] isqrt_eq_Inr [OF f(1)] pos by simp
qed

text \<open>The floor root exceeds the gap between the two sides of the pool.\<close>

lemma root_above_gap:
  fixes A R f k :: int
  assumes "0 < R" "0 < k" "R \<le> k" "0 \<le> f" "(A - R) * (A - R) + 4 * k < (f + 1) * (f + 1)"
  shows "R - A \<le> f" and "0 < A \<Longrightarrow> R - A < f"
proof -
  have "(R - A) * (R - A) = (A - R) * (A - R)" by (simp add: algebra_simps)
  then show "R - A \<le> f"
    using square_less_imp_le [of "R - A" f] assms by simp
  assume A: "0 < A"
  have "(R - A + 1) * (R - A + 1) = (A - R) * (A - R) + 2 * (R - A) + 1"
    by (simp add: algebra_simps)
  also have "\<dots> \<le> (A - R) * (A - R) + 4 * k"
  proof -
    have "1 \<le> A" "1 \<le> R" using A assms(1) by simp_all
    then have "2 * (R - A) + 1 \<le> 4 * k" using assms(3) by arith
    then show ?thesis by simp
  qed
  finally show "R - A < f"
    using square_less_imp_le [of "R - A + 1" f] assms(4,5) by simp
qed

lemma cpmm_sell_out_below_input:
  assumes "cpmm_sell_out rin rout ein = Inr r" "0 < rin" "0 < rout" "0 < r"
  shows "r < rin + ein"
proof -
  define A where "A = rin + ein"
  obtain f where f: "r = (A + rout - f) sdiv 2" "0 \<le> f"
      "(A - rout) * (A - rout) + 4 * (rin * rout) < (f + 1) * (f + 1)"
    using cpmm_sell_out_eq [OF assms(1-3)] unfolding A_def by metis
  have "0 < A + rout - f"
    using f(1) assms(4) sdiv_neg [of "A + rout - f" 2] by (simp add: not_less [symmetric]) linarith
  then have r: "2 * r \<le> A + rout - f" using f(1) by (simp add: sdiv_nonneg)
  have k: "rout \<le> rin * rout" "0 < rin * rout" using assms(2,3) by auto
  show ?thesis
  proof (cases "0 < A")
    case True
    then have "rout - A < f" by (rule root_above_gap(2) [OF assms(3) k(2,1) f(2,3)])
    then show ?thesis using r by (simp add: A_def)
  next
    case False
    moreover have "rout - A \<le> f" by (rule root_above_gap(1) [OF assms(3) k(2,1) f(2,3)])
    ultimately show ?thesis using r assms(4) by linarith
  qed
qed


text \<open>With a non-negative effective input, the payout \<open>r\<close> is the exact solution of the
  invariant rounded down from the floor root: one unit more always costs the pool, and the
  pool's product falls short of \<open>reserve_in * reserve_out\<close> by at most half the remaining
  reserves.\<close>

lemma cpmm_sell_out_rounding:
  assumes "cpmm_sell_out rin rout ein = Inr r" "0 < rin" "0 < rout" "0 \<le> ein"
  defines "A \<equiv> rin + ein"
  shows "0 \<le> r \<and> r \<le> A \<and> r \<le> rout
    \<and> (A - (r + 1)) * (rout - (r + 1)) < rin * rout
    \<and> 2 * (rin * rout) \<le> 2 * ((A - r) * (rout - r)) + (A - r + (rout - r))"
proof -
  obtain f where f: "r = (A + rout - f) sdiv 2" "0 \<le> f"
      "f * f \<le> (A - rout) * (A - rout) + 4 * (rin * rout)"
      "(A - rout) * (A - rout) + 4 * (rin * rout) < (f + 1) * (f + 1)"
    using cpmm_sell_out_eq [OF assms(1-3)] unfolding A_def by metis
  have k: "1 \<le> rin * rout" using assms(2,3) by (simp add: int_one_le_iff_zero_less)
  have disc: "(A - rout) * (A - rout) + 4 * (rin * rout) = (A + rout) * (A + rout) - 4 * (ein * rout)"
    by (simp add: A_def algebra_simps)
  have "0 \<le> ein * rout" "0 < A" using assms by simp_all
  then have "f \<le> A + rout"
    using square_le_imp_le [of f "A + rout"] f(3) assms(3) unfolding disc by linarith
  then have r: "r = (A + rout - f) div 2" using f(1) by (simp add: sdiv_nonneg)
  have two: "2 \<le> f"
  proof (rule ccontr)
    assume "\<not> 2 \<le> f"
    then have "(f + 1) * (f + 1) \<le> 2 * 2" using f(2) by (intro mult_mono) auto
    then show False using f(4) k zero_le_square [of "A - rout"] by linarith
  qed
  have gap: "rout - A \<le> f" "A - rout \<le> f"
    using square_less_imp_le [of "rout - A" f] square_less_imp_le [of "A - rout" f] f(2,4) k
    by (simp_all add: algebra_simps)
  define t where "t = A + rout - 2 * r"
  have t: "f \<le> t" "t \<le> f + 1" unfolding t_def r by linarith+
  have prod: "4 * ((A - r) * (rout - r)) = t * t - (A - rout) * (A - rout)"
    by (simp add: t_def algebra_simps)
  have prod': "4 * ((A - (r + 1)) * (rout - (r + 1))) = (t - 2) * (t - 2) - (A - rout) * (A - rout)"
    by (simp add: t_def algebra_simps)
  have "(t - 2) * (t - 2) \<le> (f - 1) * (f - 1)" using t two by (intro mult_mono) auto
  also have "\<dots> < f * f" using two by (simp add: algebra_simps)
  finally have "(A - (r + 1)) * (rout - (r + 1)) < rin * rout"
    using prod' f(3) by linarith
  moreover have "(f + 1) * (f + 1) \<le> (t + 1) * (t + 1)" using t f(2) by (intro mult_mono) auto
  then have "4 * (rin * rout) < 4 * ((A - r) * (rout - r)) + 2 * t + 1"
    using f(4) prod by (simp add: algebra_simps)
  then have "2 * (rin * rout) \<le> 2 * ((A - r) * (rout - r)) + (A - r + (rout - r))"
    unfolding t_def by arith
  ultimately show ?thesis
    using r gap \<open>f \<le> A + rout\<close> by linarith
qed


section \<open>Fees\<close>

lemma apply_fee_eq:
  assumes "apply_fee amount fee = Inr r" "0 \<le> amount"
  shows "r = amount - amount * uint fee div 10000"
  using assms by (auto simp: apply_fee_def res_simps sdiv_nonneg)

lemma apply_fee_le:
  assumes "apply_fee amount fee = Inr r" "0 \<le> amount"
  shows "r \<le> amount"
  using apply_fee_eq [OF assms] assms(2) by (simp add: pos_imp_zdiv_nonneg_iff)

lemma apply_fee_nonneg:
  assumes "apply_fee amount fee = Inr r" "0 \<le> amount" "fee \<le> 10000"
  shows "0 \<le> r"
proof -
  have "uint fee \<le> 10000" using assms(3) by (simp add: word_le_def)
  then have "amount * uint fee \<le> amount * 10000" using assms(2) by (intro mult_left_mono) auto
  then have "amount * uint fee div 10000 \<le> amount" by linarith
  then show ?thesis using apply_fee_eq [OF assms(1,2)] by simp
qed

lemma u32_word_of_int: "0 \<le> x \<Longrightarrow> x \<le> 4294967295 \<Longrightarrow> uint (word_of_int x :: u32) = x"
  by (simp add: uint_word_of_int_eq take_bit_int_eq_self)

lemma u32_bounds: "0 \<le> uint (w :: u32)" "uint (w :: u32) \<le> 4294967295"
  using uint_lt2p [of w] by simp_all

lemma effective_fee_value:
  assumes "mn \<le> base" "0 < liq" "0 < ts" "in_i128 ((uint base - uint mn) * liq)"
    and "in_i128 (uint mn + (uint base - uint mn) * liq div ts)"
  shows "effective_fee_bps base mn liq ts =
    (Inr (word_of_int (uint mn + (uint base - uint mn) * liq div ts)) :: ('e, u32) res)"
proof -
  have "uint mn \<le> uint base" using assms(1) by (simp add: word_le_def)
  moreover have "in_i128 (uint base - uint mn)"
    using u32_bounds [of base] u32_bounds [of mn] unfolding i128_bounds by linarith
  ultimately show ?thesis
    using assms by (simp add: effective_fee_bps_def Let_def i128_ok_ops)
qed

lemma effective_fee_in_range:
  assumes "mn \<le> base" "0 < liq" "liq \<le> ts" "in_i128 ((uint base - uint mn) * liq)"
  obtains f where "effective_fee_bps base mn liq ts = (Inr f :: ('e, u32) res)"
    "uint f = uint mn + (uint base - uint mn) * liq div ts" "mn \<le> f" "f \<le> base"
proof -
  have le: "uint mn \<le> uint base" using assms(1) by (simp add: word_le_def)
  define q where "q = (uint base - uint mn) * liq div ts"
  have q0: "0 \<le> q" using assms le by (simp add: q_def pos_imp_zdiv_nonneg_iff)
  have "(uint base - uint mn) * liq \<le> (uint base - uint mn) * ts"
    using assms le by (intro mult_left_mono) auto
  then have "q \<le> (uint base - uint mn) * ts div ts"
    unfolding q_def using assms by (intro zdiv_mono1) auto
  then have q1: "q \<le> uint base - uint mn" using assms by simp
  have small: "0 \<le> uint mn + q" "uint mn + q \<le> 4294967295"
    using q0 q1 u32_bounds [of base] u32_bounds [of mn] by auto
  then have u: "uint (word_of_int (uint mn + q) :: u32) = uint mn + q"
    by (rule u32_word_of_int)
  have "in_i128 (uint mn + q)" using small by (simp add: i128_bounds)
  then have "effective_fee_bps base mn liq ts =
      (Inr (word_of_int (uint mn + q)) :: ('e, u32) res)"
    using effective_fee_value [OF assms(1,2) _ assms(4), of ts] assms(2,3) by (simp add: q_def)
  then show thesis
    using that [of "word_of_int (uint mn + q)"] u q0 q1 by (simp add: q_def word_le_def)
qed

section \<open>Prices in cents\<close>

lemma reflector_eq_nonneg:
  assumes "2 \<le> decimals" "0 \<le> price" "in_i128 (10 ^ unat (decimals - 2))"
    "in_i128 (price + 10 ^ unat (decimals - 2) div 2)"
  shows "reflector_price_to_cents price decimals =
    (Inr ((price + 10 ^ unat (decimals - 2) div 2) div 10 ^ unat (decimals - 2)) :: ('e, int) res)"
proof -
  have "\<not> decimals < 2" using assms(1) by (simp add: not_less)
  then show ?thesis
    using assms by (simp add: reflector_price_to_cents_def i128_ok_ops i128_pow10_def)
qed

lemma reflector_eq_neg:
  assumes "2 \<le> decimals" "0 < price" "in_i128 (10 ^ unat (decimals - 2))"
    "in_i128 (price + 10 ^ unat (decimals - 2) div 2)"
  shows "reflector_price_to_cents (- price) decimals =
    (Inr (- ((price + 10 ^ unat (decimals - 2) div 2) div 10 ^ unat (decimals - 2))) :: ('e, int) res)"
proof -
  let ?D = "10 ^ unat (decimals - 2) :: int"
  have "\<not> decimals < 2" using assms(1) by (simp add: not_less)
  moreover have half: "0 \<le> ?D div 2" by (simp add: pos_imp_zdiv_nonneg_iff)
  moreover have "in_i128 price"
    using in_i128_between [OF in_i128_0(1) assms(4), of price] assms(2) half by simp
  then have "in_i128 (- price)" "in_i128 (- (- price))"
    using in_i128_neg assms(2) by simp_all
  moreover have "in_i128 (- ((price + ?D div 2) div ?D))"
    using assms half by (intro in_i128_neg in_i128_div) (simp_all add: pos_imp_zdiv_nonneg_iff)
  ultimately show ?thesis
    using assms by (simp add: reflector_price_to_cents_def i128_ok_ops i128_pow10_def i128_neg_def)
qed

lemma nearest_multiple:
  fixes p D :: int
  assumes "0 < D" "D = 1 \<or> even D"
  shows "2 * \<bar>(p + D div 2) div D * D - p\<bar> \<le> D"
proof -
  define c where "c = (p + D div 2) div D"
  have "D * c + (p + D div 2) mod D = p + D div 2" by (simp add: c_def)
  moreover have "0 \<le> (p + D div 2) mod D" "(p + D div 2) mod D < D" using assms by simp_all
  moreover have "D = 1 \<and> D div 2 = 0 \<or> 2 * (D div 2) = D" using assms(2) by auto
  ultimately have "2 * \<bar>D * c - p\<bar> \<le> D" by (smt (verit))
  then show ?thesis by (simp add: c_def mult.commute)
qed


section \<open>No overflow at realistic sizes\<close>

text \<open>\<open>2 ^ 61\<close> stroops is over four times the whole supply of the collateral asset the
  README names.\<close>

lemma in_i128_small: "0 \<le> x \<Longrightarrow> x \<le> 2 ^ 126 \<Longrightarrow> in_i128 x"
  by (simp add: i128_bounds)

lemma cpmm_out_total:
  assumes "0 < rin" "rin \<le> 2 ^ 61" "0 < rout" "rout \<le> 2 ^ 61" "0 \<le> ein" "ein \<le> 2 ^ 61"
  shows "\<exists>r. cpmm_out rin rout ein = (Inr r :: ('e, int) res)"
proof -
  have "rin * rout \<le> 2 ^ 61 * 2 ^ 61" using assms by (intro mult_mono) auto
  then have k: "in_i128 (rin * rout)" "0 \<le> rin * rout"
    using assms by (auto intro!: in_i128_small)
  have "in_i128 (rin + ein)" using assms by (intro in_i128_small) auto
  moreover have "in_i128 (rout - rin * rout div (rin + ein))"
  proof -
    have "rin * rout \<le> (rin + ein) * rout" using assms by (intro mult_right_mono) auto
    then have "rin * rout div (rin + ein) \<le> (rin + ein) * rout div (rin + ein)"
      using assms by (intro zdiv_mono1) auto
    moreover have "0 \<le> rin * rout div (rin + ein)"
      using assms by (simp add: pos_imp_zdiv_nonneg_iff)
    ultimately show ?thesis using assms by (intro in_i128_small) auto
  qed
  ultimately show ?thesis using k assms by (simp add: cpmm_out_def i128_ok_ops)
qed

lemma cpmm_sell_out_total:
  assumes "0 < rin" "rin \<le> 2 ^ 61" "0 < rout" "rout \<le> 2 ^ 61" "0 \<le> ein" "ein \<le> 2 ^ 61"
  shows "\<exists>r. cpmm_sell_out rin rout ein = (Inr r :: ('e, int) res)"
proof -
  define s where "s = rin + ein + rout"
  define D where "D = s * s - 4 * (ein * rout)"
  have D: "D = (rin + ein - rout) * (rin + ein - rout) + 4 * (rin * rout)"
    by (simp add: D_def s_def algebra_simps)
  have s: "0 < s" "s \<le> 3 * 2 ^ 61" using assms by (simp_all add: s_def)
  have "s * s \<le> (3 * 2 ^ 61) * (3 * 2 ^ 61)" using s by (intro mult_mono) auto
  then have ss: "s * s \<le> 2 ^ 126" by simp
  have "ein * rout \<le> 2 ^ 61 * 2 ^ 61" using assms by (intro mult_mono) auto
  then have p: "0 \<le> ein * rout" "4 * (ein * rout) \<le> 2 ^ 126" using assms by auto
  have "0 < rin * rout" using assms by simp
  then have "0 < D" unfolding D by (simp add: add_nonneg_pos)
  moreover have "D \<le> s * s" using p by (simp add: D_def)
  ultimately have D': "0 < D" "D \<le> 2 ^ 126" using ss by auto
  then obtain f where f: "isqrt D = (Inr f :: ('e, int) res)" "0 \<le> f" "f * f \<le> D"
    using isqrt_correct [where 'e = 'e, of D] by (auto simp: i128_max_def)
  have "f \<le> s" using square_le_imp_le [of f s] f(3) \<open>D \<le> s * s\<close> s(1) by simp
  have "in_i128 (rin + ein)" "in_i128 s" "in_i128 (ein * rout)" "in_i128 (s * s)"
      "in_i128 (4 * (ein * rout))" "in_i128 D" "in_i128 (s - f)"
    using assms s ss p D' f(2) \<open>f \<le> s\<close> by (auto intro!: in_i128_small)
  moreover have "s * s - 4 * (ein * rout) = D" by (simp add: D_def)
  ultimately have "cpmm_sell_out rin rout ein = (Inr ((s - f) div 2) :: ('e, int) res)"
    using D' f \<open>f \<le> s\<close> by (simp add: cpmm_sell_out_def i128_ok_ops s_def [symmetric])
  then show ?thesis by blast
qed

section \<open>Properties\<close>

text \<open>C37: The Newton loop of \<open>isqrt\<close> returns, without overflow, the floor of the square
  root of every non-negative \<open>i128\<close> below the largest one.\<close>

theorem isqrt_floor_root:
  assumes "0 \<le> n" "n < i128_max"
  shows "\<exists>r. isqrt n = (Inr r :: ('e, int) res) \<and> 0 \<le> r \<and> r * r \<le> n \<and> n < (r + 1) * (r + 1)"
  by (rule isqrt_correct [OF assms])

lemma isqrt_floor_root_witness:
  "\<exists>r. isqrt 99 = (Inr r :: (unit, int) res) \<and> 0 \<le> r \<and> r * r \<le> 99 \<and> 99 < (r + 1) * (r + 1)"
  by (rule isqrt_floor_root) (simp_all add: i128_max_def)

text \<open>A swap pays between nothing and the whole opposite reserve, and the division
  rounds in favour of the trader: the pool's product over the effective input never grows,
  and one share less would have left it above its old value.\<close>

theorem cpmm_out_rounds_to_trader:
  assumes "cpmm_out rin rout ein = Inr out" "0 < rin" "0 < rout" "0 \<le> ein"
  shows "0 \<le> out \<and> out \<le> rout
    \<and> (rin + ein) * (rout - out) \<le> rin * rout
    \<and> rin * rout < (rin + ein) * (rout - (out - 1))"
  using cpmm_out_rounding [OF assms] by (simp add: algebra_simps)

lemma cpmm_out_rounds_to_trader_witness:
  "(0::int) \<le> 1 \<and> (1::int) \<le> 10000
    \<and> (10000 + 1) * (10000 - 1) \<le> 10000 * (10000::int)
    \<and> 10000 * 10000 < (10000 + 1) * (10000 - (1 - 1::int))"
proof -
  have "cpmm_out 10000 10000 1 = (Inr 1 :: (unit, int) res)"
    by (simp add: cpmm_out_def i128_eval)
  then show ?thesis by (rule cpmm_out_rounds_to_trader) simp_all
qed

text \<open>A sell pays at most what was put in and at most the opposite reserve; one unit
  more would always break the constant-product invariant, and the floor of the root costs
  the pool at most half of its remaining reserves in that product.\<close>

theorem cpmm_sell_out_close:
  assumes "cpmm_sell_out rin rout ein = Inr r" "0 < rin" "0 < rout" "0 \<le> ein"
  shows "0 \<le> r \<and> r \<le> rin + ein \<and> r \<le> rout
    \<and> (rin + ein - (r + 1)) * (rout - (r + 1)) < rin * rout
    \<and> 2 * (rin * rout) \<le> 2 * ((rin + ein - r) * (rout - r)) + (rin + ein - r + (rout - r))"
  by (rule cpmm_sell_out_rounding [OF assms])

lemma cpmm_sell_out_close_witness:
  "(0::int) \<le> 1 \<and> 1 \<le> 9999 + (1::int) \<and> (1::int) \<le> 10001
    \<and> (9999 + 1 - (1 + 1)) * (10001 - (1 + 1)) < 9999 * (10001::int)
    \<and> 2 * (9999 * 10001) \<le> 2 * ((9999 + 1 - 1) * (10001 - 1)) + (9999 + 1 - 1 + (10001 - 1::int))"
proof -
  have "cpmm_sell_out 9999 10001 1 = (Inr 1 :: (unit, int) res)"
    by (simp add: cpmm_sell_out_def isqrt_def isqrt_loop.simps i128_eval)
  then show ?thesis by (rule cpmm_sell_out_close) simp_all
qed

text \<open>C38: With reserves and an effective input of at most \<open>2 ^ 61\<close> units, neither formula
  overflows: both always return.\<close>

theorem amm_no_overflow:
  assumes "0 < rin" "rin \<le> 2 ^ 61" "0 < rout" "rout \<le> 2 ^ 61" "0 \<le> ein" "ein \<le> 2 ^ 61"
  shows "(\<exists>r. cpmm_out rin rout ein = (Inr r :: ('e, int) res))
    \<and> (\<exists>r. cpmm_sell_out rin rout ein = (Inr r :: ('e, int) res))"
  using cpmm_out_total [OF assms] cpmm_sell_out_total [OF assms] by blast

lemma amm_no_overflow_witness:
  "(\<exists>r. cpmm_out (2 ^ 61) 5 7 = (Inr r :: (unit, int) res))
    \<and> (\<exists>r. cpmm_sell_out (2 ^ 61) 5 7 = (Inr r :: (unit, int) res))"
  by (rule amm_no_overflow) simp_all

text \<open>While the supply is at least the initial liquidity, the fee curve returns a fee
  between the configured floor and the configured base, with the value of its formula; a
  larger supply never has a larger fee.\<close>

theorem effective_fee_between:
  assumes "mn \<le> base" "0 < liq" "liq \<le> ts" "ts \<le> ts'"
    and "in_i128 ((uint base - uint mn) * liq)"
  shows "\<exists>f f'. effective_fee_bps base mn liq ts = (Inr f :: ('e, u32) res)
    \<and> effective_fee_bps base mn liq ts' = (Inr f' :: ('e, u32) res)
    \<and> uint f = uint mn + (uint base - uint mn) * liq div ts
    \<and> mn \<le> f' \<and> f' \<le> f \<and> f \<le> base"
proof -
  obtain f where f: "effective_fee_bps base mn liq ts = (Inr f :: ('e, u32) res)"
      "uint f = uint mn + (uint base - uint mn) * liq div ts" "f \<le> base"
    using effective_fee_in_range [OF assms(1-3,5)] by blast
  obtain f' where f': "effective_fee_bps base mn liq ts' = (Inr f' :: ('e, u32) res)"
      "uint f' = uint mn + (uint base - uint mn) * liq div ts'" "mn \<le> f'"
    using effective_fee_in_range [OF assms(1,2) order_trans [OF assms(3,4)] assms(5)] by blast
  have "0 \<le> (uint base - uint mn) * liq" using assms(1,2) by (simp add: word_le_def)
  then have "(uint base - uint mn) * liq div ts' \<le> (uint base - uint mn) * liq div ts"
    using assms by (intro zdiv_mono2) auto
  then have "f' \<le> f" using f(2) f'(2) by (simp add: word_le_def)
  then show ?thesis using f f' by blast
qed

lemma effective_fee_between_witness:
  "\<exists>f f'. effective_fee_bps 100 20 10000 10000 = (Inr f :: (unit, u32) res)
    \<and> effective_fee_bps 100 20 10000 25000 = (Inr f' :: (unit, u32) res)
    \<and> uint f = uint (20::u32) + (uint (100::u32) - uint (20::u32)) * 10000 div 10000
    \<and> 20 \<le> f' \<and> f' \<le> f \<and> f \<le> 100"
  by (rule effective_fee_between) (simp_all add: i128_bounds)

text \<open>A price with a scale of two or more decimals is rounded to the nearest cent,
  symmetrically around zero, and the conversion returns for every magnitude up to
  \<open>10 ^ 38\<close>.\<close>

theorem reflector_nearest_cent:
  assumes "2 \<le> decimals" "decimals \<le> 30" "0 < price" "price \<le> 10 ^ 38"
  shows "\<exists>c. reflector_price_to_cents price decimals = (Inr c :: ('e, int) res)
    \<and> reflector_price_to_cents (- price) decimals = (Inr (- c) :: ('e, int) res)
    \<and> 2 * \<bar>c * 10 ^ unat (decimals - 2) - price\<bar> \<le> 10 ^ unat (decimals - 2)"
proof -
  define n where "n = unat (decimals - 2)"
  define D where "D = (10::int) ^ n"
  have "n \<le> 28"
    using assms(1,2) unfolding n_def by (simp add: unat_sub word_le_nat_alt)
  then have "D \<le> 10 ^ 28" unfolding D_def by (intro power_increasing) auto
  then have D: "0 < D" "D \<le> 10 ^ 28" by (auto simp: D_def)
  have "D = 1 \<or> even D" by (cases n) (simp_all add: D_def)
  then have "2 * \<bar>(price + D div 2) div D * D - price\<bar> \<le> D" by (rule nearest_multiple [OF D(1)])
  moreover have "0 \<le> D div 2" "D div 2 \<le> D" using D(1) by linarith+
  then have "in_i128 D" "in_i128 (price + D div 2)"
    using D assms(3,4) by (simp_all add: i128_bounds)
  ultimately show ?thesis
    using reflector_eq_nonneg [where 'e = 'e, of decimals price]
      reflector_eq_neg [where 'e = 'e, of decimals price] assms(1,3)
    by (simp add: D_def n_def)
qed

lemma reflector_nearest_cent_witness:
  "\<exists>c. reflector_price_to_cents 149995000000 14 = (Inr c :: (unit, int) res)
    \<and> reflector_price_to_cents (- 149995000000) 14 = (Inr (- c) :: (unit, int) res)
    \<and> 2 * \<bar>c * 10 ^ unat (14 - 2 :: u32) - 149995000000\<bar> \<le> 10 ^ unat (14 - 2 :: u32)"
  by (rule reflector_nearest_cent) simp_all

text \<open>A positive feed price converts to whole cents exactly when its exponent is at
  least \<open>-2\<close>, and is truncated to the cent below otherwise.\<close>

theorem to_cents_value:
  assumes "to_cents price exponent = (Inr c :: ('e, int) res)" "0 < sint price"
  shows "c = (if - 2 \<le> sint exponent then sint price * 10 ^ nat (sint exponent + 2)
    else sint price div 10 ^ nat (- (sint exponent + 2)))"
  using assms by (auto simp: to_cents_def Let_def res_simps sdiv_nonneg split: if_splits)

lemma to_cents_value_witness:
  "(150000::int) = (if - 2 \<le> sint (- 8 :: 16 word)
    then sint (150000000000 :: 64 word) * 10 ^ nat (sint (- 8 :: 16 word) + 2)
    else sint (150000000000 :: 64 word) div 10 ^ nat (- (sint (- 8 :: 16 word) + 2)))"
proof -
  have "to_cents 150000000000 (- 8) = (Inr 150000 :: (unit, int) res)"
    by (simp add: to_cents_def i128_eval)
  then show ?thesis by (rule to_cents_value) simp
qed

text \<open>One unit against a balanced pool.\<close>

lemma root_between:
  fixes f g n :: int
  assumes "f * f \<le> n" "n < (f + 1) * (f + 1)" "g * g \<le> n" "n < (g + 1) * (g + 1)" "0 \<le> f" "0 \<le> g"
  shows "f = g"
  using square_less_imp_le [of f g] square_less_imp_le [of g f] assms by linarith

lemma cpmm_sell_out_unique:
  assumes "0 < rin" "rin \<le> 2 ^ 61" "0 < rout" "rout \<le> 2 ^ 61" "0 \<le> ein" "ein \<le> 2 ^ 61" "0 \<le> f"
    and "f * f \<le> (rin + ein - rout) * (rin + ein - rout) + 4 * (rin * rout)"
    and "(rin + ein - rout) * (rin + ein - rout) + 4 * (rin * rout) < (f + 1) * (f + 1)"
  shows "cpmm_sell_out rin rout ein = (Inr ((rin + ein + rout - f) sdiv 2) :: ('e, int) res)"
proof -
  obtain r where r: "cpmm_sell_out rin rout ein = (Inr r :: ('e, int) res)"
    using cpmm_sell_out_total [OF assms(1-6)] by blast
  obtain g where "r = (rin + ein + rout - g) sdiv 2" "0 \<le> g"
    "g * g \<le> (rin + ein - rout) * (rin + ein - rout) + 4 * (rin * rout)"
    "(rin + ein - rout) * (rin + ein - rout) + 4 * (rin * rout) < (g + 1) * (g + 1)"
    using cpmm_sell_out_eq [OF r assms(1,3)] by metis
  then show ?thesis using r root_between [of f _ g] assms(7-9) by metis
qed

text \<open>Against any balanced pool of at least two shares a side, one unit of collateral buys
  two shares, and these two shares sell for one unit each: the rounding of the two formulas hands
  the trader one unit of the pool, and no fee below 10000 basis points takes it back.\<close>

theorem rounding_pays_the_trader:
  assumes "2 \<le> r" "r < 2 ^ 61" "fee < 10000"
  shows "apply_fee 1 fee = (Inr 1 :: ('e, int) res)
    \<and> cpmm_out r r 1 = (Inr 1 :: ('e, int) res)
    \<and> cpmm_sell_out (r - 1) (r + 1) 1 = (Inr 1 :: ('e, int) res)
    \<and> cpmm_sell_out (r - 1) r 1 = (Inr 1 :: ('e, int) res)"
proof (intro conjI)
  have "0 \<le> uint fee" "uint fee < 10000" using assms(3) by (simp_all add: word_less_def)
  moreover from this have "in_i128 (uint fee)" by (intro in_i128_small) auto
  ultimately show "apply_fee 1 fee = (Inr 1 :: ('e, int) res)"
    by (simp add: apply_fee_def i128_ops sdiv_nonneg)
  obtain out where out: "cpmm_out r r 1 = (Inr out :: ('e, int) res)"
    using cpmm_out_total [where 'e = 'e, of r r 1] assms by auto
  have "r * r = (r - 1) * (r + 1) + 1" by (simp add: algebra_simps)
  then have "r * r div (r + 1) = r - 1"
    using assms(1) by (intro int_div_pos_eq [of _ _ _ 1]) (simp_all add: algebra_simps)
  then show "cpmm_out r r 1 = (Inr 1 :: ('e, int) res)"
    using out cpmm_out_eq [OF out] assms(1) by simp
  show "cpmm_sell_out (r - 1) (r + 1) 1 = (Inr 1 :: ('e, int) res)"
    using cpmm_sell_out_unique [where 'e = 'e, of "r - 1" "r + 1" 1 "2 * r - 1"] assms(1,2)
    by (simp add: algebra_simps signed_divide_int_def)
  show "cpmm_sell_out (r - 1) r 1 = (Inr 1 :: ('e, int) res)"
    using cpmm_sell_out_unique [where 'e = 'e, of "r - 1" r 1 "2 * r - 2"] assms(1,2)
    by (simp add: algebra_simps signed_divide_int_def)
qed

lemma rounding_pays_the_trader_witness:
  "apply_fee 1 1000 = (Inr 1 :: (unit, int) res)
    \<and> cpmm_out 10000000 10000000 1 = (Inr 1 :: (unit, int) res)
    \<and> cpmm_sell_out (10000000 - 1) (10000000 + 1) 1 = (Inr 1 :: (unit, int) res)
    \<and> cpmm_sell_out (10000000 - 1) 10000000 1 = (Inr 1 :: (unit, int) res)"
  by (rule rounding_pays_the_trader) simp_all

end
