(* ===== verification/Oracle.thy ===== *)
theory Oracle
  imports Host Ctf_Math
begin

text \<open>
  The corroboration of a settlement or checkpoint price against one SEP-40 oracle
  (\<open>OracleCheckError\<close> and \<open>verify_oracle_corroboration\<close> of
  \<open>contracts/ctf-math/src/lib.rs\<close>), the check both contracts run once per configured leg.
\<close>

datatype OracleCheckError = Unavailable | Stale | DecimalsInvalid | DecimalsChanged | Divergent

definition verify_oracle_corroboration ::
    "'tok Env \<Rightarrow> OracleFeedConfig \<Rightarrow> u32 \<Rightarrow> u64 \<Rightarrow> int \<Rightarrow> (OracleCheckError, unit) res" where
  "verify_oracle_corroboration env cfg expected_decimals now reference_cents =
     bindr (sub_call (sep40_lastprice env (contract cfg) (asset cfg))) (\<lambda>last.
     bindr (ok_or Unavailable last) (\<lambda>pr.
     bindr (word_add (timestamp pr) (max_staleness_secs cfg)) (\<lambda>fresh_until.
     if fresh_until < now then Inl (Err Stale) else
     bindr (sub_call (sep40_decimals env (contract cfg))) (\<lambda>decimals.
     if \<not> (2 \<le> decimals \<and> decimals \<le> 30) then Inl (Err DecimalsInvalid) else
     if decimals \<noteq> expected_decimals then Inl (Err DecimalsChanged) else
     bindr (reflector_price_to_cents (price pr) decimals) (\<lambda>cents.
     bindr (i128_sub reference_cents cents) (\<lambda>diff.
     bindr (i128_abs diff) (\<lambda>divergence.
     bindr (if cents = 0 then Inr 10000
            else bindr (i128_mul divergence 10000) (\<lambda>x.
                 bindr (i128_abs cents) (\<lambda>c.
                 i128_div x c))) (\<lambda>divergence_bps.
     if uint (tolerance_bps cfg) < divergence_bps then Inl (Err Divergent)
     else Inr ()))))))))"

section \<open>What a passed check means\<close>

text \<open>The abstract verdict: the oracle has a price that is fresh, has the pinned precision,
  and lies within the tolerance of the reference.\<close>

definition corroborates ::
    "'tok Env \<Rightarrow> OracleFeedConfig \<Rightarrow> u32 \<Rightarrow> u64 \<Rightarrow> int \<Rightarrow> bool" where
  "corroborates env cfg decimals now reference \<longleftrightarrow>
     (\<exists>pr cents. sep40_lastprice env (contract cfg) (asset cfg) = Some (Some pr)
      \<and> unat now \<le> unat (timestamp pr) + unat (max_staleness_secs cfg)
      \<and> sep40_decimals env (contract cfg) = Some decimals \<and> 2 \<le> decimals \<and> decimals \<le> 30
      \<and> reflector_price_to_cents (price pr) decimals = (Inr cents :: (unit, int) res)
      \<and> (if cents = 0 then 10000 \<le> uint (tolerance_bps cfg)
         else \<bar>reference - cents\<bar> * 10000 < (uint (tolerance_bps cfg) + 1) * \<bar>cents\<bar>))"

lemma reflector_error_free:
  "reflector_price_to_cents p d = (Inr c :: ('e, int) res) \<longleftrightarrow>
    reflector_price_to_cents p d = (Inr c :: ('f, int) res)"
  by (auto simp: reflector_price_to_cents_def res_simps split: if_splits)

lemma div_le_tolerance:
  fixes x c t :: int
  assumes "0 < c" "x div c \<le> t"
  shows "x < (t + 1) * c"
proof -
  have "x < c * (x div c) + c" using assms(1) pos_mod_bound [of c x] mult_div_mod_eq [of c x] by linarith
  also have "\<dots> \<le> c * t + c" using assms by (simp add: mult_left_mono)
  finally show ?thesis by (simp add: algebra_simps)
qed

lemma verify_corroborates:
  assumes "verify_oracle_corroboration env cfg expected now ref = Inr u"
  shows "corroborates env cfg expected now ref"
proof -
  from assms obtain pr cents where
    pr: "sep40_lastprice env (contract cfg) (asset cfg) = Some (Some pr)" and
    fresh: "unat (timestamp pr) + unat (max_staleness_secs cfg) < 2 ^ 64"
      "\<not> timestamp pr + max_staleness_secs cfg < now" and
    dec: "sep40_decimals env (contract cfg) = Some expected" "2 \<le> expected" "expected \<le> 30" and
    cents: "reflector_price_to_cents (price pr) expected
      = (Inr cents :: (OracleCheckError, int) res)" and
    tol: "cents = 0 \<Longrightarrow> 10000 \<le> uint (tolerance_bps cfg)"
      "cents \<noteq> 0 \<Longrightarrow> (\<bar>ref - cents\<bar> * 10000) sdiv \<bar>cents\<bar> \<le> uint (tolerance_bps cfg)"
    unfolding verify_oracle_corroboration_def
    by (auto simp: res_simps split: if_splits)
  have "unat now \<le> unat (timestamp pr) + unat (max_staleness_secs cfg)"
    using fresh unat_word_add [of "timestamp pr" "max_staleness_secs cfg"]
    by (simp add: word_less_nat_alt not_less)
  moreover have "\<bar>ref - cents\<bar> * 10000 < (uint (tolerance_bps cfg) + 1) * \<bar>cents\<bar>" if "cents \<noteq> 0"
    using tol(2) that by (intro div_le_tolerance) (simp_all add: sdiv_nonneg)
  ultimately show ?thesis
    unfolding corroborates_def using pr dec cents tol(1)
    by (auto simp: reflector_error_free [where 'e = unit and 'f = OracleCheckError])
qed

section \<open>What a failed check means\<close>

text \<open>The cause each typed verdict names.\<close>

fun leg_fault ::
    "'tok Env \<Rightarrow> OracleFeedConfig \<Rightarrow> u32 \<Rightarrow> u64 \<Rightarrow> int \<Rightarrow> OracleCheckError \<Rightarrow> bool" where
  "leg_fault env cfg expected now reference Unavailable \<longleftrightarrow>
     sep40_lastprice env (contract cfg) (asset cfg) = Some None"
| "leg_fault env cfg expected now reference Stale \<longleftrightarrow>
     (\<exists>pr. sep40_lastprice env (contract cfg) (asset cfg) = Some (Some pr)
       \<and> unat (timestamp pr) + unat (max_staleness_secs cfg) < unat now)"
| "leg_fault env cfg expected now reference DecimalsInvalid \<longleftrightarrow>
     (\<exists>d. sep40_decimals env (contract cfg) = Some d \<and> (d < 2 \<or> 30 < d))"
| "leg_fault env cfg expected now reference DecimalsChanged \<longleftrightarrow>
     (\<exists>d. sep40_decimals env (contract cfg) = Some d \<and> d \<noteq> expected)"
| "leg_fault env cfg expected now reference Divergent \<longleftrightarrow>
     (\<exists>pr cents. sep40_lastprice env (contract cfg) (asset cfg) = Some (Some pr)
       \<and> reflector_price_to_cents (price pr) expected = (Inr cents :: (unit, int) res)
       \<and> (if cents = 0 then uint (tolerance_bps cfg) < 10000
          else (uint (tolerance_bps cfg) + 1) * \<bar>cents\<bar> \<le> \<bar>reference - cents\<bar> * 10000))"

lemma reflector_no_error [err_simps]: "reflector_price_to_cents p d \<noteq> Inl (Err e)"
  by (simp add: reflector_price_to_cents_def err_simps)

lemma div_gt_tolerance:
  fixes x c t :: int
  assumes "0 < c" "t < x div c"
  shows "(t + 1) * c \<le> x"
proof -
  have "(t + 1) * c \<le> x div c * c" using assms by (intro mult_right_mono) auto
  also have "\<dots> \<le> x" using assms(1) div_mult_mod_eq [of x c] pos_mod_sign [of c x] by linarith
  finally show ?thesis .
qed

lemma verify_fault:
  assumes "verify_oracle_corroboration env cfg expected now ref = Inl (Err e)"
  shows "leg_fault env cfg expected now ref e"
proof (cases e)
  case Stale
  from assms obtain pr where "sep40_lastprice env (contract cfg) (asset cfg) = Some (Some pr)"
    "unat (timestamp pr) + unat (max_staleness_secs cfg) < 2 ^ 64"
    "timestamp pr + max_staleness_secs cfg < now"
    unfolding verify_oracle_corroboration_def Stale
    by (auto simp: err_simps res_simps split: if_splits)
  then show ?thesis
    using unat_word_add [of "timestamp pr" "max_staleness_secs cfg"]
    by (simp add: Stale word_less_nat_alt)
next
  case Divergent
  from assms obtain pr cents where
    "sep40_lastprice env (contract cfg) (asset cfg) = Some (Some pr)"
    "reflector_price_to_cents (price pr) expected = (Inr cents :: (OracleCheckError, int) res)"
    "cents = 0 \<Longrightarrow> uint (tolerance_bps cfg) < 10000"
    "cents \<noteq> 0 \<Longrightarrow> uint (tolerance_bps cfg) < (\<bar>ref - cents\<bar> * 10000) sdiv \<bar>cents\<bar>"
    unfolding verify_oracle_corroboration_def Divergent
    by (auto simp: err_simps res_simps split: if_splits)
  then show ?thesis
    using div_gt_tolerance [of "\<bar>cents\<bar>" "uint (tolerance_bps cfg)" "\<bar>ref - cents\<bar> * 10000"]
    by (auto simp: Divergent sdiv_nonneg reflector_error_free [where 'e = unit and 'f = OracleCheckError])
qed (use assms in \<open>auto simp: verify_oracle_corroboration_def err_simps res_simps not_le
    split: if_splits\<close>)

lemma fault_not_corroborates:
  "leg_fault env cfg expected now ref e \<Longrightarrow> \<not> corroborates env cfg expected now ref"
  by (cases e) (auto simp: corroborates_def split: if_splits)

text \<open>C25: One oracle leg is decided exactly: a pass means the oracle has a price that is fresh,
  of the pinned precision and within the tolerance of the reference; a typed error names its true
  cause and is never returned for a leg that corroborates.\<close>

theorem corroboration_verdict:
  "case verify_oracle_corroboration env cfg expected now ref of
     Inr _ \<Rightarrow> corroborates env cfg expected now ref
   | Inl (Err e) \<Rightarrow> leg_fault env cfg expected now ref e \<and> \<not> corroborates env cfg expected now ref
   | Inl Trap \<Rightarrow> True"
  by (auto intro: verify_corroborates dest: verify_fault fault_not_corroborates
      split: sum.splits failure.splits)

section \<open>A corroborating leg passes\<close>

lemma rounded_quotient_bound:
  fixes p D :: int
  assumes "0 \<le> p" "0 < D"
  shows "0 \<le> (p + D div 2) div D" "(p + D div 2) div D \<le> p + 1"
proof -
  show "0 \<le> (p + D div 2) div D" using assms by (simp add: pos_imp_zdiv_nonneg_iff)
  have "p + D div 2 \<le> D * (p + 1)"
    using assms mult_right_mono [of 1 D p] by (simp add: algebra_simps)
  then have "(p + D div 2) div D \<le> D * (p + 1) div D" using assms by (intro zdiv_mono1) auto
  then show "(p + D div 2) div D \<le> p + 1" using assms by simp
qed

lemma reflector_bound:
  assumes "reflector_price_to_cents px decimals = (Inr c :: ('e, int) res)"
  shows "\<bar>c\<bar> \<le> \<bar>px\<bar> + 1"
proof -
  define D where "D = (10::int) ^ unat (decimals - 2)"
  have D: "0 < D" "0 \<le> D div 2" by (simp_all add: D_def pos_imp_zdiv_nonneg_iff)
  show ?thesis
  proof (cases "0 \<le> px")
    case True
    then have "c = (px + D div 2) div D"
      using assms D by (auto simp: reflector_price_to_cents_def D_def res_simps sdiv_nonneg split: if_splits)
    then show ?thesis using rounded_quotient_bound [OF True D(1)] True by simp
  next
    case False
    then have "c = - ((- px + D div 2) sdiv D)"
      using assms D by (auto simp: reflector_price_to_cents_def D_def res_simps sdiv_nonneg split: if_splits)
    then have "c = - ((- px + D div 2) div D)" using D False by (simp add: sdiv_nonneg)
    then show ?thesis using rounded_quotient_bound [of "- px" D] D(1) False by simp
  qed
qed

lemma passes_when_corroborated:
  assumes "corroborates env cfg expected now ref" "\<bar>ref\<bar> \<le> 10 ^ 30"
    and "sep40_lastprice env (contract cfg) (asset cfg) = Some (Some pr)" "\<bar>price pr\<bar> \<le> 10 ^ 30"
    and "unat (timestamp pr) + unat (max_staleness_secs cfg) < 2 ^ 64"
  shows "verify_oracle_corroboration env cfg expected now ref = Inr ()"
proof -
  from assms(1,3) obtain cents where c:
    "unat now \<le> unat (timestamp pr) + unat (max_staleness_secs cfg)"
    "sep40_decimals env (contract cfg) = Some expected" "2 \<le> expected" "expected \<le> 30"
    "reflector_price_to_cents (price pr) expected = (Inr cents :: (unit, int) res)"
    "if cents = 0 then 10000 \<le> uint (tolerance_bps cfg)
     else \<bar>ref - cents\<bar> * 10000 < (uint (tolerance_bps cfg) + 1) * \<bar>cents\<bar>"
    unfolding corroborates_def by auto
  have "\<bar>cents\<bar> \<le> 10 ^ 30 + 1" using reflector_bound [OF c(5)] assms(4) by simp
  then have d: "\<bar>ref - cents\<bar> \<le> 3 * 10 ^ 30" and k: "\<bar>cents\<bar> \<le> 2 ^ 126" using assms(2) by simp_all
  have range: "in_i128 (ref - cents)" using d by (simp add: i128_bounds abs_le_iff)
  have range': "in_i128 \<bar>ref - cents\<bar>" "in_i128 (\<bar>ref - cents\<bar> * 10000)" "in_i128 \<bar>cents\<bar>"
    using d k by (auto intro!: in_i128_small)
  have bps: "(\<bar>ref - cents\<bar> * 10000) div \<bar>cents\<bar> \<le> uint (tolerance_bps cfg)" if "cents \<noteq> 0"
    using c(6) that div_gt_tolerance [of "\<bar>cents\<bar>" "uint (tolerance_bps cfg)" "\<bar>ref - cents\<bar> * 10000"]
    by (auto simp: not_less [symmetric])
  have cents: "reflector_price_to_cents (price pr) expected = (Inr cents :: (OracleCheckError, int) res)"
    using c(5) reflector_error_free [where 'e = unit and 'f = OracleCheckError] by blast
  have fresh: "\<not> timestamp pr + max_staleness_secs cfg < now"
    using c(1) assms(5) unat_word_add [of "timestamp pr" "max_staleness_secs cfg"]
    by (simp add: word_less_nat_alt not_less)
  show ?thesis
  proof (cases "cents = 0")
    case True
    then show ?thesis
      using assms(3,5) c(2-4,6) cents fresh range range'
      by (simp add: verify_oracle_corroboration_def word_add_def i128_ops not_less)
  next
    case False
    then have "i128_div (\<bar>ref - cents\<bar> * 10000) \<bar>cents\<bar>
        = (Inr ((\<bar>ref - cents\<bar> * 10000) div \<bar>cents\<bar>) :: (OracleCheckError, int) res)"
      using range' by (intro i128_div_ok) auto
    then show ?thesis
      using assms(3,5) c(2-4) cents fresh range range' bps [OF False] False
      by (simp add: verify_oracle_corroboration_def word_add_def not_less i128_sub_def i128_abs_def
          i128_mul_def)
  qed
qed

text \<open>C26: The check is complete: a leg that corroborates passes, for every price and reference
  of at most \<open>10 ^ 30\<close> in magnitude, whose freshness deadline is below \<open>2 ^ 64\<close>.\<close>

theorem corroboration_complete:
  assumes "corroborates env cfg expected now ref" "\<bar>ref\<bar> \<le> 10 ^ 30"
    and "sep40_lastprice env (contract cfg) (asset cfg) = Some (Some pr)" "\<bar>price pr\<bar> \<le> 10 ^ 30"
    and "unat (timestamp pr) + unat (max_staleness_secs cfg) < 2 ^ 64"
  shows "verify_oracle_corroboration env cfg expected now ref = Inr ()"
  by (rule passes_when_corroborated [OF assms])

lemma corroboration_complete_witness:
  "verify_oracle_corroboration (sample_env 1086400 150000000000000000) sample_feed 14 1086400 149000
    = Inr ()"
  by (rule corroboration_complete [where pr = "\<lparr>price = 150000000000000000, timestamp = 1086400\<rparr>"])
    (auto simp: corroborates_def sample_env_def sample_feed_def reflector_price_to_cents_def i128_eval)

end
