(* ===== verification/Book.thy ===== *)
theory Book
  imports Host
begin

text \<open>
  The abstract specification of a fully collateralised conditional-token market, which both
  \<open>polaris-market\<close> and \<open>polaris-perpetual\<close> implement: two share ledgers (one per outcome),
  an AMM pool of each share, and the supply that counts the collateral behind them.  The
  theory states the moves such a book can make, the invariant they keep, and two interfaces
  as locales: the share ledger of a contract's persistent storage, and a contract whose
  calls implement the book.
\<close>

section \<open>Outcome shares\<close>

datatype Prediction = Yes | No

fun other :: "Prediction \<Rightarrow> Prediction" where
  "other Yes = No"
| "other No = Yes"

lemma other_simps [simp]: "other (other p) = p" "other p \<noteq> p" "p \<noteq> other p"
  by (cases p; simp)+

lemma all_prediction: "(\<forall>p. P p) \<longleftrightarrow> P Yes \<and> P No"
  by (metis Prediction.exhaust)

lemma prediction_neq: "p \<noteq> q \<longleftrightarrow> q = other p"
  by (cases p; cases q) simp_all

section \<open>The book\<close>

datatype phase = Trading | Won Prediction | Voided

record book =
  pool :: "Prediction \<Rightarrow> int"
  issued :: int
  holdings :: "Prediction \<Rightarrow> Address \<Rightarrow> int"
  phase :: phase

definition add_shares ::
    "(Prediction \<Rightarrow> Address \<Rightarrow> int) \<Rightarrow> Prediction \<Rightarrow> Address \<Rightarrow> int \<Rightarrow>
      Prediction \<Rightarrow> Address \<Rightarrow> int" where
  "add_shares h p a n = h(p := (h p)(a := h p a + n))"

definition drop_shares ::
    "(Prediction \<Rightarrow> Address \<Rightarrow> int) \<Rightarrow> Address \<Rightarrow> Prediction \<Rightarrow> Address \<Rightarrow> int" where
  "drop_shares h a = (\<lambda>p. (h p)(a := 0))"

lemma add_shares_apply:
  "add_shares h p a n q b = (if p = q \<and> a = b then h p a + n else h q b)"
  by (simp add: add_shares_def)

lemma drop_shares_apply: "drop_shares h a q b = (if a = b then 0 else h q b)"
  by (simp add: drop_shares_def)

text \<open>Buying: the split's pair, less the unwanted side moved into the pool, is the wanted side
  alone.\<close>

lemma add_shares_swap:
  "add_shares (add_shares (add_shares (add_shares h Yes u n) No u n) (other p) u (- n)) p u k
    = add_shares h p u (n + k)"
  by (cases p) (auto simp: add_shares_def fun_eq_iff)

lemma book_eqI:
  "pool b = pool c \<Longrightarrow> issued b = issued c \<Longrightarrow> holdings b = holdings c \<Longrightarrow> phase b = phase c \<Longrightarrow>
    b = (c :: book)"
  by simp

definition outstanding :: "(Prediction \<Rightarrow> Address \<Rightarrow> int) \<Rightarrow> Prediction \<Rightarrow> int" where
  "outstanding h p = fsum (h p)"

definition finite_holdings :: "(Prediction \<Rightarrow> Address \<Rightarrow> int) \<Rightarrow> bool" where
  "finite_holdings h \<longleftrightarrow> (\<forall>p. finite {a. h p a \<noteq> 0})"

named_theorems ledger_simps "how ledger updates change totals"

lemma finite_add_shares [ledger_simps]:
  "finite_holdings h \<Longrightarrow> finite_holdings (add_shares h p a n)"
  using finite_support_upd [of "h p" a "h p a + n"]
  by (auto simp: finite_holdings_def add_shares_def)

lemma finite_drop_shares [ledger_simps]:
  "finite_holdings h \<Longrightarrow> finite_holdings (drop_shares h a)"
  using finite_support_upd [of "h p" a 0 for p]
  by (auto simp: finite_holdings_def drop_shares_def)

lemma outstanding_add [ledger_simps]:
  "finite_holdings h \<Longrightarrow>
    outstanding (add_shares h p a n) q = outstanding h q + (if p = q then n else 0)"
  by (simp add: outstanding_def add_shares_def finite_holdings_def fsum_upd)

lemma outstanding_drop [ledger_simps]:
  "finite_holdings h \<Longrightarrow> outstanding (drop_shares h a) q = outstanding h q - h q a"
  by (simp add: outstanding_def drop_shares_def finite_holdings_def fsum_upd)

lemma holding_le_outstanding:
  "finite_holdings h \<Longrightarrow> \<forall>q b. 0 \<le> h q b \<Longrightarrow> h p a \<le> outstanding h p"
  unfolding outstanding_def by (rule le_fsum) (auto simp: finite_holdings_def)

subsection \<open>Its moves\<close>

inductive book_step :: "book \<Rightarrow> book \<Rightarrow> bool" where
  mint: "phase b = Trading \<Longrightarrow> 0 < n \<Longrightarrow>
    book_step b (b\<lparr>holdings := add_shares (add_shares (holdings b) Yes u n) No u n,
      issued := issued b + n\<rparr>)"
| burn: "phase b = Trading \<Longrightarrow> 0 < n \<Longrightarrow> n \<le> holdings b Yes u \<Longrightarrow> n \<le> holdings b No u \<Longrightarrow>
    book_step b (b\<lparr>holdings := add_shares (add_shares (holdings b) Yes u (- n)) No u (- n),
      issued := issued b - n\<rparr>)"
| swap: "phase b = Trading \<Longrightarrow> 0 < n \<Longrightarrow> 0 \<le> out \<Longrightarrow> 2 * out < pool b p \<Longrightarrow>
    book_step b (b\<lparr>holdings := add_shares (holdings b) p u (n + out),
      pool := (pool b)(other p := pool b (other p) + n, p := pool b p - out),
      issued := issued b + n\<rparr>)"
| unwind: "phase b = Trading \<Longrightarrow> 0 < n \<Longrightarrow> n \<le> holdings b p u \<Longrightarrow> 0 < out \<Longrightarrow>
    2 * out < pool b (other p) \<Longrightarrow> out < pool b p + n \<Longrightarrow>
    book_step b (b\<lparr>holdings := add_shares (holdings b) p u (- n),
      pool := (pool b)(p := pool b p + n - out, other p := pool b (other p) - out),
      issued := issued b - out\<rparr>)"
| move: "0 < n \<Longrightarrow> n \<le> holdings b p u \<Longrightarrow>
    book_step b (b\<lparr>holdings := add_shares (add_shares (holdings b) p u (- n)) p v n\<rparr>)"
| conclude: "phase b = Trading \<Longrightarrow> ph \<noteq> Trading \<Longrightarrow>
    book_step b (b\<lparr>holdings :=
        add_shares (add_shares (holdings b) Yes u (pool b Yes)) No u (pool b No),
      pool := (\<lambda>_. 0), phase := ph\<rparr>)"
| claim_won: "phase b = Won p \<Longrightarrow> 0 < holdings b p u \<Longrightarrow>
    book_step b (b\<lparr>holdings := drop_shares (holdings b) u,
      issued := issued b - holdings b p u\<rparr>)"
| claim_void: "phase b = Voided \<Longrightarrow> pay = (holdings b Yes u + holdings b No u) div 2 \<Longrightarrow> 0 < pay \<Longrightarrow>
    book_step b (b\<lparr>holdings := drop_shares (holdings b) u, issued := issued b - pay\<rparr>)"

subsection \<open>Its invariant\<close>

text \<open>Before the end, each side's pool and holdings add up to the supply; afterwards the
  shares that can still be redeemed are covered by it.\<close>

definition covered :: "book \<Rightarrow> bool" where
  "covered b \<longleftrightarrow> (case phase b of
      Trading \<Rightarrow> (\<forall>p. 0 < pool b p \<and> pool b p + outstanding (holdings b) p = issued b)
    | Won p \<Rightarrow> outstanding (holdings b) p = issued b
    | Voided \<Rightarrow> outstanding (holdings b) Yes + outstanding (holdings b) No \<le> 2 * issued b)"

definition book_ok :: "book \<Rightarrow> bool" where
  "book_ok b \<longleftrightarrow> finite_holdings (holdings b) \<and> (\<forall>p a. 0 \<le> holdings b p a)
     \<and> (phase b \<noteq> Trading \<longrightarrow> pool b = (\<lambda>_. 0)) \<and> covered b"

definition book_start :: "int \<Rightarrow> book" where
  "book_start n = \<lparr>pool = (\<lambda>_. n), issued = n, holdings = (\<lambda>_ _. 0), phase = Trading\<rparr>"

lemma book_start_ok: "0 < n \<Longrightarrow> book_ok (book_start n)"
  by (simp add: book_ok_def covered_def book_start_def finite_holdings_def outstanding_def)

lemmas book_ok_unfold = book_ok_def covered_def all_prediction

lemma book_step_ok: "book_step b c \<Longrightarrow> book_ok b \<Longrightarrow> book_ok c"
proof (induction rule: book_step.induct)
  case (mint b n u)
  then show ?case
    by (auto simp: book_ok_def covered_def ledger_simps add_shares_apply all_prediction)
next
  case (burn b n u)
  then show ?case
    by (auto simp: book_ok_def covered_def ledger_simps add_shares_apply all_prediction)
next
  case (swap b n out p u)
  then show ?case
    by (cases p) (auto simp: book_ok_def covered_def ledger_simps add_shares_apply all_prediction)
next
  case (unwind b n p u out)
  then show ?case
    by (cases p) (auto simp: book_ok_def covered_def ledger_simps add_shares_apply all_prediction)
next
  case (move n b p u v)
  then show ?case
    by (auto simp: book_ok_def covered_def ledger_simps add_shares_apply split: phase.splits)
next
  case (conclude b ph u)
  then show ?case
    by (auto simp: book_ok_def covered_def ledger_simps add_shares_apply all_prediction
        less_imp_le split: phase.splits) 
next
  case (claim_won b p u)
  then show ?case
    by (auto simp: book_ok_def covered_def ledger_simps drop_shares_apply)
next
  case (claim_void b pay u)
  then show ?case
    by (auto simp: book_ok_def covered_def ledger_simps drop_shares_apply)
qed


subsection \<open>What the invariant pays for\<close>

text \<open>The collateral one holder can still claim.\<close>

definition claimable :: "book \<Rightarrow> Address \<Rightarrow> int" where
  "claimable b a = (case phase b of
      Trading \<Rightarrow> 0
    | Won p \<Rightarrow> holdings b p a
    | Voided \<Rightarrow> (holdings b Yes a + holdings b No a) div 2)"

lemma outstanding_nonneg: "book_ok b \<Longrightarrow> 0 \<le> outstanding (holdings b) p"
  by (simp add: book_ok_def outstanding_def fsum_nonneg)

lemma issued_nonneg:
  assumes "book_ok b"
  shows "0 \<le> issued b"
proof (cases "phase b")
  case Trading
  then have "pool b Yes + outstanding (holdings b) Yes = issued b" "0 < pool b Yes"
    using assms by (simp_all add: book_ok_def covered_def)
  then show ?thesis using outstanding_nonneg [OF assms, of Yes] by linarith
next
  case (Won p)
  then show ?thesis
    using assms outstanding_nonneg [OF assms, of p] by (simp add: book_ok_def covered_def)
next
  case Voided
  then have "outstanding (holdings b) Yes + outstanding (holdings b) No \<le> 2 * issued b"
    using assms by (simp add: book_ok_def covered_def)
  then show ?thesis
    using outstanding_nonneg [OF assms, of Yes] outstanding_nonneg [OF assms, of No] by linarith
qed

lemma claimable_le_issued:
  assumes "book_ok b"
  shows "claimable b a \<le> issued b"
proof -
  have le: "holdings b p a \<le> outstanding (holdings b) p" for p
    using assms by (intro holding_le_outstanding) (auto simp: book_ok_def)
  show ?thesis
  proof (cases "phase b")
    case Trading
    then show ?thesis using issued_nonneg [OF assms] by (simp add: claimable_def)
  next
    case (Won p)
    then show ?thesis using le [of p] assms by (simp add: claimable_def book_ok_def covered_def)
  next
    case Voided
    then have "outstanding (holdings b) Yes + outstanding (holdings b) No \<le> 2 * issued b"
      using assms by (simp add: book_ok_def covered_def)
    then have "holdings b Yes a + holdings b No a \<le> 2 * issued b"
      using le [of Yes] le [of No] by linarith
    then show ?thesis using Voided by (simp add: claimable_def)
  qed
qed

text \<open>All holders together: their claims sum to at most the supply, and exactly to it when a
  side has won.\<close>

lemma claims_sum:
  assumes "book_ok b" "phase b \<noteq> Trading"
  shows "fsum (claimable b) \<le> issued b" and "phase b = Won p \<Longrightarrow> fsum (claimable b) = issued b"
proof -
  let ?h = "holdings b"
  have fin: "finite {a. ?h p a \<noteq> 0}" for p
    using assms by (simp add: book_ok_def finite_holdings_def)
  show won: "fsum (claimable b) = issued b" if "phase b = Won p" for p
    using assms that
    by (simp add: book_ok_def covered_def outstanding_def claimable_def [abs_def])
  show "fsum (claimable b) \<le> issued b"
  proof (cases "phase b")
    case Voided
    let ?A = "{a. ?h Yes a \<noteq> 0} \<union> {a. ?h No a \<noteq> 0}"
    have "2 * fsum (claimable b) = (\<Sum>a\<in>?A. 2 * ((?h Yes a + ?h No a) div 2))"
      using fin Voided
      by (subst fsum_superset [of ?A]) (auto simp: claimable_def sum_distrib_left)
    also have "\<dots> \<le> (\<Sum>a\<in>?A. ?h Yes a + ?h No a)" by (intro sum_mono) simp
    also have "\<dots> = outstanding ?h Yes + outstanding ?h No"
      using fin by (simp add: outstanding_def sum.distrib fsum_superset [of ?A])
    finally show ?thesis using assms Voided by (simp add: book_ok_def covered_def)
  qed (use assms won in auto)
qed

section \<open>The share ledger of a contract\<close>

text \<open>
  The four storage functions each contract declares for its share balances
  (\<open>balance_of\<close>, \<open>set_balance\<close>, \<open>credit\<close>, \<open>debit\<close>).  \<open>frame\<close> is everything else in the
  contract's state, which they leave alone.
\<close>

locale share_ledger =
  fixes balance_of :: "'st \<Rightarrow> Prediction \<Rightarrow> Address \<Rightarrow> int"
    and set_balance :: "Prediction \<Rightarrow> Address \<Rightarrow> int \<Rightarrow> 'st \<Rightarrow> 'st"
    and credit :: "Prediction \<Rightarrow> Address \<Rightarrow> int \<Rightarrow> 'st \<Rightarrow> ('e, 'st) res"
    and debit :: "Prediction \<Rightarrow> Address \<Rightarrow> int \<Rightarrow> 'st \<Rightarrow> ('e, 'st) res"
    and frame :: "'st \<Rightarrow> 'f"
  assumes balance_of_set:
      "balance_of (set_balance p a v st) q b = (if p = q \<and> a = b then v else balance_of st q b)"
    and credit_Inr: "credit p a v st = Inr st' \<longleftrightarrow>
      in_i128 (balance_of st p a + v) \<and> st' = set_balance p a (balance_of st p a + v) st"
    and debit_Inr: "debit p a v st = Inr st' \<longleftrightarrow>
      v \<le> balance_of st p a \<and> in_i128 (balance_of st p a - v)
      \<and> st' = set_balance p a (balance_of st p a - v) st"
    and frame_set: "frame (set_balance p a v st) = frame st"
begin

lemma balances_set: "balance_of (set_balance p a v st) = (balance_of st)(p := (balance_of st p)(a := v))"
  by (auto simp: fun_eq_iff balance_of_set)

lemma credit_shares:
  "credit p a v st = Inr st' \<Longrightarrow>
    balance_of st' = add_shares (balance_of st) p a v \<and> frame st' = frame st"
  by (auto simp: credit_Inr balances_set add_shares_def frame_set)

lemma debit_shares:
  "debit p a v st = Inr st' \<Longrightarrow> v \<le> balance_of st p a
    \<and> balance_of st' = add_shares (balance_of st) p a (- v) \<and> frame st' = frame st"
  by (auto simp: debit_Inr balances_set add_shares_def frame_set)

lemma clear_shares:
  "balance_of (set_balance No a 0 (set_balance Yes a 0 st)) = drop_shares (balance_of st) a"
  "frame (set_balance No a 0 (set_balance Yes a 0 st)) = frame st"
  by (auto simp: balances_set drop_shares_def fun_eq_iff frame_set) (metis Prediction.exhaust)

end

section \<open>A contract that implements the book\<close>

text \<open>
  The contract of both markets with their clients: before \<open>initialize\<close> the state is fresh;
  \<open>initialize\<close> opens a book whose liquidity has been paid in; every later step is a move of
  the book, or leaves it alone, and changes the collateral the contract holds by at least the
  change of the supply.
\<close>

locale ctf_contract =
  fixes fresh :: "'st \<Rightarrow> bool"
    and book_of :: "'st \<Rightarrow> book option"
    and collateral_of :: "'st \<Rightarrow> int"
    and step :: "'st \<Rightarrow> 'st \<Rightarrow> bool"
  assumes fresh_step: "fresh s \<Longrightarrow> step s t \<Longrightarrow>
      fresh t \<or> (\<exists>n>0. book_of t = Some (book_start n) \<and> n \<le> collateral_of t)"
    and fresh_book: "fresh s \<Longrightarrow> book_of s = None"
    and book_moves: "book_of s = Some b \<Longrightarrow> book_ok b \<Longrightarrow> step s t \<Longrightarrow>
      \<exists>c. book_of t = Some c \<and> (c = b \<or> book_step b c)
        \<and> issued c - issued b \<le> collateral_of t - collateral_of s"
begin

lemma reach_invariant:
  assumes "step\<^sup>*\<^sup>* s t" "fresh s"
  shows "fresh t \<or> (\<exists>b. book_of t = Some b \<and> book_ok b \<and> issued b \<le> collateral_of t)"
  using assms
proof (induction rule: rtranclp_induct)
  case base
  then show ?case by simp
next
  case (step t u)
  from step.IH [OF step.prems] show ?case
  proof
    assume "fresh t"
    then show ?thesis
      using fresh_step [OF _ step.hyps(2)] book_start_ok by (fastforce simp: book_start_def)
  next
    assume "\<exists>b. book_of t = Some b \<and> book_ok b \<and> issued b \<le> collateral_of t"
    then obtain b where b: "book_of t = Some b" "book_ok b" "issued b \<le> collateral_of t" by blast
    then obtain c where "book_of u = Some c" "c = b \<or> book_step b c"
        "issued c - issued b \<le> collateral_of u - collateral_of t"
      using book_moves [OF b(1,2) step.hyps(2)] by blast
    then show ?thesis using b book_step_ok by fastforce
  qed
qed

lemma reach_book:
  assumes "step\<^sup>*\<^sup>* s t" "fresh s" "book_of t = Some b"
  shows "book_ok b" and "issued b \<le> collateral_of t"
  using reach_invariant [OF assms(1,2)] assms(3) fresh_book [of t] by auto

lemma reach_claims_backed:
  assumes "step\<^sup>*\<^sup>* s t" "fresh s" "book_of t = Some b" "phase b \<noteq> Trading"
  shows "fsum (claimable b) \<le> collateral_of t" "claimable b a \<le> collateral_of t"
  using reach_book [OF assms(1-3)] claims_sum(1) [of b] claimable_le_issued [of b a] assms(4)
  by auto

end

end
