(* ===== verification/Market.thy ===== *)
theory Market
  imports Oracle Book
begin

text \<open>
  The market contract, \<open>contracts/market/src/lib.rs\<close>: its data, its storage, every helper
  and every entry point.  An entry point takes the environment, its arguments and the
  contract's state (its instance and persistent storage, the lifetimes of both, the token
  contracts, and the events published) and returns a failure, or its result and the new
  state.
\<close>

section \<open>Constants and errors\<close>

definition MAX_FEE_BPS :: u32 where
  "MAX_FEE_BPS = 1000"

definition PRICE_FRESHNESS_WINDOW_SECS :: u64 where
  "PRICE_FRESHNESS_WINDOW_SECS = 300"

definition BUMP_TO :: nat where
  "BUMP_TO = 535680"

definition BUMP_THRESHOLD :: nat where
  "BUMP_THRESHOLD = 500000"

datatype market_error =
    NotInitialized | AlreadyInitialized | InvalidStrikePrice | InvalidExpiry
  | InvalidGracePeriod | InvalidFeedId | InvalidFeeBps | InvalidLiquidity | MarketNotOpen
  | TradingClosed | InvalidAmount | InsufficientBalance | SlippageExceeded | ExpiryNotReached
  | InvalidPayload | FeedNotFound | StalePrice | FuturePrice | GracePeriodNotElapsed
  | AlreadyFinalized | NotFinalized | NothingToRedeem | PoolDepthExceeded
  | ReflectorPriceUnavailable | ReflectorPriceStale | ReflectorDecimalsInvalid
  | OracleDivergence | InvalidReflectorConfig | ReflectorDecimalsChanged
  | RedstonePriceUnavailable | RedstonePriceStale | RedstoneDecimalsInvalid
  | RedstoneDecimalsChanged | InvalidRedstoneConfig

text \<open>The discriminants, which are what a client of the contract sees, and the derived order.\<close>

fun market_error_code :: "market_error \<Rightarrow> nat" where
  "market_error_code NotInitialized = 1"
| "market_error_code AlreadyInitialized = 2"
| "market_error_code InvalidStrikePrice = 3"
| "market_error_code InvalidExpiry = 4"
| "market_error_code InvalidGracePeriod = 5"
| "market_error_code InvalidFeedId = 6"
| "market_error_code InvalidFeeBps = 7"
| "market_error_code InvalidLiquidity = 8"
| "market_error_code MarketNotOpen = 9"
| "market_error_code TradingClosed = 10"
| "market_error_code InvalidAmount = 11"
| "market_error_code InsufficientBalance = 12"
| "market_error_code SlippageExceeded = 13"
| "market_error_code ExpiryNotReached = 14"
| "market_error_code InvalidPayload = 15"
| "market_error_code FeedNotFound = 16"
| "market_error_code StalePrice = 17"
| "market_error_code FuturePrice = 18"
| "market_error_code GracePeriodNotElapsed = 19"
| "market_error_code AlreadyFinalized = 20"
| "market_error_code NotFinalized = 21"
| "market_error_code NothingToRedeem = 22"
| "market_error_code PoolDepthExceeded = 23"
| "market_error_code ReflectorPriceUnavailable = 24"
| "market_error_code ReflectorPriceStale = 25"
| "market_error_code ReflectorDecimalsInvalid = 26"
| "market_error_code OracleDivergence = 27"
| "market_error_code InvalidReflectorConfig = 28"
| "market_error_code ReflectorDecimalsChanged = 29"
| "market_error_code RedstonePriceUnavailable = 30"
| "market_error_code RedstonePriceStale = 31"
| "market_error_code RedstoneDecimalsInvalid = 32"
| "market_error_code RedstoneDecimalsChanged = 33"
| "market_error_code InvalidRedstoneConfig = 34"

lemma market_error_code_inject [simp]: "market_error_code a = market_error_code b \<longleftrightarrow> a = b"
  by (cases a) (cases b; simp)+

instantiation market_error :: linorder
begin

definition less_eq_market_error :: "market_error \<Rightarrow> market_error \<Rightarrow> bool" where
  "less_eq_market_error a b \<longleftrightarrow> market_error_code a \<le> market_error_code b"

definition less_market_error :: "market_error \<Rightarrow> market_error \<Rightarrow> bool" where
  "less_market_error a b \<longleftrightarrow> market_error_code a < market_error_code b"

instance
  by standard (auto simp: less_eq_market_error_def less_market_error_def)

end

section \<open>Data\<close>

datatype MarketStatus = Open | ResolvedYes | ResolvedNo | Cancelled

record Market =
  admin :: Address
  collateral :: Address
  strike_price :: int
  expiry :: u64
  grace_period :: u64
  lazer_contract :: Address
  feed_id :: u32
  base_fee_bps :: u32
  min_fee_bps :: u32
  treasury :: Address
  status :: MarketStatus
  final_price :: int
  pool_yes :: int
  pool_no :: int
  total_supply :: int
  initial_liquidity :: int
  reflector :: OracleFeedConfig
  reflector_decimals_at_init :: u32

record RedstoneOracle =
  config :: OracleFeedConfig
  decimals_at_init :: u32

datatype market_event =
    InitEvent int u64
  | SplitEvent Address int
  | MergeEvent Address int
  | BuyEvent Address Prediction int int
  | SellEvent Address Prediction int int
  | TransferEvent Address Address Prediction int
  | SettleEvent MarketStatus int
  | CancelEvent
  | RedeemEvent Address int

text \<open>One field per \<open>DataKey\<close>: \<open>Market\<close> and \<open>Redstone\<close> in instance storage,
  \<open>Balance(side, addr)\<close> in persistent storage.\<close>

record market_store =
  inst_market :: "Market option"
  inst_redstone :: "RedstoneOracle option"
  balances :: "Prediction \<times> Address \<rightharpoonup> int"
  inst_ttl :: nat
  balance_ttl :: "Prediction \<times> Address \<Rightarrow> nat"
  events :: "market_event list"

record 'tok market_state = market_store +
  tokens :: 'tok

section \<open>Storage helpers\<close>

definition market_touch :: "'a market_store_scheme \<Rightarrow> 'a market_store_scheme" where
  "market_touch st = st\<lparr>inst_ttl := extend_ttl BUMP_THRESHOLD BUMP_TO (inst_ttl st)\<rparr>"

definition load_market :: "'a market_store_scheme \<Rightarrow> (market_error, Market) res" where
  "load_market st = ok_or NotInitialized (inst_market st)"

definition save_market :: "Market \<Rightarrow> 'a market_store_scheme \<Rightarrow> 'a market_store_scheme" where
  "save_market m st = market_touch (st\<lparr>inst_market := Some m\<rparr>)"

definition load_redstone_oracle :: "'a market_store_scheme \<Rightarrow> RedstoneOracle option" where
  "load_redstone_oracle st = inst_redstone st"

definition market_balance_of ::
    "'a market_store_scheme \<Rightarrow> Prediction \<Rightarrow> Address \<Rightarrow> int" where
  "market_balance_of st side addr =
     (case balances st (side, addr) of None \<Rightarrow> 0 | Some b \<Rightarrow> b)"

definition market_set_balance ::
    "Prediction \<Rightarrow> Address \<Rightarrow> int \<Rightarrow> 'a market_store_scheme \<Rightarrow> 'a market_store_scheme" where
  "market_set_balance side addr amount st =
     (if amount = 0 then st\<lparr>balances := (balances st)((side, addr) := None),
              balance_ttl := (balance_ttl st)((side, addr) := 0)\<rparr>
      else st\<lparr>balances := (balances st)((side, addr) \<mapsto> amount),
              balance_ttl := (balance_ttl st)((side, addr) :=
                extend_ttl BUMP_THRESHOLD BUMP_TO (balance_ttl st (side, addr)))\<rparr>)"

definition market_credit ::
    "Prediction \<Rightarrow> Address \<Rightarrow> int \<Rightarrow> 'a market_store_scheme \<Rightarrow>
      (market_error, 'a market_store_scheme) res" where
  "market_credit side addr amount st =
     (let b = market_balance_of st side addr in
      bindr (i128_add b amount) (\<lambda>s. Inr (market_set_balance side addr s st)))"

definition market_debit ::
    "Prediction \<Rightarrow> Address \<Rightarrow> int \<Rightarrow> 'a market_store_scheme \<Rightarrow>
      (market_error, 'a market_store_scheme) res" where
  "market_debit side addr amount st =
     (let b = market_balance_of st side addr in
      if b < amount then Inl (Err InsufficientBalance)
      else bindr (i128_sub b amount) (\<lambda>s. Inr (market_set_balance side addr s st)))"

definition market_effective_fee_bps :: "Market \<Rightarrow> (market_error, u32) res" where
  "market_effective_fee_bps m =
     effective_fee_bps (base_fee_bps m) (min_fee_bps m) (initial_liquidity m) (total_supply m)"

fun market_reserves :: "Market \<Rightarrow> Prediction \<Rightarrow> int \<times> int" where
  "market_reserves m Yes = (pool_yes m, pool_no m)"
| "market_reserves m No = (pool_no m, pool_yes m)"

fun market_set_reserve :: "Prediction \<Rightarrow> int \<Rightarrow> Market \<Rightarrow> Market" where
  "market_set_reserve Yes v m = m\<lparr>pool_yes := v\<rparr>"
| "market_set_reserve No v m = m\<lparr>pool_no := v\<rparr>"

text \<open>The token client and the event log, as the entry points use them.\<close>

definition market_pay ::
    "'tok Env \<Rightarrow> Address \<Rightarrow> Address \<Rightarrow> Address \<Rightarrow> int \<Rightarrow> 'tok market_state \<Rightarrow>
      (market_error, 'tok market_state) res" where
  "market_pay env token from to amount st =
     bindr (sub_call (token_transfer env token from to amount (tokens st)))
       (\<lambda>t. Inr (st\<lparr>tokens := t\<rparr>))"

definition market_publish ::
    "market_event \<Rightarrow> 'a market_store_scheme \<Rightarrow> 'a market_store_scheme" where
  "market_publish e st = st\<lparr>events := events st @ [e]\<rparr>"

section \<open>Initialisation\<close>

definition market_initialize ::
    "'tok Env \<Rightarrow> Address \<Rightarrow> Address \<Rightarrow> int \<Rightarrow> u64 \<Rightarrow> u64 \<Rightarrow> Address \<Rightarrow> u32 \<Rightarrow> u32 \<Rightarrow> u32 \<Rightarrow>
      Address \<Rightarrow> int \<Rightarrow> OracleFeedConfig \<Rightarrow> OracleFeedConfig option \<Rightarrow> 'tok market_state \<Rightarrow>
      (market_error, unit \<times> 'tok market_state) res" where
  "market_initialize env adm coll strike expiry_ts grace lazer feed base_fee min_fee treas liquidity
      refl_cfg redstone st =
     bindr (require_auth env adm) (\<lambda>_.
     if inst_market st \<noteq> None then Inl (Err AlreadyInitialized) else
     if strike \<le> 0 then Inl (Err InvalidStrikePrice) else
     if expiry_ts \<le> ledger_timestamp env then Inl (Err InvalidExpiry) else
     if grace = 0 then Inl (Err InvalidGracePeriod) else
     if feed = 0 then Inl (Err InvalidFeedId) else
     if MAX_FEE_BPS < base_fee \<or> base_fee < min_fee then Inl (Err InvalidFeeBps) else
     if liquidity \<le> 0 then Inl (Err InvalidLiquidity) else
     bindr (sub_call (sep40_resolution env (contract refl_cfg))) (\<lambda>resolution.
     if max_staleness_secs refl_cfg < ucast resolution then Inl (Err InvalidReflectorConfig) else
     bindr (sub_call (sep40_decimals env (contract refl_cfg))) (\<lambda>refl_decimals.
     if \<not> (2 \<le> refl_decimals \<and> refl_decimals \<le> 30) then Inl (Err ReflectorDecimalsInvalid) else
     bindr (case redstone of
         None \<Rightarrow> Inr st
       | Some cfg \<Rightarrow>
           bindr (sub_call (sep40_resolution env (contract cfg))) (\<lambda>rs_resolution.
           if max_staleness_secs cfg < ucast rs_resolution then Inl (Err InvalidRedstoneConfig)
           else
           bindr (sub_call (sep40_decimals env (contract cfg))) (\<lambda>rs_decimals.
           if \<not> (2 \<le> rs_decimals \<and> rs_decimals \<le> 30) then Inl (Err RedstoneDecimalsInvalid)
           else
             Inr (st\<lparr>inst_redstone :=
               Some \<lparr>config = cfg, decimals_at_init = rs_decimals\<rparr>\<rparr>)))) (\<lambda>st.
     bindr (market_pay env coll adm (current_contract_address env) liquidity st) (\<lambda>st.
     let market = \<lparr>admin = adm, collateral = coll, strike_price = strike, expiry = expiry_ts,
           grace_period = grace, lazer_contract = lazer, feed_id = feed,
           base_fee_bps = base_fee, min_fee_bps = min_fee, treasury = treas, status = Open,
           final_price = 0, pool_yes = liquidity, pool_no = liquidity,
           total_supply = liquidity, initial_liquidity = liquidity, reflector = refl_cfg,
           reflector_decimals_at_init = refl_decimals\<rparr>;
         st = save_market market st
     in Inr ((), market_publish (InitEvent strike expiry_ts) st))))))"

section \<open>Minting and burning pairs\<close>

definition market_split ::
    "'tok Env \<Rightarrow> Address \<Rightarrow> int \<Rightarrow> 'tok market_state \<Rightarrow>
      (market_error, unit \<times> 'tok market_state) res" where
  "market_split env user amount st =
     bindr (require_auth env user) (\<lambda>_.
     bindr (load_market st) (\<lambda>m.
     if status m \<noteq> Open then Inl (Err MarketNotOpen) else
     if amount \<le> 0 then Inl (Err InvalidAmount) else
     bindr (market_pay env (collateral m) user (current_contract_address env) amount st) (\<lambda>st.
     bindr (market_credit Yes user amount st) (\<lambda>st.
     bindr (market_credit No user amount st) (\<lambda>st.
     bindr (i128_add (total_supply m) amount) (\<lambda>ts.
     let st = save_market (m\<lparr>total_supply := ts\<rparr>) st
     in Inr ((), market_publish (SplitEvent user amount) st)))))))"

definition market_merge ::
    "'tok Env \<Rightarrow> Address \<Rightarrow> int \<Rightarrow> 'tok market_state \<Rightarrow>
      (market_error, unit \<times> 'tok market_state) res" where
  "market_merge env user amount st =
     bindr (require_auth env user) (\<lambda>_.
     bindr (load_market st) (\<lambda>m.
     if status m \<noteq> Open then Inl (Err MarketNotOpen) else
     if amount \<le> 0 then Inl (Err InvalidAmount) else
     bindr (market_debit Yes user amount st) (\<lambda>st.
     bindr (market_debit No user amount st) (\<lambda>st.
     bindr (market_pay env (collateral m) (current_contract_address env) user amount st) (\<lambda>st.
     bindr (i128_sub (total_supply m) amount) (\<lambda>ts.
     let st = save_market (m\<lparr>total_supply := ts\<rparr>) st
     in Inr ((), market_publish (MergeEvent user amount) st)))))))"

section \<open>Trading\<close>

definition market_buy ::
    "'tok Env \<Rightarrow> Address \<Rightarrow> Prediction \<Rightarrow> int \<Rightarrow> int \<Rightarrow> 'tok market_state \<Rightarrow>
      (market_error, int \<times> 'tok market_state) res" where
  "market_buy env user prediction collateral_amount min_shares_out st =
     bindr (require_auth env user) (\<lambda>_.
     bindr (load_market st) (\<lambda>m.
     if status m \<noteq> Open then Inl (Err MarketNotOpen) else
     if expiry m \<le> ledger_timestamp env then Inl (Err TradingClosed) else
     if collateral_amount \<le> 0 then Inl (Err InvalidAmount) else
     let unwanted = other prediction;
         (reserve_in, reserve_out) = market_reserves m unwanted in
     bindr (market_effective_fee_bps m) (\<lambda>fee.
     bindr (apply_fee collateral_amount fee) (\<lambda>effective_in.
     bindr (cpmm_out reserve_in reserve_out effective_in) (\<lambda>amount_out.
     bindr (i128_mul amount_out 2) (\<lambda>twice.
     if reserve_out \<le> twice then Inl (Err PoolDepthExceeded) else
     if amount_out < min_shares_out then Inl (Err SlippageExceeded) else
     bindr (market_pay env (collateral m) user (current_contract_address env)
       collateral_amount st) (\<lambda>st.
     bindr (market_credit Yes user collateral_amount st) (\<lambda>st.
     bindr (market_credit No user collateral_amount st) (\<lambda>st.
     bindr (i128_add (total_supply m) collateral_amount) (\<lambda>ts.
     let m = m\<lparr>total_supply := ts\<rparr> in
     bindr (market_debit unwanted user collateral_amount st) (\<lambda>st.
     bindr (i128_add reserve_in collateral_amount) (\<lambda>new_in.
     let m = market_set_reserve unwanted new_in m in
     bindr (i128_sub reserve_out amount_out) (\<lambda>new_out.
     let m = market_set_reserve prediction new_out m in
     bindr (market_credit prediction user amount_out st) (\<lambda>st.
     let st = save_market m st;
         st = market_publish (BuyEvent user prediction collateral_amount amount_out) st in
     bindr (i128_add collateral_amount amount_out) (\<lambda>total.
     Inr (total, st))))))))))))))))"

definition market_sell ::
    "'tok Env \<Rightarrow> Address \<Rightarrow> Prediction \<Rightarrow> int \<Rightarrow> int \<Rightarrow> 'tok market_state \<Rightarrow>
      (market_error, int \<times> 'tok market_state) res" where
  "market_sell env user prediction shares_in min_collateral_out st =
     bindr (require_auth env user) (\<lambda>_.
     bindr (load_market st) (\<lambda>m.
     if status m \<noteq> Open then Inl (Err MarketNotOpen) else
     if expiry m \<le> ledger_timestamp env then Inl (Err TradingClosed) else
     if shares_in \<le> 0 then Inl (Err InvalidAmount) else
     if market_balance_of st prediction user < shares_in then Inl (Err InsufficientBalance) else
     let opposite = other prediction;
         (reserve_in, reserve_out) = market_reserves m prediction in
     bindr (market_effective_fee_bps m) (\<lambda>fee.
     bindr (apply_fee shares_in fee) (\<lambda>effective_in.
     bindr (cpmm_sell_out reserve_in reserve_out effective_in) (\<lambda>collateral_out.
     bindr (i128_mul collateral_out 2) (\<lambda>twice.
     if reserve_out \<le> twice then Inl (Err PoolDepthExceeded) else
     if collateral_out \<le> 0 \<or> collateral_out < min_collateral_out
     then Inl (Err SlippageExceeded) else
     bindr (market_debit prediction user shares_in st) (\<lambda>st.
     bindr (i128_add reserve_in shares_in) (\<lambda>gross_in.
     bindr (i128_sub gross_in collateral_out) (\<lambda>new_in.
     let m = market_set_reserve prediction new_in m in
     bindr (i128_sub reserve_out collateral_out) (\<lambda>new_out.
     let m = market_set_reserve opposite new_out m in
     bindr (market_pay env (collateral m) (current_contract_address env) user
       collateral_out st) (\<lambda>st.
     bindr (i128_sub (total_supply m) collateral_out) (\<lambda>ts.
     let st = save_market (m\<lparr>total_supply := ts\<rparr>) st
     in Inr (collateral_out,
          market_publish (SellEvent user prediction shares_in collateral_out) st)))))))))))))"

definition market_transfer ::
    "'tok Env \<Rightarrow> Address \<Rightarrow> Address \<Rightarrow> Prediction \<Rightarrow> int \<Rightarrow> 'tok market_state \<Rightarrow>
      (market_error, unit \<times> 'tok market_state) res" where
  "market_transfer env from to prediction amount st =
     bindr (require_auth env from) (\<lambda>_.
     bindr (load_market st) (\<lambda>_.
     if amount \<le> 0 then Inl (Err InvalidAmount) else
     bindr (market_debit prediction from amount st) (\<lambda>st.
     bindr (market_credit prediction to amount st) (\<lambda>st.
     Inr ((), market_publish (TransferEvent from to prediction amount) st)))))"

section \<open>The end of a market\<close>

fun reflector_error :: "OracleCheckError \<Rightarrow> market_error" where
  "reflector_error Unavailable = ReflectorPriceUnavailable"
| "reflector_error Stale = ReflectorPriceStale"
| "reflector_error DecimalsInvalid = ReflectorDecimalsInvalid"
| "reflector_error DecimalsChanged = ReflectorDecimalsChanged"
| "reflector_error Divergent = OracleDivergence"

fun redstone_error :: "OracleCheckError \<Rightarrow> market_error" where
  "redstone_error Unavailable = RedstonePriceUnavailable"
| "redstone_error Stale = RedstonePriceStale"
| "redstone_error DecimalsInvalid = RedstoneDecimalsInvalid"
| "redstone_error DecimalsChanged = RedstoneDecimalsChanged"
| "redstone_error Divergent = OracleDivergence"

text \<open>The part of \<open>settle\<close> that reads the verified update and converts its price.\<close>

definition market_settle_price ::
    "'tok Env \<Rightarrow> Market \<Rightarrow> byte list \<Rightarrow> (market_error, int) res" where
  "market_settle_price env m payload =
     bindr (map_err (\<lambda>_. InvalidPayload) (lazer_verify_update env (lazer_contract m) payload))
       (\<lambda>verified.
     bindr (ok_or FeedNotFound (find (\<lambda>f. lf_feed_id f = feed_id m) (lu_feeds verified))) (\<lambda>feed.
     bindr (ok_or InvalidPayload (lf_price feed)) (\<lambda>price.
     if sint price \<le> 0 then Inl (Err InvalidPayload) else
     bindr (ok_or InvalidPayload (lf_exponent feed)) (\<lambda>exponent.
     let feed_ts_micros = (case lf_feed_update_timestamp feed of
           None \<Rightarrow> lu_timestamp verified | Some ts \<Rightarrow> ts);
         feed_ts_secs = feed_ts_micros div 1000000 in
     bindr (word_add feed_ts_secs PRICE_FRESHNESS_WINDOW_SECS) (\<lambda>latest.
     if latest < expiry m then Inl (Err StalePrice) else
     bindr (word_add (expiry m) PRICE_FRESHNESS_WINDOW_SECS) (\<lambda>bound.
     if bound < feed_ts_secs then Inl (Err FuturePrice) else
     to_cents price exponent))))))"

text \<open>The corroboration by every configured oracle leg.\<close>

definition market_corroborate ::
    "'tok Env \<Rightarrow> Market \<Rightarrow> u64 \<Rightarrow> int \<Rightarrow> 'a market_store_scheme \<Rightarrow> (market_error, unit) res" where
  "market_corroborate env m now final_cents st =
     bindr (map_err reflector_error
       (verify_oracle_corroboration env (reflector m) (reflector_decimals_at_init m) now
         final_cents)) (\<lambda>_.
     case load_redstone_oracle st of
       None \<Rightarrow> Inr ()
     | Some redstone \<Rightarrow> map_err redstone_error
         (verify_oracle_corroboration env (config redstone) (decimals_at_init redstone) now
           final_cents))"

definition market_settle ::
    "'tok Env \<Rightarrow> byte list \<Rightarrow> 'tok market_state \<Rightarrow>
      (market_error, unit \<times> 'tok market_state) res" where
  "market_settle env payload st =
     bindr (load_market st) (\<lambda>m.
     if status m \<noteq> Open then Inl (Err AlreadyFinalized) else
     let now = ledger_timestamp env in
     if now < expiry m then Inl (Err ExpiryNotReached) else
     bindr (market_settle_price env m payload) (\<lambda>final_cents.
     bindr (market_corroborate env m now final_cents st) (\<lambda>_.
     let m = m\<lparr>final_price := final_cents,
           status := if strike_price m \<le> final_cents then ResolvedYes else ResolvedNo\<rparr> in
     bindr (market_credit Yes (treasury m) (pool_yes m) st) (\<lambda>st.
     bindr (market_credit No (treasury m) (pool_no m) st) (\<lambda>st.
     let m = m\<lparr>pool_yes := 0, pool_no := 0\<rparr>;
         st = save_market m st
     in Inr ((), market_publish (SettleEvent (status m) final_cents) st))))))"

definition market_cancel ::
    "'tok Env \<Rightarrow> 'tok market_state \<Rightarrow> (market_error, unit \<times> 'tok market_state) res" where
  "market_cancel env st =
     bindr (load_market st) (\<lambda>m.
     if status m \<noteq> Open then Inl (Err AlreadyFinalized) else
     let now = ledger_timestamp env in
     bindr (word_add (expiry m) (grace_period m)) (\<lambda>deadline.
     if now < deadline then Inl (Err GracePeriodNotElapsed) else
     bindr (market_credit Yes (treasury m) (pool_yes m) st) (\<lambda>st.
     bindr (market_credit No (treasury m) (pool_no m) st) (\<lambda>st.
     let m = m\<lparr>pool_yes := 0, pool_no := 0, status := Cancelled\<rparr>;
         st = save_market m st
     in Inr ((), market_publish CancelEvent st)))))"

text \<open>\<open>redeem\<close>: every branch clears both balances of the user before the payout is known.\<close>

definition market_clear_balances ::
    "Address \<Rightarrow> 'a market_store_scheme \<Rightarrow> 'a market_store_scheme" where
  "market_clear_balances user st =
     market_set_balance No user 0 (market_set_balance Yes user 0 st)"

definition market_redeem ::
    "'tok Env \<Rightarrow> Address \<Rightarrow> 'tok market_state \<Rightarrow>
      (market_error, int \<times> 'tok market_state) res" where
  "market_redeem env user st =
     bindr (require_auth env user) (\<lambda>_.
     bindr (load_market st) (\<lambda>m.
     bindr (case status m of
         Open \<Rightarrow> Inl (Err NotFinalized)
       | ResolvedYes \<Rightarrow>
           (let b = market_balance_of st Yes user in Inr (b, market_clear_balances user st))
       | ResolvedNo \<Rightarrow>
           (let b = market_balance_of st No user in Inr (b, market_clear_balances user st))
       | Cancelled \<Rightarrow>
           (let by = market_balance_of st Yes user;
                bn = market_balance_of st No user;
                st = market_clear_balances user st in
            bindr (i128_add by bn) (\<lambda>both.
            bindr (i128_div both 2) (\<lambda>half. Inr (half, st))))) (\<lambda>(payout, st).
     if payout \<le> 0 then Inl (Err NothingToRedeem) else
     bindr (market_pay env (collateral m) (current_contract_address env) user payout st) (\<lambda>st.
     bindr (i128_sub (total_supply m) payout) (\<lambda>ts.
     let st = save_market (m\<lparr>total_supply := ts\<rparr>) st
     in Inr (payout, market_publish (RedeemEvent user payout) st))))))"

section \<open>Queries\<close>

definition market_get_market :: "'a market_store_scheme \<Rightarrow> (market_error, Market) res" where
  "market_get_market st = load_market st"

definition market_get_redstone_oracle :: "'a market_store_scheme \<Rightarrow> RedstoneOracle option" where
  "market_get_redstone_oracle st = load_redstone_oracle st"

definition market_get_position :: "Address \<Rightarrow> 'a market_store_scheme \<Rightarrow> int \<times> int" where
  "market_get_position addr st = (market_balance_of st Yes addr, market_balance_of st No addr)"

definition market_get_price :: "'a market_store_scheme \<Rightarrow> (market_error, u32 \<times> u32) res" where
  "market_get_price st =
     bindr (load_market st) (\<lambda>m.
     if status m \<noteq> Open then Inl (Err MarketNotOpen) else
     bindr (i128_add (pool_yes m) (pool_no m)) (\<lambda>total.
     bindr (i128_mul (pool_no m) 10000) (\<lambda>x.
     bindr (i128_div x total) (\<lambda>q.
     let yes_bps = word_of_int q :: u32 in
     if 10000 < yes_bps then Inl Trap else Inr (yes_bps, 10000 - yes_bps)))))"

definition market_get_fee :: "'a market_store_scheme \<Rightarrow> (market_error, u32) res" where
  "market_get_fee st = bindr (load_market st) market_effective_fee_bps"

section \<open>Calls\<close>

text \<open>The entry points that change state, as the messages a transaction can send.\<close>

datatype market_call =
    CallInitialize Address Address int u64 u64 Address u32 u32 u32 Address int
      OracleFeedConfig "OracleFeedConfig option"
  | CallSplit Address int
  | CallMerge Address int
  | CallBuy Address Prediction int int
  | CallSell Address Prediction int int
  | CallTransfer Address Address Prediction int
  | CallSettle "byte list"
  | CallCancel
  | CallRedeem Address

fun market_exec ::
    "'tok Env \<Rightarrow> market_call \<Rightarrow> 'tok market_state \<Rightarrow> (market_error, 'tok market_state) res" where
  "market_exec env (CallInitialize adm coll strike expiry_ts grace lazer feed base_fee min_fee
       treas liquidity refl_cfg redstone) st =
     discard (market_initialize env adm coll strike expiry_ts grace lazer feed base_fee min_fee
       treas liquidity refl_cfg redstone st)"
| "market_exec env (CallSplit user amount) st = discard (market_split env user amount st)"
| "market_exec env (CallMerge user amount) st = discard (market_merge env user amount st)"
| "market_exec env (CallBuy user p amount min_out) st =
     discard (market_buy env user p amount min_out st)"
| "market_exec env (CallSell user p shares min_out) st =
     discard (market_sell env user p shares min_out st)"
| "market_exec env (CallTransfer from to p amount) st =
     discard (market_transfer env from to p amount st)"
| "market_exec env (CallSettle payload) st = discard (market_settle env payload st)"
| "market_exec env CallCancel st = discard (market_cancel env st)"
| "market_exec env (CallRedeem user) st = discard (market_redeem env user st)"

section \<open>The share ledger of the storage\<close>

definition market_frame ::
    "'tok market_state \<Rightarrow> Market option \<times> RedstoneOracle option \<times> market_event list \<times> 'tok" where
  "market_frame st = (inst_market st, inst_redstone st, events st, tokens st)"

interpretation mkt: share_ledger market_balance_of market_set_balance market_credit market_debit
  market_frame
proof unfold_locales
  fix p q :: Prediction and a b :: Address and v :: int and st st' :: "'a market_state"
  show "market_balance_of (market_set_balance p a v st) q b
      = (if p = q \<and> a = b then v else market_balance_of st q b)"
    by (simp add: market_balance_of_def market_set_balance_def)
  show "market_credit p a v st = Inr st' \<longleftrightarrow> in_i128 (market_balance_of st p a + v)
      \<and> st' = market_set_balance p a (market_balance_of st p a + v) st"
    by (auto simp: market_credit_def res_simps)
  show "market_debit p a v st = Inr st' \<longleftrightarrow> v \<le> market_balance_of st p a
      \<and> in_i128 (market_balance_of st p a - v)
      \<and> st' = market_set_balance p a (market_balance_of st p a - v) st"
    by (auto simp: market_debit_def Let_def res_simps)
  show "market_frame (market_set_balance p a v st) = market_frame st"
    by (simp add: market_frame_def market_set_balance_def)
qed

text \<open>What each helper does to each part of the state.\<close>

lemma market_credit_effect:
  assumes "market_credit p a v (st :: 'tok market_state) = Inr st'"
  shows "market_balance_of st' = add_shares (market_balance_of st) p a v"
    and "inst_market st' = inst_market st" and "inst_redstone st' = inst_redstone st"
    and "events st' = events st" and "tokens st' = tokens st"
  using mkt.credit_shares [OF assms] by (simp_all add: market_frame_def)

lemma market_debit_effect:
  assumes "market_debit p a v (st :: 'tok market_state) = Inr st'"
  shows "v \<le> market_balance_of st p a"
    and "market_balance_of st' = add_shares (market_balance_of st) p a (- v)"
    and "inst_market st' = inst_market st" and "inst_redstone st' = inst_redstone st"
    and "events st' = events st" and "tokens st' = tokens st"
  using mkt.debit_shares [OF assms] by (simp_all add: market_frame_def)

lemma market_clear_effect:
  fixes st :: "'tok market_state"
  shows "market_balance_of (market_clear_balances a st) = drop_shares (market_balance_of st) a"
    and "inst_market (market_clear_balances a st) = inst_market st"
    and "inst_redstone (market_clear_balances a st) = inst_redstone st"
    and "events (market_clear_balances a st) = events st"
    and "tokens (market_clear_balances a st) = tokens st"
  using mkt.clear_shares [of a st] by (simp_all add: market_clear_balances_def market_frame_def)

lemma market_save_effect [simp]:
  "market_balance_of (save_market m st) = market_balance_of st"
  "inst_market (save_market m st) = Some m"
  "inst_redstone (save_market m st) = inst_redstone st"
  "events (save_market m st) = events st"
  "tokens (save_market m st') = tokens st'"
  by (simp_all add: save_market_def market_touch_def market_balance_of_def fun_eq_iff)

lemma market_publish_effect [simp]:
  "market_balance_of (market_publish e st) = market_balance_of st"
  "inst_market (market_publish e st) = inst_market st"
  "inst_redstone (market_publish e st) = inst_redstone st"
  "events (market_publish e st) = events st @ [e]"
  "tokens (market_publish e st') = tokens st'"
  by (simp_all add: market_publish_def market_balance_of_def fun_eq_iff)

lemma market_pay_Inr [res_simps]:
  "market_pay env c from to n st = Inr st' \<longleftrightarrow>
    (\<exists>t. token_transfer env c from to n (tokens st) = Some t \<and> st' = st\<lparr>tokens := t\<rparr>)"
  by (auto simp: market_pay_def res_simps)

lemma market_tokens_effect [simp]:
  "market_balance_of (st\<lparr>tokens := t\<rparr>) = market_balance_of st"
  by (simp add: market_balance_of_def fun_eq_iff)

lemma load_market_Inr [res_simps]: "load_market st = Inr m \<longleftrightarrow> inst_market st = Some m"
  by (simp add: load_market_def res_simps)

end
