(* ===== verification/Market_Book.thy ===== *)
theory Market_Book
  imports Market
begin

text \<open>
  The market contract implements the book of \<open>Book\<close>: what each successful entry point does
  to the market record, the balances and the collateral, the refinement to the book's moves,
  and the invariant of every reachable state.
\<close>

section \<open>The effect of each entry point\<close>

lemma market_split_effect:
  assumes "market_split env user n st = Inr (r, st')"
  obtains m t where
    "authorized env user" "inst_market st = Some m" "status m = Open" "0 < n"
    "token_transfer env (collateral m) user (current_contract_address env) n (tokens st) = Some t"
    "tokens st' = t" "inst_market st' = Some (m\<lparr>total_supply := total_supply m + n\<rparr>)"
    "market_balance_of st' = add_shares (add_shares (market_balance_of st) Yes user n) No user n"
    "inst_redstone st' = inst_redstone st" "events st' = events st @ [SplitEvent user n]"
proof -
  from assms obtain m t s2 s3 where
    "authorized env user" "inst_market st = Some m" "status m = Open" "0 < n"
    "token_transfer env (collateral m) user (current_contract_address env) n (tokens st) = Some t"
    "market_credit Yes user n (st\<lparr>tokens := t\<rparr>) = Inr s2" "market_credit No user n s2 = Inr s3"
    "st' = market_publish (SplitEvent user n)
       (save_market (m\<lparr>total_supply := total_supply m + n\<rparr>) s3)"
    by (auto simp: market_split_def res_simps Let_def split: if_splits)
  then show thesis
    by (intro that [of m t]) (simp_all add: market_credit_effect)
qed

lemma market_merge_effect:
  assumes "market_merge env user n st = Inr (r, st')"
  obtains m t where
    "authorized env user" "inst_market st = Some m" "status m = Open" "0 < n"
    "n \<le> market_balance_of st Yes user" "n \<le> market_balance_of st No user"
    "token_transfer env (collateral m) (current_contract_address env) user n (tokens st) = Some t"
    "tokens st' = t" "inst_market st' = Some (m\<lparr>total_supply := total_supply m - n\<rparr>)"
    "market_balance_of st' =
      add_shares (add_shares (market_balance_of st) Yes user (- n)) No user (- n)"
    "inst_redstone st' = inst_redstone st" "events st' = events st @ [MergeEvent user n]"
proof -
  from assms obtain m t s1 s2 where
    *: "authorized env user" "inst_market st = Some m" "status m = Open" "0 < n"
    "market_debit Yes user n st = Inr s1" "market_debit No user n s1 = Inr s2"
    "token_transfer env (collateral m) (current_contract_address env) user n (tokens s2) = Some t"
    "st' = market_publish (MergeEvent user n)
       (save_market (m\<lparr>total_supply := total_supply m - n\<rparr>) (s2\<lparr>tokens := t\<rparr>))"
    by (auto simp: market_merge_def res_simps Let_def split: if_splits)
  note d1 = market_debit_effect [OF *(5)] and d2 = market_debit_effect [OF *(6)]
  from * d1 d2 show thesis
    by (intro that [of m t]) (simp_all add: add_shares_apply)
qed

lemma market_reserves_other:
  "market_reserves m p = (x, y) \<longleftrightarrow> market_reserves m (other p) = (y, x)"
  by (cases p) auto

lemma market_buy_effect:
  assumes "market_buy env user p n min_out st = Inr (r, st')"
  obtains m t rin rout fee ein out where
    "authorized env user" "inst_market st = Some m" "status m = Open"
    "ledger_timestamp env < expiry m" "0 < n"
    "market_reserves m (other p) = (rin, rout)"
    "market_effective_fee_bps m = Inr fee"
    "apply_fee n fee = (Inr ein :: (market_error, int) res)"
    "cpmm_out rin rout ein = (Inr out :: (market_error, int) res)"
    "2 * out < rout" "min_out \<le> out" "r = n + out"
    "token_transfer env (collateral m) user (current_contract_address env) n (tokens st) = Some t"
    "tokens st' = t"
    "inst_market st' = Some (market_set_reserve p (rout - out)
       (market_set_reserve (other p) (rin + n) (m\<lparr>total_supply := total_supply m + n\<rparr>)))"
    "market_balance_of st' = add_shares (market_balance_of st) p user (n + out)"
    "inst_redstone st' = inst_redstone st"
    "events st' = events st @ [BuyEvent user p n out]"
proof -
  obtain m where m: "inst_market st = Some m"
    using assms by (auto simp: market_buy_def res_simps)
  obtain rin rout where rs: "market_reserves m (other p) = (rin, rout)"
    by (cases "market_reserves m (other p)")
  from assms m obtain t fee ein out s2 s3 s4 s5 where
    *: "authorized env user" "status m = Open"
    "ledger_timestamp env < expiry m" "0 < n"
    "market_effective_fee_bps m = Inr fee"
    "apply_fee n fee = (Inr ein :: (market_error, int) res)"
    "cpmm_out rin rout ein = (Inr out :: (market_error, int) res)"
    "out * 2 < rout" "min_out \<le> out" "r = n + out"
    "token_transfer env (collateral m) user (current_contract_address env) n (tokens st) = Some t"
    "market_credit Yes user n (st\<lparr>tokens := t\<rparr>) = Inr s2"
    "market_credit No user n s2 = Inr s3"
    "market_debit (other p) user n s3 = Inr s4"
    "market_credit p user out s4 = Inr s5"
    "st' = market_publish (BuyEvent user p n out) (save_market
       (market_set_reserve p (rout - out)
         (market_set_reserve (other p) (rin + n) (m\<lparr>total_supply := total_supply m + n\<rparr>))) s5)"
    by (auto simp: market_buy_def res_simps Let_def rs not_le split: if_splits)
  note e = market_credit_effect [OF *(12)] market_credit_effect [OF *(13)]
    market_debit_effect [OF *(14)] market_credit_effect [OF *(15)]
  from * m rs e show thesis
    by (intro that [of m rin rout fee ein out t]) (simp_all add: add_shares_swap)
qed

lemma market_sell_effect:
  assumes "market_sell env user p n min_out st = Inr (out, st')"
  obtains m t rin rout fee ein where
    "authorized env user" "inst_market st = Some m" "status m = Open"
    "ledger_timestamp env < expiry m" "0 < n" "n \<le> market_balance_of st p user"
    "market_reserves m p = (rin, rout)"
    "market_effective_fee_bps m = Inr fee"
    "apply_fee n fee = (Inr ein :: (market_error, int) res)"
    "cpmm_sell_out rin rout ein = (Inr out :: (market_error, int) res)"
    "2 * out < rout" "0 < out" "min_out \<le> out"
    "token_transfer env (collateral m) (current_contract_address env) user out (tokens st) = Some t"
    "tokens st' = t"
    "inst_market st' = Some ((market_set_reserve (other p) (rout - out)
       (market_set_reserve p (rin + n - out) m))\<lparr>total_supply := total_supply m - out\<rparr>)"
    "market_balance_of st' = add_shares (market_balance_of st) p user (- n)"
    "inst_redstone st' = inst_redstone st"
    "events st' = events st @ [SellEvent user p n out]"
proof -
  obtain m where m: "inst_market st = Some m"
    using assms by (auto simp: market_sell_def res_simps)
  obtain rin rout where rs: "market_reserves m p = (rin, rout)"
    by (cases "market_reserves m p")
  have frame: "total_supply (market_set_reserve q v k) = total_supply k"
      "collateral (market_set_reserve q v k) = collateral k" for q v k
    by (cases q; simp)+
  from assms m obtain t fee ein s1 where
    *: "authorized env user" "status m = Open" "ledger_timestamp env < expiry m" "0 < n"
    "n \<le> market_balance_of st p user"
    "market_effective_fee_bps m = Inr fee"
    "apply_fee n fee = (Inr ein :: (market_error, int) res)"
    "cpmm_sell_out rin rout ein = (Inr out :: (market_error, int) res)"
    "out * 2 < rout" "0 < out" "min_out \<le> out"
    "market_debit p user n st = Inr s1"
    "token_transfer env (collateral m) (current_contract_address env) user out (tokens s1) = Some t"
    "st' = market_publish (SellEvent user p n out) (save_market
       ((market_set_reserve (other p) (rout - out) (market_set_reserve p (rin + n - out) m))
         \<lparr>total_supply := total_supply m - out\<rparr>) (s1\<lparr>tokens := t\<rparr>))"
    by (auto simp: market_sell_def res_simps Let_def rs frame not_le not_less split: if_splits)
  note e = market_debit_effect [OF *(12)]
  from * m rs e show thesis
    by (intro that [of m rin rout fee ein t]) simp_all
qed

lemma market_transfer_effect:
  assumes "market_transfer env from to p n st = Inr (r, st')"
  obtains m where
    "authorized env from" "inst_market st = Some m" "0 < n"
    "n \<le> market_balance_of st p from" "inst_market st' = Some m" "tokens st' = tokens st"
    "market_balance_of st' = add_shares (add_shares (market_balance_of st) p from (- n)) p to n"
    "inst_redstone st' = inst_redstone st" "events st' = events st @ [TransferEvent from to p n]"
proof -
  from assms obtain m s1 s2 where
    *: "authorized env from" "inst_market st = Some m" "0 < n"
    "market_debit p from n st = Inr s1" "market_credit p to n s1 = Inr s2"
    "st' = market_publish (TransferEvent from to p n) s2"
    by (auto simp: market_transfer_def res_simps split: if_splits)
  note e = market_debit_effect [OF *(4)] market_credit_effect [OF *(5)]
  from * e show thesis by (intro that [of m]) simp_all
qed

lemma market_settle_effect:
  assumes "market_settle env payload st = Inr (r, st')"
  obtains m cents where
    "inst_market st = Some m" "status m = Open" "expiry m \<le> ledger_timestamp env"
    "market_settle_price env m payload = Inr cents"
    "market_corroborate env m (ledger_timestamp env) cents st = Inr ()"
    "inst_market st' = Some (m\<lparr>final_price := cents,
       status := if strike_price m \<le> cents then ResolvedYes else ResolvedNo,
       pool_yes := 0, pool_no := 0\<rparr>)"
    "market_balance_of st' =
      add_shares (add_shares (market_balance_of st) Yes (treasury m) (pool_yes m))
        No (treasury m) (pool_no m)"
    "tokens st' = tokens st" "inst_redstone st' = inst_redstone st"
    "events st' = events st @
      [SettleEvent (if strike_price m \<le> cents then ResolvedYes else ResolvedNo) cents]"
proof -
  from assms obtain m cents s1 s2 where
    *: "inst_market st = Some m" "status m = Open" "expiry m \<le> ledger_timestamp env"
    "market_settle_price env m payload = Inr cents"
    "market_corroborate env m (ledger_timestamp env) cents st = Inr ()"
    "market_credit Yes (treasury m) (pool_yes m) st = Inr s1"
    "market_credit No (treasury m) (pool_no m) s1 = Inr s2"
    "st' = market_publish
       (SettleEvent (if strike_price m \<le> cents then ResolvedYes else ResolvedNo) cents)
       (save_market (m\<lparr>final_price := cents,
         status := if strike_price m \<le> cents then ResolvedYes else ResolvedNo,
         pool_yes := 0, pool_no := 0\<rparr>) s2)"
    unfolding market_settle_def by (simp add: res_simps Let_def not_less) auto
  note e = market_credit_effect [OF *(6)] market_credit_effect [OF *(7)]
  from * e show thesis by (intro that [of m cents]) simp_all
qed

lemma market_cancel_effect:
  assumes "market_cancel env st = Inr (r, st')"
  obtains m where
    "inst_market st = Some m" "status m = Open"
    "unat (expiry m) + unat (grace_period m) \<le> unat (ledger_timestamp env)"
    "inst_market st' = Some (m\<lparr>pool_yes := 0, pool_no := 0, status := Cancelled\<rparr>)"
    "market_balance_of st' =
      add_shares (add_shares (market_balance_of st) Yes (treasury m) (pool_yes m))
        No (treasury m) (pool_no m)"
    "tokens st' = tokens st" "inst_redstone st' = inst_redstone st"
    "events st' = events st @ [CancelEvent]"
proof -
  from assms obtain m s1 s2 where
    *: "inst_market st = Some m" "status m = Open"
    "unat (expiry m) + unat (grace_period m) < 2 ^ 64"
    "\<not> ledger_timestamp env < expiry m + grace_period m"
    "market_credit Yes (treasury m) (pool_yes m) st = Inr s1"
    "market_credit No (treasury m) (pool_no m) s1 = Inr s2"
    "st' = market_publish CancelEvent
       (save_market (m\<lparr>pool_yes := 0, pool_no := 0, status := Cancelled\<rparr>) s2)"
    by (auto simp: market_cancel_def res_simps Let_def split: if_splits)
  have "unat (expiry m) + unat (grace_period m) \<le> unat (ledger_timestamp env)"
    using *(3,4) unat_word_add [of "expiry m" "grace_period m"]
    by (simp add: word_less_nat_alt not_less)
  note e = this market_credit_effect [OF *(5)] market_credit_effect [OF *(6)]
  from * e show thesis by (intro that [of m]) simp_all
qed

text \<open>What a holder's position is worth to the market's \<open>redeem\<close>.\<close>

definition market_payout :: "Market \<Rightarrow> (Prediction \<Rightarrow> Address \<Rightarrow> int) \<Rightarrow> Address \<Rightarrow> int" where
  "market_payout m h user = (case status m of
      Open \<Rightarrow> 0
    | ResolvedYes \<Rightarrow> h Yes user
    | ResolvedNo \<Rightarrow> h No user
    | Cancelled \<Rightarrow> (h Yes user + h No user) sdiv 2)"

lemma market_redeem_effect:
  assumes "market_redeem env user st = Inr (pay, st')"
  obtains m t where
    "authorized env user" "inst_market st = Some m" "status m \<noteq> Open"
    "pay = market_payout m (market_balance_of st) user" "0 < pay"
    "token_transfer env (collateral m) (current_contract_address env) user pay (tokens st) = Some t"
    "tokens st' = t" "inst_market st' = Some (m\<lparr>total_supply := total_supply m - pay\<rparr>)"
    "market_balance_of st' = drop_shares (market_balance_of st) user"
    "inst_redstone st' = inst_redstone st" "events st' = events st @ [RedeemEvent user pay]"
proof -
  let ?c = "market_clear_balances user st"
  from assms obtain m t where
    *: "authorized env user" "inst_market st = Some m" "status m \<noteq> Open"
    "pay = market_payout m (market_balance_of st) user" "0 < pay"
    "token_transfer env (collateral m) (current_contract_address env) user pay (tokens ?c) = Some t"
    "st' = market_publish (RedeemEvent user pay)
       (save_market (m\<lparr>total_supply := total_supply m - pay\<rparr>) (?c\<lparr>tokens := t\<rparr>))"
  proof -
    obtain m where m: "inst_market st = Some m"
      using assms by (auto simp: market_redeem_def res_simps)
    show thesis
      using assms m that [of m] unfolding market_redeem_def
      by (cases "status m") (auto simp: res_simps Let_def market_payout_def not_le)
  qed
  then show thesis by (intro that [of m t]) (simp_all add: market_clear_effect)
qed

lemma market_initialize_effect:
  assumes "market_initialize env adm coll strike expiry_ts grace lazer feed base_fee min_fee
      treas liq refl_cfg redstone st = Inr (r, st')"
  obtains m t where
    "authorized env adm" "inst_market st = None" "0 < strike" "ledger_timestamp env < expiry_ts"
    "grace \<noteq> 0" "feed \<noteq> 0" "base_fee \<le> MAX_FEE_BPS" "min_fee \<le> base_fee" "0 < liq"
    "token_transfer env coll adm (current_contract_address env) liq (tokens st) = Some t"
    "tokens st' = t" "inst_market st' = Some m" "status m = Open" "collateral m = coll"
    "strike_price m = strike" "expiry m = expiry_ts" "grace_period m = grace" "feed_id m = feed"
    "base_fee_bps m = base_fee" "min_fee_bps m = min_fee" "treasury m = treas"
    "pool_yes m = liq" "pool_no m = liq" "total_supply m = liq" "initial_liquidity m = liq"
    "reflector m = refl_cfg"
    "sep40_decimals env (contract refl_cfg) = Some (reflector_decimals_at_init m)"
    "2 \<le> reflector_decimals_at_init m" "reflector_decimals_at_init m \<le> 30"
    "market_balance_of st' = market_balance_of st"
    "case redstone of None \<Rightarrow> inst_redstone st' = inst_redstone st
     | Some cfg \<Rightarrow> \<exists>d. inst_redstone st' = Some \<lparr>config = cfg, decimals_at_init = d\<rparr>
         \<and> sep40_decimals env (contract cfg) = Some d \<and> 2 \<le> d \<and> d \<le> 30"
proof -
  have redstone_bal [simp]:
    "market_balance_of (s\<lparr>inst_redstone := x\<rparr>) = market_balance_of s"
    for s :: "'tok market_state" and x
    by (simp add: market_balance_of_def fun_eq_iff)
  show thesis
    using assms unfolding market_initialize_def
    by (cases redstone) (auto simp: res_simps Let_def not_le not_less intro!: that split: if_splits)
qed

section \<open>Refinement of the book\<close>

fun market_phase :: "MarketStatus \<Rightarrow> phase" where
  "market_phase Open = Trading"
| "market_phase ResolvedYes = Won Yes"
| "market_phase ResolvedNo = Won No"
| "market_phase Cancelled = Voided"

lemma market_phase_Trading [simp]: "market_phase s = Trading \<longleftrightarrow> s = Open"
  by (cases s) simp_all

definition book_view :: "Market \<Rightarrow> (Prediction \<Rightarrow> Address \<Rightarrow> int) \<Rightarrow> book" where
  "book_view m h = \<lparr>pool = (\<lambda>p. fst (market_reserves m p)), issued = total_supply m,
     holdings = h, phase = market_phase (status m)\<rparr>"

definition market_book :: "'a market_store_scheme \<Rightarrow> book option" where
  "market_book st = map_option (\<lambda>m. book_view m (market_balance_of st)) (inst_market st)"

lemma market_book_Some:
  "market_book st = Some b \<longleftrightarrow> (\<exists>m. inst_market st = Some m \<and> b = book_view m (market_balance_of st))"
  by (auto simp: market_book_def)

lemma pool_view: "(\<lambda>p. fst (market_reserves m p)) = (\<lambda>_. 0)(Yes := pool_yes m, No := pool_no m)"
proof
  fix p show "fst (market_reserves m p) = ((\<lambda>_. 0)(Yes := pool_yes m, No := pool_no m)) p"
    by (cases p) simp_all
qed

lemmas view_simps = book_view_def pool_view fun_eq_iff

lemma split_refines:
  assumes "market_split env user n st = Inr (r, st')" "market_book st = Some b"
  shows "\<exists>c. market_book st' = Some c \<and> book_step b c \<and> issued c = issued b + n"
proof -
  from assms(1) obtain m where m: "inst_market st = Some m" "status m = Open" "0 < n"
    "inst_market st' = Some (m\<lparr>total_supply := total_supply m + n\<rparr>)"
    "market_balance_of st' = add_shares (add_shares (market_balance_of st) Yes user n) No user n"
    by (rule market_split_effect)
  have b: "b = book_view m (market_balance_of st)" using assms(2) m by (simp add: market_book_Some)
  have "book_step b (b\<lparr>holdings := add_shares (add_shares (holdings b) Yes user n) No user n,
      issued := issued b + n\<rparr>)"
    using m by (intro book_step.mint) (simp_all add: b book_view_def)
  moreover have "market_book st' = Some (b\<lparr>holdings :=
      add_shares (add_shares (holdings b) Yes user n) No user n, issued := issued b + n\<rparr>)"
    using m by (simp add: market_book_def b book_view_def pool_view)
  ultimately show ?thesis by fastforce
qed

lemma merge_refines:
  assumes "market_merge env user n st = Inr (r, st')" "market_book st = Some b"
  shows "\<exists>c. market_book st' = Some c \<and> book_step b c \<and> issued c = issued b - n"
proof -
  from assms(1) obtain m where m: "inst_market st = Some m" "status m = Open" "0 < n"
    "n \<le> market_balance_of st Yes user" "n \<le> market_balance_of st No user"
    "inst_market st' = Some (m\<lparr>total_supply := total_supply m - n\<rparr>)"
    "market_balance_of st' =
      add_shares (add_shares (market_balance_of st) Yes user (- n)) No user (- n)"
    by (rule market_merge_effect)
  have b: "b = book_view m (market_balance_of st)" using assms(2) m by (simp add: market_book_Some)
  have "book_step b (b\<lparr>holdings := add_shares (add_shares (holdings b) Yes user (- n)) No user (- n),
      issued := issued b - n\<rparr>)"
    using m by (intro book_step.burn) (simp_all add: b book_view_def)
  moreover have "market_book st' = Some (b\<lparr>holdings :=
      add_shares (add_shares (holdings b) Yes user (- n)) No user (- n), issued := issued b - n\<rparr>)"
    using m by (simp add: market_book_def b book_view_def pool_view)
  ultimately show ?thesis by fastforce
qed

lemma book_view_set_reserve:
  "pool (book_view (market_set_reserve q v m) h) = (pool (book_view m h))(q := v)"
  "issued (book_view (market_set_reserve q v m) h) = issued (book_view m h)"
  "phase (book_view (market_set_reserve q v m) h) = phase (book_view m h)"
  "holdings (book_view m' h') = h'"
  by (cases q; simp add: view_simps)+

lemma book_view_supply:
  "pool (book_view (m\<lparr>total_supply := n\<rparr>) h) = pool (book_view m h)"
  "issued (book_view (m\<lparr>total_supply := n\<rparr>) h) = n"
  "phase (book_view (m\<lparr>total_supply := n\<rparr>) h) = phase (book_view m h)"
  by (simp_all add: view_simps)

lemma reserves_view:
  "market_reserves m p = (x, y) \<Longrightarrow> pool (book_view m h) p = x \<and> pool (book_view m h) (other p) = y"
  by (cases p) (auto simp: book_view_def)

lemma buy_refines:
  assumes "market_buy env user p n min_out st = Inr (r, st')" "market_book st = Some b"
    and "0 \<le> min_out"
  shows "\<exists>c. market_book st' = Some c \<and> book_step b c \<and> issued c = issued b + n"
proof -
  from assms(1) obtain m t rin rout fee ein out where
    m: "inst_market st = Some m" "status m = Open" "0 < n"
      "market_reserves m (other p) = (rin, rout)" "2 * out < rout" "min_out \<le> out"
    and st': "inst_market st' = Some (market_set_reserve p (rout - out)
       (market_set_reserve (other p) (rin + n) (m\<lparr>total_supply := total_supply m + n\<rparr>)))"
      "market_balance_of st' = add_shares (market_balance_of st) p user (n + out)"
    by (rule market_buy_effect) blast
  have b: "b = book_view m (market_balance_of st)" using assms(2) m by (simp add: market_book_Some)
  have pools: "pool b (other p) = rin" "pool b p = rout"
    using reserves_view [OF m(4)] by (simp_all add: b)
  let ?c = "b\<lparr>holdings := add_shares (holdings b) p user (n + out),
    pool := (pool b)(other p := pool b (other p) + n, p := pool b p - out),
    issued := issued b + n\<rparr>"
  have "book_step b ?c"
    using m assms(3) pools by (intro book_step.swap) (simp_all add: b book_view_def)
  moreover have "market_book st' = Some ?c"
    unfolding market_book_Some using st' pools
    by (intro exI conjI book_eqI)
      (auto simp: b book_view_set_reserve book_view_supply, simp_all add: book_view_def)
  ultimately show ?thesis by fastforce
qed

lemma effective_in_le:
  assumes "apply_fee n fee = (Inr ein :: (market_error, int) res)" "0 < n"
  shows "ein \<le> n"
  using apply_fee_le [OF assms(1)] assms(2) by simp

lemma sell_refines:
  assumes "market_sell env user p n min_out st = Inr (out, st')" "market_book st = Some b"
    and "book_ok b"
  shows "\<exists>c. market_book st' = Some c \<and> book_step b c \<and> issued c = issued b - out"
proof -
  from assms(1) obtain m t rin rout fee ein where
    m: "inst_market st = Some m" "status m = Open" "0 < n" "n \<le> market_balance_of st p user"
      "market_reserves m p = (rin, rout)"
    and out: "apply_fee n fee = (Inr ein :: (market_error, int) res)"
      "cpmm_sell_out rin rout ein = (Inr out :: (market_error, int) res)" "2 * out < rout" "0 < out"
    and st': "inst_market st' = Some ((market_set_reserve (other p) (rout - out)
       (market_set_reserve p (rin + n - out) m))\<lparr>total_supply := total_supply m - out\<rparr>)"
      "market_balance_of st' = add_shares (market_balance_of st) p user (- n)"
    by (rule market_sell_effect) blast
  have b: "b = book_view m (market_balance_of st)" using assms(2) m by (simp add: market_book_Some)
  have pools: "pool b p = rin" "pool b (other p) = rout"
    using reserves_view [OF m(5)] by (simp_all add: b)
  have "phase b = Trading" using m by (simp add: b book_view_def)
  then have pos: "0 < rin" "0 < rout"
    using assms(3) pools by (auto simp: book_ok_def covered_def)
  have "out < rin + n"
    using cpmm_sell_out_below_input [OF out(2) pos out(4)] effective_in_le [OF out(1) m(3)] by simp
  let ?c = "b\<lparr>holdings := add_shares (holdings b) p user (- n),
    pool := (pool b)(p := pool b p + n - out, other p := pool b (other p) - out),
    issued := issued b - out\<rparr>"
  have "book_step b ?c"
    using m out pools \<open>phase b = Trading\<close> \<open>out < rin + n\<close>
    by (intro book_step.unwind) (simp_all add: b book_view_def)
  moreover have "market_book st' = Some ?c"
    unfolding market_book_Some using st' pools
    by (intro exI conjI book_eqI)
      (auto simp: b book_view_set_reserve book_view_supply, simp_all add: book_view_def)
  ultimately show ?thesis by fastforce
qed

lemma transfer_refines:
  assumes "market_transfer env from to p n st = Inr (r, st')" "market_book st = Some b"
  shows "\<exists>c. market_book st' = Some c \<and> book_step b c \<and> issued c = issued b"
proof -
  from assms(1) obtain m where m: "inst_market st = Some m" "0 < n"
    "n \<le> market_balance_of st p from" "inst_market st' = Some m"
    "market_balance_of st' = add_shares (add_shares (market_balance_of st) p from (- n)) p to n"
    by (rule market_transfer_effect)
  have b: "b = book_view m (market_balance_of st)" using assms(2) m by (simp add: market_book_Some)
  have "book_step b (b\<lparr>holdings := add_shares (add_shares (holdings b) p from (- n)) p to n\<rparr>)"
    using m by (intro book_step.move) (simp_all add: b book_view_def)
  moreover have "market_book st' =
      Some (b\<lparr>holdings := add_shares (add_shares (holdings b) p from (- n)) p to n\<rparr>)"
    using m by (simp add: market_book_def b book_view_def)
  ultimately show ?thesis by fastforce
qed

text \<open>\<open>settle\<close> and \<open>cancel\<close> both close the book and hand the pools to the treasury.\<close>

lemma conclude_refines:
  assumes "inst_market st = Some m" "status m = Open" "market_book st = Some b"
    and "inst_market st' = Some m'" "pool_yes m' = 0" "pool_no m' = 0"
      "total_supply m' = total_supply m" "status m' \<noteq> Open"
    and "market_balance_of st' =
      add_shares (add_shares (market_balance_of st) Yes (treasury m) (pool_yes m))
        No (treasury m) (pool_no m)"
  shows "\<exists>c. market_book st' = Some c \<and> book_step b c \<and> issued c = issued b"
proof -
  have b: "b = book_view m (market_balance_of st)" using assms(1,3) by (simp add: market_book_Some)
  let ?c = "b\<lparr>holdings := add_shares (add_shares (holdings b) Yes (treasury m) (pool b Yes))
      No (treasury m) (pool b No), pool := (\<lambda>_. 0), phase := market_phase (status m')\<rparr>"
  have "book_step b ?c"
    using assms by (intro book_step.conclude) (simp_all add: b book_view_def)
  moreover have "market_book st' = Some ?c"
    using assms(4-9) by (simp add: market_book_def b book_view_def pool_view) (simp add: fun_eq_iff)
  ultimately show ?thesis by fastforce
qed

lemma settle_refines:
  assumes "market_settle env payload st = Inr (r, st')" "market_book st = Some b"
  shows "\<exists>c. market_book st' = Some c \<and> book_step b c \<and> issued c = issued b"
  using assms(1)
  by (rule market_settle_effect)
    (rule conclude_refines [OF _ _ assms(2)], assumption, assumption, assumption, simp_all)

lemma cancel_refines:
  assumes "market_cancel env st = Inr (r, st')" "market_book st = Some b"
  shows "\<exists>c. market_book st' = Some c \<and> book_step b c \<and> issued c = issued b"
  using assms(1)
  by (rule market_cancel_effect)
    (rule conclude_refines [OF _ _ assms(2)], assumption, assumption, assumption, simp_all)

lemma redeem_refines:
  assumes "market_redeem env user st = Inr (pay, st')" "market_book st = Some b" "book_ok b"
  shows "\<exists>c. market_book st' = Some c \<and> book_step b c \<and> issued c = issued b - pay"
proof -
  from assms(1) obtain m where m: "inst_market st = Some m" "status m \<noteq> Open"
    "pay = market_payout m (market_balance_of st) user" "0 < pay"
    "inst_market st' = Some (m\<lparr>total_supply := total_supply m - pay\<rparr>)"
    "market_balance_of st' = drop_shares (market_balance_of st) user"
    by (rule market_redeem_effect)
  have b: "b = book_view m (market_balance_of st)" using assms(2) m by (simp add: market_book_Some)
  let ?c = "b\<lparr>holdings := drop_shares (holdings b) user, issued := issued b - pay\<rparr>"
  have nn: "0 \<le> market_balance_of st p user" for p
    using assms(3) by (simp add: book_ok_def b book_view_def)
  have "book_step b ?c"
  proof (cases "phase b")
    case Trading
    then show ?thesis using m by (simp add: b book_view_def)
  next
    case (Won p)
    then have "pay = holdings b p user"
      using m(3) by (cases "status m") (auto simp: b book_view_def market_payout_def)
    then show ?thesis using book_step.claim_won [OF Won, of user] m(4) by simp
  next
    case Voided
    then have "status m = Cancelled" by (cases "status m") (simp_all add: b book_view_def)
    then have "pay = (holdings b Yes user + holdings b No user) div 2"
      using m(3) nn by (simp add: market_payout_def sdiv_nonneg b book_view_def)
    then show ?thesis using book_step.claim_void [OF Voided _ m(4)] by simp
  qed
  moreover have "market_book st' = Some ?c"
    using m by (simp add: market_book_def b book_view_def pool_view)
  ultimately show ?thesis by fastforce
qed

lemma initialize_opens:
  assumes "market_initialize env adm coll strike expiry_ts grace lazer feed base_fee min_fee
      treas liq refl_cfg redstone st = Inr (r, st')"
    and "\<forall>p a. market_balance_of st p a = 0"
  shows "0 < liq \<and> market_book st' = Some (book_start liq)"
proof -
  from assms(1) obtain m where m: "0 < liq" "inst_market st' = Some m" "status m = Open"
    "pool_yes m = liq" "pool_no m = liq" "total_supply m = liq"
    "market_balance_of st' = market_balance_of st"
    by (rule market_initialize_effect) blast
  have "market_balance_of st = (\<lambda>_ _. 0)" using assms(2) by (simp add: fun_eq_iff)
  then show ?thesis
    using m by (auto simp: market_book_def book_view_def book_start_def pool_view fun_eq_iff
        prediction_neq)
qed

section \<open>The market as a state machine\<close>

text \<open>
  A deployed market moves when a transaction calls it, when its token contracts change
  without it (which may raise but not lower its own balances), and when the lifetimes of its
  storage run down.  \<open>careful\<close> is the one condition on callers that the invariant needs: a
  buyer does not offer to receive a negative number of shares.
\<close>

fun careful :: "market_call \<Rightarrow> bool" where
  "careful (CallBuy user p amount min_out) = (0 \<le> min_out)"
| "careful _ = True"

inductive market_step :: "'tok Env \<Rightarrow> 'tok market_state \<Rightarrow> 'tok market_state \<Rightarrow> bool"
  for chain :: "'tok Env" where
  called: "hosted chain env \<Longrightarrow> careful c \<Longrightarrow> market_exec env c s = Inr t \<Longrightarrow> market_step chain s t"
| elsewhere: "(\<forall>c. token_balance chain c (current_contract_address chain) (tokens s)
      \<le> token_balance chain c (current_contract_address chain) tk) \<Longrightarrow>
    market_step chain s (s\<lparr>tokens := tk\<rparr>)"
| ageing: "market_step chain s (s\<lparr>inst_ttl := n, balance_ttl := f\<rparr>)"

definition market_fresh :: "'tok market_state \<Rightarrow> bool" where
  "market_fresh s \<longleftrightarrow> inst_market s = None \<and> (\<forall>p a. market_balance_of s p a = 0)"

definition market_collateral :: "'tok Env \<Rightarrow> 'tok market_state \<Rightarrow> int" where
  "market_collateral chain s = (case inst_market s of
      None \<Rightarrow> 0
    | Some m \<Rightarrow> token_balance chain (collateral m) (current_contract_address chain) (tokens s))"

lemma market_uninitialised_exec:
  assumes "market_exec env c s = Inr t" "inst_market s = None"
  obtains adm coll strike expiry_ts grace lazer feed base_fee min_fee treas liq refl_cfg redstone
  where "c = CallInitialize adm coll strike expiry_ts grace lazer feed base_fee min_fee treas liq
    refl_cfg redstone"
  using assms
  by (cases c) (auto simp: res_simps market_split_def market_merge_def market_buy_def
      market_sell_def market_transfer_def market_settle_def market_cancel_def market_redeem_def)

lemma initialize_funds:
  assumes "market_initialize env adm coll strike expiry_ts grace lazer feed base_fee min_fee
      treas liq refl_cfg redstone s = Inr (r, t)" "hosted chain env"
  shows "liq \<le> market_collateral chain t"
  using assms(1)
proof (rule market_initialize_effect)
  fix m tk
  assume *: "authorized env adm" "inst_market t = Some m" "collateral m = coll" "tokens t = tk"
    "token_transfer env coll adm (current_contract_address env) liq (tokens s) = Some tk"
  from hosted_pay_in [OF assms(2) *(1,5)] hosted_balance_nonneg [OF assms(2)] *
  show ?thesis by (simp add: market_collateral_def)
qed

lemma reserve_frame [simp]:
  "collateral (market_set_reserve q v m) = collateral m"
  "total_supply (market_set_reserve q v m) = total_supply m"
  by (cases q; simp)+

text \<open>Every call moves exactly as much collateral as it moves supply.\<close>

lemma market_exec_funds:
  assumes "market_exec env c s = Inr t" "hosted chain env" "inst_market s = Some m"
  shows "\<exists>m'. inst_market t = Some m' \<and> collateral m' = collateral m
    \<and> total_supply m' - total_supply m = market_collateral chain t - market_collateral chain s"
  using assms(1,3) hosted_pay_in [OF assms(2)] hosted_pay_out [OF assms(2)]
  by (cases c) (auto simp: res_simps market_collateral_def elim!: market_initialize_effect market_split_effect market_merge_effect
      market_buy_effect market_sell_effect market_transfer_effect market_settle_effect
      market_cancel_effect market_redeem_effect)

text \<open>Every careful call on a sound book is one of the book's moves.\<close>

lemma market_exec_refines:
  assumes "market_exec env c s = Inr t" "careful c" "market_book s = Some b" "book_ok b"
  shows "\<exists>d. market_book t = Some d \<and> book_step b d"
  using assms
  by (cases c) (auto simp: res_simps market_book_def elim!: market_initialize_effect
      dest!: split_refines merge_refines buy_refines sell_refines transfer_refines settle_refines
        cancel_refines redeem_refines)

text \<open>Only the initialisation takes a fresh contract out of that state, into a funded, balanced book.\<close>

lemma market_step_opens:
  assumes fresh: "market_fresh s" and step: "market_step chain s t"
  shows "market_fresh t \<or> (\<exists>n>0. market_book t = Some (book_start n) \<and> n \<le> market_collateral chain t)"
  using step
proof cases
  case (called env c)
  from called(3) fresh obtain adm coll strike expiry_ts grace lazer feed base_fee min_fee treas
    liq refl_cfg redstone where c: "c = CallInitialize adm coll strike expiry_ts grace lazer feed
      base_fee min_fee treas liq refl_cfg redstone"
    by (auto simp: market_fresh_def elim: market_uninitialised_exec)
  with called(3) obtain r where e: "market_initialize env adm coll strike expiry_ts grace lazer
      feed base_fee min_fee treas liq refl_cfg redstone s = Inr (r, t)"
    by (auto simp: res_simps)
  show ?thesis
    using initialize_opens [OF e] initialize_funds [OF e called(1)] fresh
    by (auto simp: market_fresh_def)
next
  case (elsewhere tk)
  then show ?thesis using fresh by (simp add: market_fresh_def)
next
  case (ageing n f)
  then show ?thesis using fresh by (simp add: market_fresh_def market_balance_of_def)
qed

text \<open>Every later step is a move of the book, or leaves it, with the collateral that the move needs.\<close>

lemma market_step_moves:
  assumes book: "market_book s = Some b" "book_ok b" and step: "market_step chain s t"
  shows "\<exists>c. market_book t = Some c \<and> (c = b \<or> book_step b c)
    \<and> issued c - issued b \<le> market_collateral chain t - market_collateral chain s"
  using step
proof cases
  case (called env c)
  obtain m where m: "inst_market s = Some m" "issued b = total_supply m"
    using book(1) by (auto simp: market_book_Some book_view_def)
  obtain c' where c': "market_book t = Some c'" "book_step b c'"
    using market_exec_refines [OF called(3,2) book] by blast
  obtain m' where "inst_market t = Some m'" "issued c' = total_supply m'"
    using c'(1) by (auto simp: market_book_Some book_view_def)
  then show ?thesis
    using market_exec_funds [OF called(3,1) m(1)] m(2) c' by auto
next
  case (elsewhere tk)
  then show ?thesis
    using book by (auto simp: market_book_def market_collateral_def split: option.splits)
next
  case (ageing n f)
  then show ?thesis
    using book by (auto simp: market_book_def market_collateral_def market_balance_of_def
        book_view_def fun_eq_iff split: option.splits)
qed

text \<open>The market is a contract that implements the book.\<close>

interpretation mkt_contract: ctf_contract market_fresh market_book "market_collateral chain"
  "market_step chain" for chain :: "'tok Env"
  by unfold_locales (fact market_step_opens, simp add: market_fresh_def market_book_def, fact market_step_moves)

end
