(* ===== verification/Market_Properties.thy ===== *)
theory Market_Properties
  imports Market_Book
begin

text \<open>
  The properties of the market contract: solvency of every reachable state, what each entry
  point does, who can lose shares, the fail-closed settlement, and the limits of the
  guarantees the documentation states.
\<close>

section \<open>A sample market\<close>

text \<open>The market of the test suite: 10000 units of liquidity from the admin 10, treasury 11,
  collateral token 5, strike 1000 dollars, one day to expiry, an hour of grace.\<close>

definition sample_init :: market_call where
  "sample_init = CallInitialize 10 5 100000 1086400 3600 6 100 100 20 11 10000 sample_feed None"

definition sample_market :: Market where
  "sample_market = \<lparr>admin = 10, collateral = 5, strike_price = 100000, expiry = 1086400,
     grace_period = 3600, lazer_contract = 6, feed_id = 100, base_fee_bps = 100,
     min_fee_bps = 20, treasury = 11, status = Open, final_price = 0, pool_yes = 10000,
     pool_no = 10000, total_supply = 10000, initial_liquidity = 10000,
     reflector = sample_feed, reflector_decimals_at_init = 14\<rparr>"

definition sample_fresh :: "ledger market_state" where
  "sample_fresh = \<lparr>inst_market = None, inst_redstone = None, balances = Map.empty, inst_ttl = 0,
     balance_ttl = (\<lambda>_. 0), events = [], tokens = sample_tokens\<rparr>"

definition sample_open :: "ledger market_state" where
  "sample_open = \<lparr>inst_market = Some sample_market, inst_redstone = None,
     balances = Map.empty, inst_ttl = 535680, balance_ttl = (\<lambda>_. 0),
     events = [InitEvent 100000 1086400],
     tokens = (\<lambda>_ _. 0)(5 := (\<lambda>_. 0)(10 := 990000, 12 := 50000, 1 := 10000))\<rparr>"

lemmas sample_defs = sample_env_def sample_feed_def sample_market_def sample_fresh_def
  sample_open_def sample_init_def sample_tokens_def

lemmas market_eval = market_balance_of_def market_set_balance_def market_credit_def
  market_debit_def market_pay_def market_publish_def save_market_def market_touch_def
  load_market_def load_redstone_oracle_def market_effective_fee_bps_def require_auth_def
  extend_ttl_def BUMP_THRESHOLD_def BUMP_TO_def MAX_FEE_BPS_def
  PRICE_FRESHNESS_WINDOW_SECS_def ledger_transfer_def Let_def discard_def

lemmas math_eval = cpmm_out_def cpmm_sell_out_def isqrt_def isqrt_loop.simps apply_fee_def
  effective_fee_bps_def to_cents_def reflector_price_to_cents_def i128_eval word_add_def

lemma sample_fresh_ok: "market_fresh sample_fresh"
  by (simp add: market_fresh_def sample_fresh_def market_balance_of_def)

lemma sample_initialised: "market_exec (sample_env 1000000 0) sample_init sample_fresh = Inr sample_open"
  by (simp add: sample_defs market_initialize_def market_eval fun_eq_iff)

lemma sample_reach: "(market_step (sample_env 0 0))\<^sup>*\<^sup>* sample_fresh sample_open"
  using market_step.called [OF sample_hosted _ sample_initialised, of 0 0]
  by (auto simp: sample_init_def)

lemma sample_extend:
  assumes "(market_step (sample_env 0 0))\<^sup>*\<^sup>* sample_fresh s"
    and "market_exec (sample_env now px) c s = Inr t" "careful c"
  shows "(market_step (sample_env 0 0))\<^sup>*\<^sup>* sample_fresh t"
  using assms(1) market_step.called [OF sample_hosted assms(3,2)]
  by (rule rtranclp.rtrancl_into_rtrancl)

text \<open>User 12 splits 300 units; then the market is cancelled, or settled at 1500 dollars.\<close>

definition sample_traded :: "ledger market_state" where
  "sample_traded = \<lparr>inst_market = Some (sample_market\<lparr>total_supply := 10300\<rparr>),
     inst_redstone = None, balances = [(Yes, 12) \<mapsto> 300, (No, 12) \<mapsto> 300], inst_ttl = 535680,
     balance_ttl = (\<lambda>_. 0)((Yes, 12) := 535680, (No, 12) := 535680),
     events = [InitEvent 100000 1086400, SplitEvent 12 300],
     tokens = (\<lambda>_ _. 0)(5 := (\<lambda>_. 0)(10 := 990000, 12 := 49700, 1 := 10300))\<rparr>"

definition sample_finished :: "MarketStatus \<Rightarrow> int \<Rightarrow> market_event \<Rightarrow> ledger market_state" where
  "sample_finished outcome cents e = \<lparr>inst_market = Some (sample_market\<lparr>total_supply := 10300,
       pool_yes := 0, pool_no := 0, status := outcome, final_price := cents\<rparr>),
     inst_redstone = None, balances = [(Yes, 12) \<mapsto> 300, (No, 12) \<mapsto> 300,
       (Yes, 11) \<mapsto> 10000, (No, 11) \<mapsto> 10000], inst_ttl = 535680,
     balance_ttl = (\<lambda>_. 0)((Yes, 12) := 535680, (No, 12) := 535680,
       (Yes, 11) := 535680, (No, 11) := 535680),
     events = [InitEvent 100000 1086400, SplitEvent 12 300, e],
     tokens = tokens sample_traded\<rparr>"

lemma sample_split: "market_exec (sample_env 1000000 0) (CallSplit 12 300) sample_open = Inr sample_traded"
  by (simp add: sample_defs sample_traded_def market_split_def market_eval i128_eval fun_eq_iff)

lemma sample_cancel: "market_exec (sample_env 1090000 0) CallCancel sample_traded
    = Inr (sample_finished Cancelled 0 CancelEvent)"
  by (simp add: sample_defs sample_traded_def sample_finished_def market_cancel_def market_eval
      word_add_def i128_eval fun_eq_iff)

lemma sample_settle: "market_exec (sample_env 1086400 150000000000000000) (CallSettle []) sample_traded
    = Inr (sample_finished ResolvedYes 150000 (SettleEvent ResolvedYes 150000))"
  by (simp add: sample_defs sample_traded_def sample_finished_def market_settle_def
      market_settle_price_def market_corroborate_def verify_oracle_corroboration_def
      market_eval math_eval fun_eq_iff)

lemmas sample_reach_traded = sample_extend [OF sample_reach sample_split, simplified]
lemmas sample_reach_cancelled = sample_extend [OF sample_reach_traded sample_cancel, simplified]
lemmas sample_reach_settled = sample_extend [OF sample_reach_traded sample_settle, simplified]

section \<open>Solvency\<close>

lemma reach_facts:
  assumes "(market_step chain)\<^sup>*\<^sup>* s t" "market_fresh s" "inst_market t = Some m"
  shows "book_ok (book_view m (market_balance_of t))"
    and "total_supply m \<le> market_collateral chain t"
    and "fsum (market_payout m (market_balance_of t)) \<le> total_supply m"
    and "status m = ResolvedYes \<or> status m = ResolvedNo \<Longrightarrow>
      fsum (market_payout m (market_balance_of t)) = total_supply m"
    and "market_payout m (market_balance_of t) user \<le> total_supply m"
proof -
  let ?b = "book_view m (market_balance_of t)"
  have b: "market_book t = Some ?b" using assms(3) by (simp add: market_book_def)
  note reach = mkt_contract.reach_book [OF assms(1,2) b]
  show ok: "book_ok ?b" and "total_supply m \<le> market_collateral chain t"
    using reach by (simp_all add: book_view_def)
  have nn: "0 \<le> market_balance_of t p a" for p a using ok by (simp add: book_ok_def book_view_def)
  have pay: "market_payout m (market_balance_of t) = claimable ?b"
  proof
    fix a show "market_payout m (market_balance_of t) a = claimable ?b a"
      using nn [of Yes a] nn [of No a]
      by (cases "status m") (simp_all add: market_payout_def claimable_def book_view_def sdiv_nonneg)
  qed
  show "market_payout m (market_balance_of t) user \<le> total_supply m"
    using claimable_le_issued [OF ok] by (simp add: pay book_view_def)
  show "fsum (market_payout m (market_balance_of t)) \<le> total_supply m"
  proof (cases "status m = Open")
    case True
    then show ?thesis
      using issued_nonneg [OF ok] by (simp add: market_payout_def [abs_def] book_view_def)
  next
    case False
    then show ?thesis using claims_sum(1) [OF ok] by (simp add: pay book_view_def)
  qed
  show "fsum (market_payout m (market_balance_of t)) = total_supply m"
    if "status m = ResolvedYes \<or> status m = ResolvedNo"
    using that claims_sum(2) [OF ok] by (auto simp: pay book_view_def)
qed

lemma open_book:
  assumes "book_ok (book_view m h)" "status m = Open"
  shows "0 < pool_yes m" "0 < pool_no m" "pool_yes m + fsum (h Yes) = total_supply m"
    "pool_no m + fsum (h No) = total_supply m"
  using assms
  by (simp_all add: book_ok_def covered_def book_view_def all_prediction outstanding_def)

text \<open>C1: In every state a market can reach by transactions whose buyers do not offer to
  receive a negative number of shares (\<open>careful\<close>: \<open>min_shares_out\<close> is not negative; without that
  condition it fails, as \<open>market_negative_minimum\<close> shows), no holder has a negative balance, the contract holds at
  least \<open>total_supply\<close> of its collateral, and while the market is open both reserves are
  positive and each side's reserve plus its holders' shares equals \<open>total_supply\<close>.\<close>

theorem market_reachable_solvent:
  assumes "(market_step chain)\<^sup>*\<^sup>* s t" "market_fresh s" "inst_market t = Some m"
  shows "(\<forall>p a. 0 \<le> market_balance_of t p a) \<and> 0 \<le> total_supply m
    \<and> total_supply m
        \<le> token_balance chain (collateral m) (current_contract_address chain) (tokens t)
    \<and> (status m = Open \<longrightarrow> 0 < pool_yes m \<and> 0 < pool_no m
        \<and> pool_yes m + fsum (market_balance_of t Yes) = total_supply m
        \<and> pool_no m + fsum (market_balance_of t No) = total_supply m)"
proof -
  note f = reach_facts [OF assms]
  have "0 \<le> total_supply m" using issued_nonneg [OF f(1)] by (simp add: book_view_def)
  moreover have "\<forall>p a. 0 \<le> market_balance_of t p a"
    using f(1) by (simp add: book_ok_def book_view_def)
  ultimately show ?thesis
    using open_book [OF f(1)] f(2) assms(3) by (simp add: market_collateral_def)
qed

lemma market_reachable_solvent_witness:
  "(\<forall>p a. 0 \<le> market_balance_of sample_open p a) \<and> 0 \<le> total_supply sample_market
    \<and> total_supply sample_market \<le> token_balance (sample_env 0 0) (collateral sample_market)
        (current_contract_address (sample_env 0 0)) (tokens sample_open)
    \<and> 0 < pool_yes sample_market \<and> 0 < pool_no sample_market
    \<and> pool_yes sample_market + fsum (market_balance_of sample_open Yes) = total_supply sample_market
    \<and> pool_no sample_market + fsum (market_balance_of sample_open No) = total_supply sample_market"
proof -
  have "inst_market sample_open = Some sample_market" "status sample_market = Open"
    by (simp_all add: sample_open_def sample_market_def)
  then show ?thesis
    using market_reachable_solvent [OF sample_reach sample_fresh_ok] by blast
qed

text \<open>C2: After the end of a market in whose run no buyer offered to receive a negative number of
  shares, what all holders together can redeem never exceeds the collateral the contract holds;
  when a side won, it is exactly the remaining \<open>total_supply\<close>.\<close>

theorem market_claims_backed:
  assumes "(market_step chain)\<^sup>*\<^sup>* s t" "market_fresh s" "inst_market t = Some m" "status m \<noteq> Open"
  shows "fsum (market_payout m (market_balance_of t))
      \<le> token_balance chain (collateral m) (current_contract_address chain) (tokens t)
    \<and> (status m = Cancelled \<or> fsum (market_payout m (market_balance_of t)) = total_supply m)"
proof -
  note f = reach_facts [OF assms(1-3)]
  have "fsum (market_payout m (market_balance_of t)) \<le> market_collateral chain t"
    using f(2,3) by simp
  then show ?thesis
    using f(4) assms(3,4) by (cases "status m") (simp_all add: market_collateral_def)
qed

lemma market_claims_backed_witness:
  "fsum (market_payout (sample_market\<lparr>total_supply := 10300, pool_yes := 0, pool_no := 0,
        status := Cancelled, final_price := 0\<rparr>)
      (market_balance_of (sample_finished Cancelled 0 CancelEvent)))
    \<le> token_balance (sample_env 0 0) 5 (current_contract_address (sample_env 0 0))
        (tokens (sample_finished Cancelled 0 CancelEvent))"
  using market_claims_backed [OF sample_reach_cancelled sample_fresh_ok]
  by (simp add: sample_finished_def sample_market_def)

text \<open>C9: Every successful call whose buyer does not offer to receive a negative number of
  shares is one move of the abstract book, keeps its invariant, and changes the collateral the
  contract holds by exactly the change of \<open>total_supply\<close>.\<close>

theorem market_call_refines_book:
  assumes "market_exec env c s = Inr t" "careful c" "hosted chain env"
    and "market_book s = Some b" "book_ok b"
  shows "\<exists>d. market_book t = Some d \<and> book_step b d \<and> book_ok d
    \<and> issued d - issued b = market_collateral chain t - market_collateral chain s"
proof -
  obtain d where d: "market_book t = Some d" "book_step b d"
    using market_exec_refines [OF assms(1,2,4,5)] by blast
  obtain m where m: "inst_market s = Some m" "issued b = total_supply m"
    using assms(4) by (auto simp: market_book_Some book_view_def)
  obtain m' where "inst_market t = Some m'" "issued d = total_supply m'"
    using d(1) by (auto simp: market_book_Some book_view_def)
  then show ?thesis
    using market_exec_funds [OF assms(1,3) m(1)] m(2) d book_step_ok assms(5) by fastforce
qed

lemma market_call_refines_book_witness:
  "\<exists>d. market_book sample_traded = Some d \<and> book_step (book_start 10000) d \<and> book_ok d
    \<and> issued d - issued (book_start 10000) = market_collateral (sample_env 0 0) sample_traded
      - market_collateral (sample_env 0 0) sample_open"
proof (rule market_call_refines_book [OF sample_split _ sample_hosted])
  show "market_book sample_open = Some (book_start 10000)"
    by (simp add: market_book_def sample_open_def sample_market_def book_view_def pool_view
        book_start_def market_balance_of_def fun_eq_iff prediction_neq)
  show "book_ok (book_start 10000)" by (rule book_start_ok) simp
qed simp

section \<open>Redemption\<close>

text \<open>Once a market has ended, redeeming always works: every holder whose position is
  worth something is paid exactly that, whatever the others redeemed before, as long as the
  token honours funded transfers and twice the supply fits an \<open>i128\<close>.\<close>

theorem market_redeem_pays:
  assumes "(market_step chain)\<^sup>*\<^sup>* s t" "market_fresh s" "inst_market t = Some m" "status m \<noteq> Open"
    and "hosted chain env" "pays_when_funded env" "authorized env user"
    and "0 < market_payout m (market_balance_of t) user" "2 * total_supply m \<le> i128_max"
  shows "\<exists>u. market_redeem env user t = Inr (market_payout m (market_balance_of t) user, u)"
proof -
  define pay where "pay = market_payout m (market_balance_of t) user"
  let ?h = "market_balance_of t" and ?b = "book_view m (market_balance_of t)"
  note f = reach_facts [OF assms(1-3)]
  have pay: "0 < pay" "pay \<le> total_supply m" using assms(8) f(5) by (simp_all add: pay_def)
  have "pay \<le> token_balance env (collateral m) (current_contract_address env) (tokens t)"
    using pay(2) f(2) assms(3) hosted_facts(2,3) [OF assms(5)] by (simp add: market_collateral_def)
  then obtain tk where tk: "token_transfer env (collateral m) (current_contract_address env) user
      pay (tokens t) = Some tk"
    using pays_when_fundedD [OF assms(6) less_imp_le [OF pay(1)]] by blast
  have nn: "0 \<le> ?h p a" for p a using f(1) by (simp add: book_ok_def book_view_def)
  have le: "?h p user \<le> outstanding ?h p" for p
    using f(1) by (intro holding_le_outstanding) (auto simp: book_ok_def book_view_def)
  have void: "in_i128 (?h Yes user + ?h No user)" if "status m = Cancelled"
  proof -
    have "outstanding ?h Yes + outstanding ?h No \<le> 2 * total_supply m"
      using f(1) that by (simp add: book_ok_def covered_def book_view_def)
    then have "?h Yes user + ?h No user \<le> i128_max"
      using le [of Yes] le [of No] assms(9) by linarith
    moreover have "0 \<le> ?h Yes user + ?h No user" using nn by simp
    ultimately show ?thesis by (simp add: in_i128_def i128_min_def)
  qed
  have ts: "in_i128 (total_supply m - pay)" using pay assms(9) by (simp add: i128_bounds)
  show ?thesis
    using assms(3,4,7) tk ts pay(1) void nn [of Yes user] nn [of No user]
    by (cases "status m") (simp_all add: market_redeem_def load_market_def require_auth_def
        Let_def market_payout_def pay_def [symmetric] market_pay_def market_clear_effect i128_ops
        sdiv_nonneg not_le pay_def in_i128_div)
qed

lemma market_redeem_pays_witness:
  "\<exists>u. market_redeem (sample_env 2000000 0) 12 (sample_finished Cancelled 0 CancelEvent)
    = Inr (market_payout (sample_market\<lparr>total_supply := 10300, pool_yes := 0, pool_no := 0,
        status := Cancelled, final_price := 0\<rparr>)
      (market_balance_of (sample_finished Cancelled 0 CancelEvent)) 12, u)"
  by (rule market_redeem_pays [OF sample_reach_cancelled sample_fresh_ok _ _ sample_hosted sample_pays])
    (simp_all add: sample_finished_def market_payout_def market_balance_of_def sample_env_def
      i128_max_def signed_divide_int_def)

text \<open>A redemption needs the holder's own signature, pays exactly the value of the
  position, burns both of the holder's balances and nobody else's, and cannot be repeated: the
  holder's next call is \<open>NothingToRedeem\<close>.\<close>

theorem market_redeem_once:
  assumes "market_redeem env user s = Inr (pay, t)" "authorized env' user"
  shows "authorized env user \<and> 0 < pay
    \<and> (\<exists>m. inst_market s = Some m \<and> pay = market_payout m (market_balance_of s) user)
    \<and> (\<forall>p a. market_balance_of t p a = (if a = user then 0 else market_balance_of s p a))
    \<and> market_redeem env' user t = Inl (Err NothingToRedeem)"
proof -
  from assms(1) obtain m where m: "authorized env user" "inst_market s = Some m" "status m \<noteq> Open"
    "pay = market_payout m (market_balance_of s) user" "0 < pay"
    "inst_market t = Some (m\<lparr>total_supply := total_supply m - pay\<rparr>)"
    "market_balance_of t = drop_shares (market_balance_of s) user"
    by (rule market_redeem_effect)
  have "market_redeem env' user t = Inl (Err NothingToRedeem)"
    using m(3,6,7) assms(2)
    by (cases "status m") (simp_all add: market_redeem_def load_market_def require_auth_def
        Let_def drop_shares_apply i128_eval)
  then show ?thesis using m by (auto simp: drop_shares_apply)
qed

lemma sample_redeem:
  "\<exists>u. market_redeem (sample_env 2000000 0) 12 (sample_finished Cancelled 0 CancelEvent) = Inr (300, u)"
  by (simp add: market_redeem_def market_clear_balances_def market_eval sample_env_def
      sample_finished_def sample_market_def sample_traded_def i128_eval)

lemma market_redeem_once_witness:
  "\<exists>t. market_redeem (sample_env 2000001 0) 12 t = Inl (Err NothingToRedeem)
    \<and> market_redeem (sample_env 2000000 0) 12 (sample_finished Cancelled 0 CancelEvent) = Inr (300, t)"
  using sample_redeem
    market_redeem_once [of "sample_env 2000000 0" 12 "sample_finished Cancelled 0 CancelEvent" 300
      _ "sample_env 2000001 0"]
  by (auto simp: sample_env_def)

end
