(* ===== verification/Market_Settlement.thy ===== *)
theory Market_Settlement
  imports Market_Properties
begin

text \<open>
  How a market ends: what a settlement must have verified, how every failed check rejects it,
  the permissionless cancellation, and the lifecycle of the status.
\<close>

section \<open>What a settlement verifies\<close>

text \<open>The second an update's feed is stamped with.\<close>

definition feed_second :: "LazerUpdate \<Rightarrow> LazerFeed \<Rightarrow> nat" where
  "feed_second upd feed =
     unat (case lf_feed_update_timestamp feed of None \<Rightarrow> lu_timestamp upd | Some ts \<Rightarrow> ts) div 1000000"

lemma market_settle_price_effect:
  assumes "market_settle_price env m payload = Inr cents"
  obtains upd feed p e where
    "lazer_verify_update env (lazer_contract m) payload = Inr upd"
    "find (\<lambda>f. lf_feed_id f = feed_id m) (lu_feeds upd) = Some feed"
    "lf_price feed = Some p" "0 < sint p" "lf_exponent feed = Some e"
    "unat (expiry m) \<le> feed_second upd feed + 300" "feed_second upd feed \<le> unat (expiry m) + 300"
    "to_cents p e = (Inr cents :: (market_error, int) res)"
proof -
  from assms obtain upd feed p e where u: "lazer_verify_update env (lazer_contract m) payload = Inr upd"
    "find (\<lambda>f. lf_feed_id f = feed_id m) (lu_feeds upd) = Some feed"
    "lf_price feed = Some p" "0 < sint p" "lf_exponent feed = Some e"
    "to_cents p e = (Inr cents :: (market_error, int) res)"
    and t: "let ts = (case lf_feed_update_timestamp feed of None \<Rightarrow> lu_timestamp upd | Some ts \<Rightarrow> ts)
          div 1000000 in
        unat ts + unat PRICE_FRESHNESS_WINDOW_SECS < 2 ^ 64
      \<and> \<not> ts + PRICE_FRESHNESS_WINDOW_SECS < expiry m
      \<and> unat (expiry m) + unat PRICE_FRESHNESS_WINDOW_SECS < 2 ^ 64
      \<and> \<not> expiry m + PRICE_FRESHNESS_WINDOW_SECS < ts"
    by (auto simp: market_settle_price_def res_simps Let_def not_le)
  define ts where "ts = (case lf_feed_update_timestamp feed of None \<Rightarrow> lu_timestamp upd | Some ts \<Rightarrow> ts)
          div 1000000"
  have fs: "feed_second upd feed = unat ts"
    by (simp add: feed_second_def ts_def unat_div split: option.splits)
  have w: "unat PRICE_FRESHNESS_WINDOW_SECS = 300" by (simp add: PRICE_FRESHNESS_WINDOW_SECS_def)
  have "unat (expiry m) \<le> unat ts + 300" "unat ts \<le> unat (expiry m) + 300"
    using t unat_word_add [of ts PRICE_FRESHNESS_WINDOW_SECS]
      unat_word_add [of "expiry m" PRICE_FRESHNESS_WINDOW_SECS]
    unfolding Let_def ts_def [symmetric] by (simp_all add: word_less_nat_alt w)
  then show thesis using that u fs by metis
qed

lemma market_corroborate_sound:
  assumes "market_corroborate env m now cents s = Inr u"
  shows "corroborates env (reflector m) (reflector_decimals_at_init m) now cents"
    and "inst_redstone s = Some rs \<Longrightarrow> corroborates env (config rs) (decimals_at_init rs) now cents"
  using assms by (auto simp: market_corroborate_def res_simps load_redstone_oracle_def
      intro: verify_corroborates)

text \<open>C4: A settlement happens only at or after the expiry, on a verified update that carries
  a positive price of the market's own feed stamped within 300 seconds of the expiry, and only
  when every configured oracle leg reports a fresh price of the pinned precision within its
  tolerance of that price; the outcome is then decided by the strike, the pools go to the
  treasury, and no collateral moves.\<close>

theorem market_settle_sound:
  assumes "market_settle env payload s = Inr (r, t)"
  shows "\<exists>m upd feed p e cents.
      inst_market s = Some m \<and> status m = Open \<and> expiry m \<le> ledger_timestamp env
    \<and> lazer_verify_update env (lazer_contract m) payload = Inr upd
    \<and> feed \<in> set (lu_feeds upd) \<and> lf_feed_id feed = feed_id m
    \<and> lf_price feed = Some p \<and> 0 < sint p \<and> lf_exponent feed = Some e
    \<and> unat (expiry m) \<le> feed_second upd feed + 300 \<and> feed_second upd feed \<le> unat (expiry m) + 300
    \<and> to_cents p e = (Inr cents :: (market_error, int) res)
    \<and> corroborates env (reflector m) (reflector_decimals_at_init m) (ledger_timestamp env) cents
    \<and> (case inst_redstone s of None \<Rightarrow> True
       | Some rs \<Rightarrow> corroborates env (config rs) (decimals_at_init rs) (ledger_timestamp env) cents)
    \<and> inst_market t = Some (m\<lparr>final_price := cents,
        status := if strike_price m \<le> cents then ResolvedYes else ResolvedNo,
        pool_yes := 0, pool_no := 0\<rparr>)
    \<and> market_balance_of t = add_shares (add_shares (market_balance_of s) Yes (treasury m) (pool_yes m))
        No (treasury m) (pool_no m)
    \<and> tokens t = tokens s"
proof -
  from assms obtain m cents where m: "inst_market s = Some m" "status m = Open"
    "expiry m \<le> ledger_timestamp env" "market_settle_price env m payload = Inr cents"
    "market_corroborate env m (ledger_timestamp env) cents s = Inr ()"
    "inst_market t = Some (m\<lparr>final_price := cents,
       status := if strike_price m \<le> cents then ResolvedYes else ResolvedNo,
       pool_yes := 0, pool_no := 0\<rparr>)"
    "market_balance_of t = add_shares (add_shares (market_balance_of s) Yes (treasury m) (pool_yes m))
        No (treasury m) (pool_no m)" "tokens t = tokens s"
    by (rule market_settle_effect)
  from m(4) obtain upd feed p e where u: "lazer_verify_update env (lazer_contract m) payload = Inr upd"
    "find (\<lambda>f. lf_feed_id f = feed_id m) (lu_feeds upd) = Some feed"
    "lf_price feed = Some p" "0 < sint p" "lf_exponent feed = Some e"
    "unat (expiry m) \<le> feed_second upd feed + 300" "feed_second upd feed \<le> unat (expiry m) + 300"
    "to_cents p e = (Inr cents :: (market_error, int) res)"
    by (rule market_settle_price_effect)
  have "feed \<in> set (lu_feeds upd) \<and> lf_feed_id feed = feed_id m"
    using u(2) by (auto simp: find_Some_iff)
  then show ?thesis
    using m u market_corroborate_sound [OF m(5)]
    by (intro exI [of _ m] exI [of _ upd] exI [of _ feed] exI [of _ p] exI [of _ e] exI [of _ cents])
      (simp split: option.split)
qed

lemma market_settle_sound_witness:
  "\<exists>m. inst_market sample_traded = Some m \<and> status m = Open \<and> expiry m \<le> 1086400
    \<and> corroborates (sample_env 1086400 150000000000000000) (reflector m) 14 1086400 150000"
proof -
  have "\<exists>r. market_settle (sample_env 1086400 150000000000000000) [] sample_traded
      = Inr (r, sample_finished ResolvedYes 150000 (SettleEvent ResolvedYes 150000))"
    using sample_settle by (simp add: discard_eq_Inr)
  then obtain r where "market_settle (sample_env 1086400 150000000000000000) [] sample_traded
      = Inr (r, sample_finished ResolvedYes 150000 (SettleEvent ResolvedYes 150000))" ..
  from market_settle_sound [OF this] show ?thesis
    by (auto simp: sample_env_def sample_traded_def sample_finished_def sample_market_def)
qed

section \<open>Failing closed\<close>

text \<open>The cause of a price error, in seconds without wrap-around.\<close>

fun price_fault :: "'tok Env \<Rightarrow> Market \<Rightarrow> byte list \<Rightarrow> market_error \<Rightarrow> bool" where
  "price_fault env m payload InvalidPayload \<longleftrightarrow>
     lazer_verify_update env (lazer_contract m) payload = Inl (Err ())
   \<or> (\<exists>upd f. lazer_verify_update env (lazer_contract m) payload = Inr upd \<and> f \<in> set (lu_feeds upd)
       \<and> lf_feed_id f = feed_id m
       \<and> (lf_price f = None \<or> (\<exists>p. lf_price f = Some p \<and> sint p \<le> 0) \<or> lf_exponent f = None))"
| "price_fault env m payload FeedNotFound \<longleftrightarrow>
     (\<exists>upd. lazer_verify_update env (lazer_contract m) payload = Inr upd
       \<and> (\<forall>f \<in> set (lu_feeds upd). lf_feed_id f \<noteq> feed_id m))"
| "price_fault env m payload StalePrice \<longleftrightarrow>
     (\<exists>upd f. lazer_verify_update env (lazer_contract m) payload = Inr upd \<and> f \<in> set (lu_feeds upd)
       \<and> lf_feed_id f = feed_id m \<and> feed_second upd f + 300 < unat (expiry m))"
| "price_fault env m payload FuturePrice \<longleftrightarrow>
     (\<exists>upd f. lazer_verify_update env (lazer_contract m) payload = Inr upd \<and> f \<in> set (lu_feeds upd)
       \<and> lf_feed_id f = feed_id m \<and> unat (expiry m) + 300 < feed_second upd f)"
| "price_fault env m payload _ \<longleftrightarrow> False"

lemma to_cents_no_error [err_simps]: "to_cents p e \<noteq> Inl (Err x)"
  by (simp add: to_cents_def Let_def err_simps)

lemma find_hit: "find P xs = Some x \<Longrightarrow> x \<in> set xs \<and> P x"
  by (auto simp: find_Some_iff)

lemma settle_price_fault:
  assumes "market_settle_price env m payload = Inl (Err e)"
  shows "price_fault env m payload e"
proof (cases "lazer_verify_update env (lazer_contract m) payload")
  case (Inl f)
  then show ?thesis
    using assms by (cases f) (auto simp: market_settle_price_def err_simps map_err_def)
next
  case upd: (Inr upd)
  show ?thesis
  proof (cases "find (\<lambda>f. lf_feed_id f = feed_id m) (lu_feeds upd)")
    case None
    then have "e = FeedNotFound" using assms upd by (simp add: market_settle_price_def)
    then show ?thesis using None upd by (auto simp: find_None_iff)
  next
    case feed: (Some f)
    note hit = find_hit [OF feed]
    define ts where "ts = (case lf_feed_update_timestamp f of None \<Rightarrow> lu_timestamp upd | Some ts \<Rightarrow> ts)
          div 1000000"
    have fs: "feed_second upd f = unat ts"
      by (simp add: feed_second_def ts_def unat_div split: option.splits)
    have w: "unat PRICE_FRESHNESS_WINDOW_SECS = 300" by (simp add: PRICE_FRESHNESS_WINDOW_SECS_def)
    consider (payload) "e = InvalidPayload"
        "lf_price f = None \<or> (\<exists>p. lf_price f = Some p \<and> sint p \<le> 0) \<or> lf_exponent f = None"
      | (stale) "e = StalePrice" "unat ts + unat PRICE_FRESHNESS_WINDOW_SECS < 2 ^ 64"
          "ts + PRICE_FRESHNESS_WINDOW_SECS < expiry m"
      | (future) "e = FuturePrice" "unat (expiry m) + unat PRICE_FRESHNESS_WINDOW_SECS < 2 ^ 64"
          "expiry m + PRICE_FRESHNESS_WINDOW_SECS < ts"
      using assms upd feed unfolding market_settle_price_def
      by (auto simp: Let_def err_simps res_simps ts_def split: if_splits)
    then show ?thesis
    proof cases
      case payload
      then show ?thesis using upd hit by auto
    next
      case stale
      then have "unat ts + 300 < unat (expiry m)"
        using unat_word_add [of ts PRICE_FRESHNESS_WINDOW_SECS] by (simp add: word_less_nat_alt w)
      then show ?thesis using stale(1) upd hit fs by auto
    next
      case future
      then have "unat (expiry m) + 300 < unat ts"
        using unat_word_add [of "expiry m" PRICE_FRESHNESS_WINDOW_SECS]
        by (simp add: word_less_nat_alt w)
      then show ?thesis using future(1) upd hit fs by auto
    qed
  qed
qed

text \<open>The cause of a settlement error: the market's state, its price, or one oracle leg.\<close>

definition settle_fault ::
    "'tok Env \<Rightarrow> byte list \<Rightarrow> 'tok market_state \<Rightarrow> market_error \<Rightarrow> bool" where
  "settle_fault env payload s e = (case inst_market s of
      None \<Rightarrow> e = NotInitialized
    | Some m \<Rightarrow>
        e = AlreadyFinalized \<and> status m \<noteq> Open
      \<or> e = ExpiryNotReached \<and> status m = Open \<and> ledger_timestamp env < expiry m
      \<or> price_fault env m payload e
      \<or> (\<exists>cents. market_settle_price env m payload = Inr cents
          \<and> ((\<exists>d. e = reflector_error d \<and> leg_fault env (reflector m) (reflector_decimals_at_init m)
                (ledger_timestamp env) cents d)
            \<or> (\<exists>rs d. inst_redstone s = Some rs \<and> e = redstone_error d
                \<and> leg_fault env (config rs) (decimals_at_init rs) (ledger_timestamp env) cents d))))"

lemma market_credit_no_error [err_simps]: "market_credit p a v s \<noteq> Inl (Err e)"
  by (simp add: market_credit_def err_simps)

lemma load_market_Err [err_simps]:
  "load_market s = Inl (Err e) \<longleftrightarrow> inst_market s = None \<and> e = NotInitialized"
  by (auto simp: load_market_def err_simps)

lemma corroborate_fault:
  assumes "market_corroborate env m now cents s = Inl (Err e)"
  shows "(\<exists>d. e = reflector_error d
      \<and> leg_fault env (reflector m) (reflector_decimals_at_init m) now cents d)
    \<or> (\<exists>rs d. inst_redstone s = Some rs \<and> e = redstone_error d
      \<and> leg_fault env (config rs) (decimals_at_init rs) now cents d)"
  using assms unfolding market_corroborate_def load_redstone_oracle_def
  by (cases "inst_redstone s") (auto simp: err_simps dest: verify_fault)

text \<open>A typed error of a settlement names its true cause: the market was finalised or not
  expired, the payload, feed, price or stamp was bad, or the named oracle leg was unavailable,
  stale, of another precision or divergent.\<close>

theorem market_settle_errors:
  "case market_settle env payload s of
     Inl (Err e) \<Rightarrow> settle_fault env payload s e
   | _ \<Rightarrow> True"
proof (cases "market_settle env payload s")
  case (Inl f)
  show ?thesis
  proof (cases f)
    case (Err e)
    have "market_settle env payload s = Inl (Err e)" using Inl Err by simp
    then have "settle_fault env payload s e"
      unfolding market_settle_def settle_fault_def
      by (auto simp: err_simps res_simps Let_def split: if_splits option.splits
          dest!: settle_price_fault corroborate_fault)
    then show ?thesis using Inl Err by simp
  qed (simp add: Inl)
qed simp

section \<open>Cancellation\<close>

lemma grace_over:
  assumes "unat a + unat b \<le> unat (now :: u64)"
  shows "word_add a b = (Inr (a + b) :: (market_error, u64) res)" "\<not> now < a + b"
proof -
  have lt: "unat a + unat b < 2 ^ 64" proof -
    have "unat now < 2 ^ LENGTH(64)" by (rule unsigned_less)
    then show ?thesis using assms by simp
  qed
  then show "word_add a b = (Inr (a + b) :: (market_error, u64) res)" by (simp add: word_add_def)
  show "\<not> now < a + b" using assms unat_word_add [of a b] lt by (simp add: word_less_nat_alt not_less)
qed

lemma market_credit_total:
  assumes "in_i128 (market_balance_of s p a + v)"
  shows "\<exists>s'. market_credit p a v (s :: 'tok market_state) = Inr s'"
  using assms mkt.credit_Inr [of p a v s] by blast

text \<open>Handing the pools to the treasury never fails.\<close>

lemma treasury_credits:
  assumes "(market_step chain)\<^sup>*\<^sup>* s t" "market_fresh s" "inst_market t = Some m" "status m = Open"
    and "total_supply m \<le> i128_max"
  obtains s1 s2 where "market_credit Yes (treasury m) (pool_yes m) t = Inr s1"
    "market_credit No (treasury m) (pool_no m) s1 = Inr s2"
proof -
  let ?h = "market_balance_of t"
  have ok: "book_ok (book_view m ?h)" by (rule reach_facts(1) [OF assms(1-3)])
  note pools = open_book [OF ok assms(4)]
  have nn: "0 \<le> ?h p a" for p a using ok by (simp add: book_ok_def book_view_def)
  have le: "?h p a \<le> fsum (?h p)" for p a
    using ok by (intro le_fsum) (auto simp: book_ok_def finite_holdings_def book_view_def)
  have range: "in_i128 (?h Yes (treasury m) + pool_yes m)" "in_i128 (?h No (treasury m) + pool_no m)"
    using nn [of Yes "treasury m"] nn [of No "treasury m"] le [of Yes "treasury m"]
      le [of No "treasury m"] pools assms(5) unfolding in_i128_def i128_min_def by linarith+
  obtain s1 where s1: "market_credit Yes (treasury m) (pool_yes m) t = Inr s1"
    using market_credit_total [OF range(1)] by blast
  have "in_i128 (market_balance_of s1 No (treasury m) + pool_no m)"
    using range(2) by (simp add: market_credit_effect [OF s1] add_shares_apply)
  then show thesis using market_credit_total that [OF s1] by blast
qed

text \<open>C11: The backstop works: at or after \<open>expiry + grace_period\<close> anyone, without any
  signature or oracle, can cancel a market that is still open; the pools become the treasury's
  shares, no collateral moves and \<open>total_supply\<close> stays.  Before that moment, and on a finalised
  market, the call is rejected with its error.\<close>

theorem market_cancel_backstop:
  assumes "(market_step chain)\<^sup>*\<^sup>* s t" "market_fresh s" "inst_market t = Some m"
    and "total_supply m \<le> i128_max" "unat (expiry m) + unat (grace_period m) < 2 ^ 64"
  shows "case market_cancel env t of
      Inr (_, u) \<Rightarrow> status m = Open
        \<and> unat (expiry m) + unat (grace_period m) \<le> unat (ledger_timestamp env)
        \<and> inst_market u = Some (m\<lparr>pool_yes := 0, pool_no := 0, status := Cancelled\<rparr>)
        \<and> market_balance_of u = add_shares (add_shares (market_balance_of t) Yes (treasury m)
            (pool_yes m)) No (treasury m) (pool_no m)
        \<and> tokens u = tokens t
    | Inl (Err e) \<Rightarrow> e = AlreadyFinalized \<and> status m \<noteq> Open
        \<or> e = GracePeriodNotElapsed \<and> status m = Open
          \<and> unat (ledger_timestamp env) < unat (expiry m) + unat (grace_period m)
    | Inl Trap \<Rightarrow> False"
proof (cases "status m = Open")
  case False
  then show ?thesis using assms(3) by (simp add: market_cancel_def load_market_def)
next
  case op: True
  show ?thesis
  proof (cases "unat (expiry m) + unat (grace_period m) \<le> unat (ledger_timestamp env)")
    case False
    then show ?thesis
      using op assms(3,5) unat_word_add [of "expiry m" "grace_period m"]
      by (simp add: market_cancel_def load_market_def word_add_def word_less_nat_alt)
  next
    case True
    obtain s1 s2 where s1: "market_credit Yes (treasury m) (pool_yes m) t = Inr s1"
      and s2: "market_credit No (treasury m) (pool_no m) s1 = Inr s2"
      by (rule treasury_credits [OF assms(1-3) op assms(4)])
    note e1 = market_credit_effect [OF s1]
    note e2 = market_credit_effect [OF s2]
    show ?thesis
      using op assms(3) True grace_over [OF True] s1 s2 e1 e2
      by (simp add: market_cancel_def load_market_def Let_def)
  qed
qed

lemma market_cancel_backstop_witness:
  "case market_cancel (sample_env 1090000 0) sample_open of Inr _ \<Rightarrow> True | Inl (Err _) \<Rightarrow> False | Inl Trap \<Rightarrow> False"
  using market_cancel_backstop [OF sample_reach sample_fresh_ok, of sample_market "sample_env 1090000 0"]
  by (simp add: sample_open_def sample_market_def i128_max_def sample_env_def
      split: sum.splits failure.splits)

text \<open>When \<open>expiry + grace_period\<close> does not fit 64 bits, which \<open>initialize\<close> accepts, no
  one can ever cancel the market: the call traps at every ledger time.\<close>

theorem market_cancel_overflow:
  assumes "inst_market s = Some m" "status m = Open"
    and "2 ^ 64 \<le> unat (expiry m) + unat (grace_period m)"
  shows "market_cancel env s = Inl Trap"
  using assms by (simp add: market_cancel_def load_market_def word_add_def)

definition sample_unbounded :: "ledger market_state" where
  "sample_unbounded = sample_open\<lparr>inst_market := Some (sample_market\<lparr>grace_period := 18446744073709551615\<rparr>)\<rparr>"

lemma market_cancel_overflow_witness:
  "market_exec (sample_env 1000000 0) (CallInitialize 10 5 100000 1086400 18446744073709551615 6 100 100 20 11
      10000 sample_feed None) sample_fresh = Inr sample_unbounded
    \<and> market_cancel (sample_env (- 1) 0) sample_unbounded = Inl Trap"
proof
  show "market_exec (sample_env 1000000 0) (CallInitialize 10 5 100000 1086400 18446744073709551615 6 100 100 20 11
      10000 sample_feed None) sample_fresh = Inr sample_unbounded"
    by (simp add: sample_defs sample_unbounded_def market_initialize_def market_eval fun_eq_iff)
  show "market_cancel (sample_env (- 1) 0) sample_unbounded = Inl Trap"
    by (rule market_cancel_overflow [where m = "sample_market\<lparr>grace_period := 18446744073709551615\<rparr>"])
      (simp_all add: sample_unbounded_def sample_open_def sample_market_def)
qed

section \<open>Lifecycle\<close>

text \<open>What one call may change of a market: never its configuration, and its status only from
  open to an end.\<close>

definition keeps_config :: "Market \<Rightarrow> Market \<Rightarrow> bool" where
  "keeps_config m m' \<longleftrightarrow> m' = m\<lparr>status := status m', final_price := final_price m',
     pool_yes := pool_yes m', pool_no := pool_no m', total_supply := total_supply m'\<rparr>"

definition keeps_end :: "Market \<Rightarrow> Market \<Rightarrow> bool" where
  "keeps_end m m' \<longleftrightarrow> status m' = status m \<and> final_price m' = final_price m
     \<and> (status m = Open \<or> pool_yes m' = pool_yes m \<and> pool_no m' = pool_no m)"

lemma keeps_supply: "keeps_config m (m\<lparr>total_supply := n\<rparr>)" "keeps_end m (m\<lparr>total_supply := n\<rparr>)"
  by (simp_all add: keeps_config_def keeps_end_def)

lemma keeps_refl: "keeps_config m m" "keeps_end m m"
  by (simp_all add: keeps_config_def keeps_end_def)

lemma keeps_reserves:
  "keeps_config m (market_set_reserve p x (market_set_reserve q y (m\<lparr>total_supply := n\<rparr>)))"
  "status m = Open \<Longrightarrow>
    keeps_end m (market_set_reserve p x (market_set_reserve q y (m\<lparr>total_supply := n\<rparr>)))"
  "keeps_config m ((market_set_reserve p x (market_set_reserve q y m))\<lparr>total_supply := n\<rparr>)"
  "status m = Open \<Longrightarrow>
    keeps_end m ((market_set_reserve p x (market_set_reserve q y m))\<lparr>total_supply := n\<rparr>)"
  by (cases p; cases q; simp add: keeps_config_def keeps_end_def)+

definition ends_market :: "'tok Env \<Rightarrow> market_call \<Rightarrow> Market \<Rightarrow> Market \<Rightarrow> bool" where
  "ends_market env c m m' \<longleftrightarrow> status m = Open \<and> pool_yes m' = 0 \<and> pool_no m' = 0
     \<and> total_supply m' = total_supply m
     \<and> (c = CallCancel \<and> status m' = Cancelled
           \<and> unat (expiry m) + unat (grace_period m) \<le> unat (ledger_timestamp env)
       \<or> (\<exists>payload. c = CallSettle payload) \<and> expiry m \<le> ledger_timestamp env
           \<and> status m' = (if strike_price m \<le> final_price m' then ResolvedYes else ResolvedNo))"

text \<open>C12: No call changes a market's configuration or its pinned oracle legs.  The status
  changes only in \<open>settle\<close>, from the expiry on and as the strike decides, and in \<open>cancel\<close>, after
  the grace period; an ended market keeps its outcome, its final price and its empty pools, and
  every trade happens in an open market before its expiry.\<close>

theorem market_lifecycle:
  assumes "market_exec env c s = Inr t" "inst_market s = Some m"
  shows "\<exists>m'. inst_market t = Some m' \<and> keeps_config m m' \<and> inst_redstone t = inst_redstone s
    \<and> (keeps_end m m' \<or> ends_market env c m m')
    \<and> (case c of CallBuy _ _ _ _ \<Rightarrow> status m = Open \<and> ledger_timestamp env < expiry m
        | CallSell _ _ _ _ \<Rightarrow> status m = Open \<and> ledger_timestamp env < expiry m
        | CallSplit _ _ \<Rightarrow> status m = Open
        | CallMerge _ _ \<Rightarrow> status m = Open
        | CallRedeem _ \<Rightarrow> status m \<noteq> Open
        | CallInitialize _ _ _ _ _ _ _ _ _ _ _ _ _ \<Rightarrow> False
        | _ \<Rightarrow> True)"
  using assms
  by (cases c) (auto simp: res_simps keeps_supply keeps_reserves keeps_refl
      ends_market_def keeps_config_def [of m "m\<lparr>final_price := x, status := y, pool_yes := 0, pool_no := 0\<rparr>" for x y]
      keeps_config_def [of m "m\<lparr>pool_yes := 0, pool_no := 0, status := y\<rparr>" for y]
      elim!: market_split_effect market_merge_effect market_buy_effect market_sell_effect
        market_transfer_effect market_settle_effect market_cancel_effect market_redeem_effect
        market_initialize_effect)

lemma market_lifecycle_witness:
  "\<exists>m'. inst_market sample_traded = Some m' \<and> keeps_config sample_market m'
    \<and> inst_redstone sample_traded = inst_redstone sample_open
    \<and> (keeps_end sample_market m' \<or> ends_market (sample_env 1000000 0) (CallSplit 12 300) sample_market m')
    \<and> status sample_market = Open"
  using market_lifecycle [OF sample_split, of sample_market] by (simp add: sample_open_def)

end
