(* ===== verification/Market_Errors.thy ===== *)
theory Market_Errors
  imports Market_Settlement
begin

text \<open>
  The typed errors of the market.  For every entry point, what each error it can return says about
  the call, the state and the environment, in terms of the quantities a caller sees: balances,
  quotes, payouts, times without wrap-around.
\<close>

section \<open>Causes\<close>






section \<open>Every error names its cause\<close>

lemma market_debit_Err [err_simps]:
  "market_debit p a v s = Inl (Err e) \<longleftrightarrow> market_balance_of s p a < v \<and> e = InsufficientBalance"
  by (auto simp: market_debit_def Let_def err_simps)

lemma market_small_no_error [err_simps]:
  "require_auth env a \<noteq> Inl (Err x)" "market_pay env c from to n s \<noteq> Inl (Err e)"
  by (simp_all add: require_auth_def market_pay_def err_simps)

lemma math_no_error [err_simps]:
  "cpmm_out rin rout ein \<noteq> Inl (Err e)" "apply_fee n fee \<noteq> Inl (Err e)"
  "market_effective_fee_bps m \<noteq> Inl (Err f)"
  by (simp_all add: cpmm_out_def apply_fee_def market_effective_fee_bps_def effective_fee_bps_def err_simps
      Let_def)

lemma isqrt_loop_no_error [err_simps]: "isqrt_loop n x y \<noteq> (Inl (Err e) :: ('e, int) res)"
proof (induction n x y rule: isqrt_loop.induct [where 'a = 'e])
  case (1 n x y)
  show ?case
  proof (cases "y < x")
    case True
    then have eq: "isqrt_loop n x y = bindr (i128_div n y) (\<lambda>q. bindr (i128_add y q) (\<lambda>s.
        bindr (i128_div s 2) (\<lambda>y'. isqrt_loop n y y')))"
      by (subst isqrt_loop.simps) simp
    show ?thesis unfolding eq using 1 [OF True] by (auto simp: bindr_eq_Err i128_ops_eq_Err)
  next
    case False
    then show ?thesis by (subst isqrt_loop.simps) simp
  qed
qed

lemma cpmm_sell_no_error [err_simps]: "cpmm_sell_out rin rout ein \<noteq> Inl (Err e)"
  by (simp add: cpmm_sell_out_def isqrt_def err_simps)















end
