(* ===== verification/Perpetual.thy ===== *)
theory Perpetual
  imports Oracle Book
begin

text \<open>
  The perpetual market contract, \<open>contracts/perpetual/src/lib.rs\<close>: the same share ledger, pools
  and trades as the market without a strike or an expiry, an oracle-checked price checkpoint
  that only records a number, and the admin's wind-down.  The contract is modelled from its own
  source; what it shares with the market in the code (the math, the oracle check) it shares here.
\<close>

section \<open>Constants and errors\<close>

definition PERP_MAX_FEE_BPS :: u32 where
  "PERP_MAX_FEE_BPS = 1000"

definition PERP_FRESHNESS_WINDOW_SECS :: u64 where
  "PERP_FRESHNESS_WINDOW_SECS = 300"

definition PERP_BUMP_TO :: nat where
  "PERP_BUMP_TO = 535680"

definition PERP_BUMP_THRESHOLD :: nat where
  "PERP_BUMP_THRESHOLD = 500000"

datatype perp_error =
    NotInitialized | AlreadyInitialized | InvalidFeeBps | InvalidLiquidity | InvalidFeedId
  | MarketNotOpen | InvalidAmount | InsufficientBalance | SlippageExceeded | PoolDepthExceeded
  | NotFinalized | NothingToRedeem | AlreadyFinalized | Unauthorized | PriceOracleNotConfigured
  | InvalidPayload | FeedNotFound | StalePrice | FuturePrice
  | ReflectorPriceUnavailable | ReflectorPriceStale | ReflectorDecimalsInvalid
  | OracleDivergence | InvalidReflectorConfig | ReflectorDecimalsChanged
  | RedstonePriceUnavailable | RedstonePriceStale | RedstoneDecimalsInvalid
  | RedstoneDecimalsChanged | InvalidRedstoneConfig

text \<open>The discriminants, which are what a client of the contract sees, and the derived order.\<close>

fun perp_error_code :: "perp_error \<Rightarrow> nat" where
  "perp_error_code NotInitialized = 1"
| "perp_error_code AlreadyInitialized = 2"
| "perp_error_code InvalidFeeBps = 3"
| "perp_error_code InvalidLiquidity = 4"
| "perp_error_code InvalidFeedId = 5"
| "perp_error_code MarketNotOpen = 6"
| "perp_error_code InvalidAmount = 7"
| "perp_error_code InsufficientBalance = 8"
| "perp_error_code SlippageExceeded = 9"
| "perp_error_code PoolDepthExceeded = 10"
| "perp_error_code NotFinalized = 11"
| "perp_error_code NothingToRedeem = 12"
| "perp_error_code AlreadyFinalized = 13"
| "perp_error_code Unauthorized = 14"
| "perp_error_code PriceOracleNotConfigured = 15"
| "perp_error_code InvalidPayload = 16"
| "perp_error_code FeedNotFound = 17"
| "perp_error_code StalePrice = 18"
| "perp_error_code FuturePrice = 19"
| "perp_error_code ReflectorPriceUnavailable = 20"
| "perp_error_code ReflectorPriceStale = 21"
| "perp_error_code ReflectorDecimalsInvalid = 22"
| "perp_error_code OracleDivergence = 23"
| "perp_error_code InvalidReflectorConfig = 24"
| "perp_error_code ReflectorDecimalsChanged = 25"
| "perp_error_code RedstonePriceUnavailable = 26"
| "perp_error_code RedstonePriceStale = 27"
| "perp_error_code RedstoneDecimalsInvalid = 28"
| "perp_error_code RedstoneDecimalsChanged = 29"
| "perp_error_code InvalidRedstoneConfig = 30"

lemma perp_error_code_inject [simp]: "perp_error_code a = perp_error_code b \<longleftrightarrow> a = b"
  by (cases a) (cases b; simp)+

instantiation perp_error :: linorder
begin

definition less_eq_perp_error :: "perp_error \<Rightarrow> perp_error \<Rightarrow> bool" where
  "less_eq_perp_error a b \<longleftrightarrow> perp_error_code a \<le> perp_error_code b"

definition less_perp_error :: "perp_error \<Rightarrow> perp_error \<Rightarrow> bool" where
  "less_perp_error a b \<longleftrightarrow> perp_error_code a < perp_error_code b"

instance
  by standard (auto simp: less_eq_perp_error_def less_perp_error_def)

end

section \<open>Data\<close>

datatype PerpetualStatus = Open | Terminated

record PriceOracleConfig =
  lazer_contract :: Address
  feed_id :: u32
  reflector :: OracleFeedConfig
  reflector_decimals_at_init :: u32
  redstone :: OracleFeedConfig
  redstone_decimals_at_init :: u32

record Perpetual =
  admin :: Address
  collateral :: Address
  base_fee_bps :: u32
  min_fee_bps :: u32
  treasury :: Address
  status :: PerpetualStatus
  pool_yes :: int
  pool_no :: int
  total_supply :: int
  initial_liquidity :: int
  last_price_cents :: int
  last_price_at :: u64

datatype perp_event =
    InitEvent int
  | SplitEvent Address int
  | MergeEvent Address int
  | BuyEvent Address Prediction int int
  | SellEvent Address Prediction int int
  | TransferEvent Address Address Prediction int
  | CheckpointEvent int u64
  | TerminateEvent
  | RedeemEvent Address int

text \<open>One field per \<open>DataKey\<close>: \<open>Market\<close> and \<open>PriceOracle\<close> in instance storage,
  \<open>Balance(side, addr)\<close> in persistent storage.\<close>

record perp_store =
  inst_market :: "Perpetual option"
  inst_price_oracle :: "PriceOracleConfig option"
  balances :: "Prediction \<times> Address \<rightharpoonup> int"
  inst_ttl :: nat
  balance_ttl :: "Prediction \<times> Address \<Rightarrow> nat"
  events :: "perp_event list"

record 'tok perp_state = perp_store +
  tokens :: 'tok

section \<open>Storage helpers\<close>

definition perp_touch :: "'a perp_store_scheme \<Rightarrow> 'a perp_store_scheme" where
  "perp_touch st = st\<lparr>inst_ttl := extend_ttl PERP_BUMP_THRESHOLD PERP_BUMP_TO (inst_ttl st)\<rparr>"

definition perp_load_market :: "'a perp_store_scheme \<Rightarrow> (perp_error, Perpetual) res" where
  "perp_load_market st = ok_or NotInitialized (inst_market st)"

definition perp_save_market :: "Perpetual \<Rightarrow> 'a perp_store_scheme \<Rightarrow> 'a perp_store_scheme" where
  "perp_save_market m st = perp_touch (st\<lparr>inst_market := Some m\<rparr>)"

definition load_price_oracle :: "'a perp_store_scheme \<Rightarrow> PriceOracleConfig option" where
  "load_price_oracle st = inst_price_oracle st"

definition perp_balance_of ::
    "'a perp_store_scheme \<Rightarrow> Prediction \<Rightarrow> Address \<Rightarrow> int" where
  "perp_balance_of st side addr =
     (case balances st (side, addr) of None \<Rightarrow> 0 | Some b \<Rightarrow> b)"

definition perp_set_balance ::
    "Prediction \<Rightarrow> Address \<Rightarrow> int \<Rightarrow> 'a perp_store_scheme \<Rightarrow> 'a perp_store_scheme" where
  "perp_set_balance side addr amount st =
     (if amount = 0 then st\<lparr>balances := (balances st)((side, addr) := None),
              balance_ttl := (balance_ttl st)((side, addr) := 0)\<rparr>
      else st\<lparr>balances := (balances st)((side, addr) \<mapsto> amount),
              balance_ttl := (balance_ttl st)((side, addr) :=
                extend_ttl PERP_BUMP_THRESHOLD PERP_BUMP_TO (balance_ttl st (side, addr)))\<rparr>)"

definition perp_credit ::
    "Prediction \<Rightarrow> Address \<Rightarrow> int \<Rightarrow> 'a perp_store_scheme \<Rightarrow>
      (perp_error, 'a perp_store_scheme) res" where
  "perp_credit side addr amount st =
     (let b = perp_balance_of st side addr in
      bindr (i128_add b amount) (\<lambda>s. Inr (perp_set_balance side addr s st)))"

definition perp_debit ::
    "Prediction \<Rightarrow> Address \<Rightarrow> int \<Rightarrow> 'a perp_store_scheme \<Rightarrow>
      (perp_error, 'a perp_store_scheme) res" where
  "perp_debit side addr amount st =
     (let b = perp_balance_of st side addr in
      if b < amount then Inl (Err InsufficientBalance)
      else bindr (i128_sub b amount) (\<lambda>s. Inr (perp_set_balance side addr s st)))"

definition perp_effective_fee_bps :: "Perpetual \<Rightarrow> (perp_error, u32) res" where
  "perp_effective_fee_bps m =
     effective_fee_bps (base_fee_bps m) (min_fee_bps m) (initial_liquidity m) (total_supply m)"

fun perp_reserves :: "Perpetual \<Rightarrow> Prediction \<Rightarrow> int \<times> int" where
  "perp_reserves m Yes = (pool_yes m, pool_no m)"
| "perp_reserves m No = (pool_no m, pool_yes m)"

fun perp_set_reserve :: "Prediction \<Rightarrow> int \<Rightarrow> Perpetual \<Rightarrow> Perpetual" where
  "perp_set_reserve Yes v m = m\<lparr>pool_yes := v\<rparr>"
| "perp_set_reserve No v m = m\<lparr>pool_no := v\<rparr>"

text \<open>The token client and the event log, as the entry points use them.\<close>

definition perp_pay ::
    "'tok Env \<Rightarrow> Address \<Rightarrow> Address \<Rightarrow> Address \<Rightarrow> int \<Rightarrow> 'tok perp_state \<Rightarrow>
      (perp_error, 'tok perp_state) res" where
  "perp_pay env token from to amount st =
     bindr (sub_call (token_transfer env token from to amount (tokens st)))
       (\<lambda>t. Inr (st\<lparr>tokens := t\<rparr>))"

definition perp_publish ::
    "perp_event \<Rightarrow> 'a perp_store_scheme \<Rightarrow> 'a perp_store_scheme" where
  "perp_publish e st = st\<lparr>events := events st @ [e]\<rparr>"

section \<open>Initialisation\<close>

definition perp_initialize ::
    "'tok Env \<Rightarrow> Address \<Rightarrow> Address \<Rightarrow> u32 \<Rightarrow> u32 \<Rightarrow> Address \<Rightarrow> int \<Rightarrow> PriceOracleConfig option \<Rightarrow>
      'tok perp_state \<Rightarrow> (perp_error, unit \<times> 'tok perp_state) res" where
  "perp_initialize env adm coll base_fee min_fee treas liquidity price_oracle st =
     bindr (require_auth env adm) (\<lambda>_.
     if inst_market st \<noteq> None then Inl (Err AlreadyInitialized) else
     if PERP_MAX_FEE_BPS < base_fee \<or> base_fee < min_fee then Inl (Err InvalidFeeBps) else
     if liquidity \<le> 0 then Inl (Err InvalidLiquidity) else
     bindr (case price_oracle of
         None \<Rightarrow> Inr st
       | Some oracle \<Rightarrow>
           if feed_id oracle = 0 then Inl (Err InvalidFeedId) else
           bindr (sub_call (sep40_resolution env (contract (reflector oracle)))) (\<lambda>resolution.
           if max_staleness_secs (reflector oracle) < ucast resolution
           then Inl (Err InvalidReflectorConfig) else
           bindr (sub_call (sep40_decimals env (contract (reflector oracle)))) (\<lambda>rf_decimals.
           if \<not> (2 \<le> rf_decimals \<and> rf_decimals \<le> 30) then Inl (Err ReflectorDecimalsInvalid) else
           bindr (sub_call (sep40_resolution env (contract (redstone oracle)))) (\<lambda>rs_resolution.
           if max_staleness_secs (redstone oracle) < ucast rs_resolution
           then Inl (Err InvalidRedstoneConfig) else
           bindr (sub_call (sep40_decimals env (contract (redstone oracle)))) (\<lambda>rs_decimals.
           if \<not> (2 \<le> rs_decimals \<and> rs_decimals \<le> 30) then Inl (Err RedstoneDecimalsInvalid) else
           Inr (st\<lparr>inst_price_oracle := Some (oracle\<lparr>reflector_decimals_at_init := rf_decimals,
             redstone_decimals_at_init := rs_decimals\<rparr>)\<rparr>)))))) (\<lambda>st.
     bindr (perp_pay env coll adm (current_contract_address env) liquidity st) (\<lambda>st.
     let market = \<lparr>admin = adm, collateral = coll, base_fee_bps = base_fee, min_fee_bps = min_fee,
           treasury = treas, status = Open, pool_yes = liquidity, pool_no = liquidity,
           total_supply = liquidity, initial_liquidity = liquidity, last_price_cents = 0,
           last_price_at = 0\<rparr>;
         st = perp_save_market market st
     in Inr ((), perp_publish (InitEvent liquidity) st))))"

section \<open>Minting and burning pairs\<close>

definition perp_split ::
    "'tok Env \<Rightarrow> Address \<Rightarrow> int \<Rightarrow> 'tok perp_state \<Rightarrow>
      (perp_error, unit \<times> 'tok perp_state) res" where
  "perp_split env user amount st =
     bindr (require_auth env user) (\<lambda>_.
     bindr (perp_load_market st) (\<lambda>m.
     if status m \<noteq> Open then Inl (Err MarketNotOpen) else
     if amount \<le> 0 then Inl (Err InvalidAmount) else
     bindr (perp_pay env (collateral m) user (current_contract_address env) amount st) (\<lambda>st.
     bindr (perp_credit Yes user amount st) (\<lambda>st.
     bindr (perp_credit No user amount st) (\<lambda>st.
     bindr (i128_add (total_supply m) amount) (\<lambda>ts.
     let st = perp_save_market (m\<lparr>total_supply := ts\<rparr>) st
     in Inr ((), perp_publish (SplitEvent user amount) st)))))))"

definition perp_merge ::
    "'tok Env \<Rightarrow> Address \<Rightarrow> int \<Rightarrow> 'tok perp_state \<Rightarrow>
      (perp_error, unit \<times> 'tok perp_state) res" where
  "perp_merge env user amount st =
     bindr (require_auth env user) (\<lambda>_.
     bindr (perp_load_market st) (\<lambda>m.
     if status m \<noteq> Open then Inl (Err MarketNotOpen) else
     if amount \<le> 0 then Inl (Err InvalidAmount) else
     bindr (perp_debit Yes user amount st) (\<lambda>st.
     bindr (perp_debit No user amount st) (\<lambda>st.
     bindr (perp_pay env (collateral m) (current_contract_address env) user amount st) (\<lambda>st.
     bindr (i128_sub (total_supply m) amount) (\<lambda>ts.
     let st = perp_save_market (m\<lparr>total_supply := ts\<rparr>) st
     in Inr ((), perp_publish (MergeEvent user amount) st)))))))"

section \<open>Trading\<close>

definition perp_buy ::
    "'tok Env \<Rightarrow> Address \<Rightarrow> Prediction \<Rightarrow> int \<Rightarrow> int \<Rightarrow> 'tok perp_state \<Rightarrow>
      (perp_error, int \<times> 'tok perp_state) res" where
  "perp_buy env user prediction collateral_amount min_shares_out st =
     bindr (require_auth env user) (\<lambda>_.
     bindr (perp_load_market st) (\<lambda>m.
     if status m \<noteq> Open then Inl (Err MarketNotOpen) else
     if collateral_amount \<le> 0 then Inl (Err InvalidAmount) else
     let unwanted = other prediction;
         (reserve_in, reserve_out) = perp_reserves m unwanted in
     bindr (perp_effective_fee_bps m) (\<lambda>fee.
     bindr (apply_fee collateral_amount fee) (\<lambda>effective_in.
     bindr (cpmm_out reserve_in reserve_out effective_in) (\<lambda>amount_out.
     bindr (i128_mul amount_out 2) (\<lambda>twice.
     if reserve_out \<le> twice then Inl (Err PoolDepthExceeded) else
     if amount_out < min_shares_out then Inl (Err SlippageExceeded) else
     bindr (perp_pay env (collateral m) user (current_contract_address env)
       collateral_amount st) (\<lambda>st.
     bindr (perp_credit Yes user collateral_amount st) (\<lambda>st.
     bindr (perp_credit No user collateral_amount st) (\<lambda>st.
     bindr (i128_add (total_supply m) collateral_amount) (\<lambda>ts.
     let m = m\<lparr>total_supply := ts\<rparr> in
     bindr (perp_debit unwanted user collateral_amount st) (\<lambda>st.
     bindr (i128_add reserve_in collateral_amount) (\<lambda>new_in.
     let m = perp_set_reserve unwanted new_in m in
     bindr (i128_sub reserve_out amount_out) (\<lambda>new_out.
     let m = perp_set_reserve prediction new_out m in
     bindr (perp_credit prediction user amount_out st) (\<lambda>st.
     let st = perp_save_market m st;
         st = perp_publish (BuyEvent user prediction collateral_amount amount_out) st in
     bindr (i128_add collateral_amount amount_out) (\<lambda>total.
     Inr (total, st))))))))))))))))"

definition perp_sell ::
    "'tok Env \<Rightarrow> Address \<Rightarrow> Prediction \<Rightarrow> int \<Rightarrow> int \<Rightarrow> 'tok perp_state \<Rightarrow>
      (perp_error, int \<times> 'tok perp_state) res" where
  "perp_sell env user prediction shares_in min_collateral_out st =
     bindr (require_auth env user) (\<lambda>_.
     bindr (perp_load_market st) (\<lambda>m.
     if status m \<noteq> Open then Inl (Err MarketNotOpen) else
     if shares_in \<le> 0 then Inl (Err InvalidAmount) else
     if perp_balance_of st prediction user < shares_in then Inl (Err InsufficientBalance) else
     let opposite = other prediction;
         (reserve_in, reserve_out) = perp_reserves m prediction in
     bindr (perp_effective_fee_bps m) (\<lambda>fee.
     bindr (apply_fee shares_in fee) (\<lambda>effective_in.
     bindr (cpmm_sell_out reserve_in reserve_out effective_in) (\<lambda>collateral_out.
     bindr (i128_mul collateral_out 2) (\<lambda>twice.
     if reserve_out \<le> twice then Inl (Err PoolDepthExceeded) else
     if collateral_out \<le> 0 \<or> collateral_out < min_collateral_out
     then Inl (Err SlippageExceeded) else
     bindr (perp_debit prediction user shares_in st) (\<lambda>st.
     bindr (i128_add reserve_in shares_in) (\<lambda>gross_in.
     bindr (i128_sub gross_in collateral_out) (\<lambda>new_in.
     let m = perp_set_reserve prediction new_in m in
     bindr (i128_sub reserve_out collateral_out) (\<lambda>new_out.
     let m = perp_set_reserve opposite new_out m in
     bindr (perp_pay env (collateral m) (current_contract_address env) user
       collateral_out st) (\<lambda>st.
     bindr (i128_sub (total_supply m) collateral_out) (\<lambda>ts.
     let st = perp_save_market (m\<lparr>total_supply := ts\<rparr>) st
     in Inr (collateral_out,
          perp_publish (SellEvent user prediction shares_in collateral_out) st)))))))))))))"

definition perp_transfer ::
    "'tok Env \<Rightarrow> Address \<Rightarrow> Address \<Rightarrow> Prediction \<Rightarrow> int \<Rightarrow> 'tok perp_state \<Rightarrow>
      (perp_error, unit \<times> 'tok perp_state) res" where
  "perp_transfer env from to prediction amount st =
     bindr (require_auth env from) (\<lambda>_.
     bindr (perp_load_market st) (\<lambda>_.
     if amount \<le> 0 then Inl (Err InvalidAmount) else
     bindr (perp_debit prediction from amount st) (\<lambda>st.
     bindr (perp_credit prediction to amount st) (\<lambda>st.
     Inr ((), perp_publish (TransferEvent from to prediction amount) st)))))"

section \<open>The price checkpoint\<close>

fun perp_reflector_error :: "OracleCheckError \<Rightarrow> perp_error" where
  "perp_reflector_error Unavailable = ReflectorPriceUnavailable"
| "perp_reflector_error Stale = ReflectorPriceStale"
| "perp_reflector_error DecimalsInvalid = ReflectorDecimalsInvalid"
| "perp_reflector_error DecimalsChanged = ReflectorDecimalsChanged"
| "perp_reflector_error Divergent = OracleDivergence"

fun perp_redstone_error :: "OracleCheckError \<Rightarrow> perp_error" where
  "perp_redstone_error Unavailable = RedstonePriceUnavailable"
| "perp_redstone_error Stale = RedstonePriceStale"
| "perp_redstone_error DecimalsInvalid = RedstoneDecimalsInvalid"
| "perp_redstone_error DecimalsChanged = RedstoneDecimalsChanged"
| "perp_redstone_error Divergent = OracleDivergence"

text \<open>The part of \<open>record_price_checkpoint\<close> that reads the verified update and converts its
  price; the stamp is compared with the time of the call.\<close>

definition perp_checkpoint_price ::
    "'tok Env \<Rightarrow> PriceOracleConfig \<Rightarrow> u64 \<Rightarrow> byte list \<Rightarrow> (perp_error, int) res" where
  "perp_checkpoint_price env oracle now payload =
     bindr (map_err (\<lambda>_. InvalidPayload) (lazer_verify_update env (lazer_contract oracle) payload))
       (\<lambda>verified.
     bindr (ok_or FeedNotFound (find (\<lambda>f. lf_feed_id f = feed_id oracle) (lu_feeds verified))) (\<lambda>feed.
     bindr (ok_or InvalidPayload (lf_price feed)) (\<lambda>price.
     if sint price \<le> 0 then Inl (Err InvalidPayload) else
     bindr (ok_or InvalidPayload (lf_exponent feed)) (\<lambda>exponent.
     let feed_ts_micros = (case lf_feed_update_timestamp feed of
           None \<Rightarrow> lu_timestamp verified | Some ts \<Rightarrow> ts);
         feed_ts_secs = feed_ts_micros div 1000000 in
     bindr (word_add feed_ts_secs PERP_FRESHNESS_WINDOW_SECS) (\<lambda>latest.
     if latest < now then Inl (Err StalePrice) else
     bindr (word_add now PERP_FRESHNESS_WINDOW_SECS) (\<lambda>bound.
     if bound < feed_ts_secs then Inl (Err FuturePrice) else
     to_cents price exponent))))))"

definition perp_record_price_checkpoint ::
    "'tok Env \<Rightarrow> byte list \<Rightarrow> 'tok perp_state \<Rightarrow> (perp_error, unit \<times> 'tok perp_state) res" where
  "perp_record_price_checkpoint env payload st =
     bindr (perp_load_market st) (\<lambda>m.
     bindr (ok_or PriceOracleNotConfigured (load_price_oracle st)) (\<lambda>oracle.
     let now = ledger_timestamp env in
     bindr (perp_checkpoint_price env oracle now payload) (\<lambda>final_cents.
     bindr (map_err perp_reflector_error (verify_oracle_corroboration env (reflector oracle)
       (reflector_decimals_at_init oracle) now final_cents)) (\<lambda>_.
     bindr (map_err perp_redstone_error (verify_oracle_corroboration env (redstone oracle)
       (redstone_decimals_at_init oracle) now final_cents)) (\<lambda>_.
     let m = m\<lparr>last_price_cents := final_cents, last_price_at := now\<rparr>;
         st = perp_save_market m st
     in Inr ((), perp_publish (CheckpointEvent final_cents now) st))))))"

section \<open>Wind-down\<close>

definition perp_terminate ::
    "'tok Env \<Rightarrow> Address \<Rightarrow> 'tok perp_state \<Rightarrow> (perp_error, unit \<times> 'tok perp_state) res" where
  "perp_terminate env adm st =
     bindr (perp_load_market st) (\<lambda>m.
     if admin m \<noteq> adm then Inl (Err Unauthorized) else
     bindr (require_auth env adm) (\<lambda>_.
     if status m \<noteq> Open then Inl (Err AlreadyFinalized) else
     bindr (perp_credit Yes (treasury m) (pool_yes m) st) (\<lambda>st.
     bindr (perp_credit No (treasury m) (pool_no m) st) (\<lambda>st.
     let m = m\<lparr>pool_yes := 0, pool_no := 0, status := Terminated\<rparr>;
         st = perp_save_market m st
     in Inr ((), perp_publish TerminateEvent st)))))"

definition perp_clear_balances ::
    "Address \<Rightarrow> 'a perp_store_scheme \<Rightarrow> 'a perp_store_scheme" where
  "perp_clear_balances user st = perp_set_balance No user 0 (perp_set_balance Yes user 0 st)"

definition perp_redeem ::
    "'tok Env \<Rightarrow> Address \<Rightarrow> 'tok perp_state \<Rightarrow> (perp_error, int \<times> 'tok perp_state) res" where
  "perp_redeem env user st =
     bindr (require_auth env user) (\<lambda>_.
     bindr (perp_load_market st) (\<lambda>m.
     if status m \<noteq> Terminated then Inl (Err NotFinalized) else
     let by = perp_balance_of st Yes user;
         bn = perp_balance_of st No user;
         st = perp_clear_balances user st in
     bindr (i128_add by bn) (\<lambda>both.
     bindr (i128_div both 2) (\<lambda>payout.
     if payout \<le> 0 then Inl (Err NothingToRedeem) else
     bindr (perp_pay env (collateral m) (current_contract_address env) user payout st) (\<lambda>st.
     bindr (i128_sub (total_supply m) payout) (\<lambda>ts.
     let st = perp_save_market (m\<lparr>total_supply := ts\<rparr>) st
     in Inr (payout, perp_publish (RedeemEvent user payout) st)))))))"

section \<open>Queries\<close>

definition perp_get_market :: "'a perp_store_scheme \<Rightarrow> (perp_error, Perpetual) res" where
  "perp_get_market st = perp_load_market st"

definition perp_get_price_oracle :: "'a perp_store_scheme \<Rightarrow> PriceOracleConfig option" where
  "perp_get_price_oracle st = load_price_oracle st"

definition perp_get_position :: "Address \<Rightarrow> 'a perp_store_scheme \<Rightarrow> int \<times> int" where
  "perp_get_position addr st = (perp_balance_of st Yes addr, perp_balance_of st No addr)"

definition perp_get_price :: "'a perp_store_scheme \<Rightarrow> (perp_error, u32 \<times> u32) res" where
  "perp_get_price st =
     bindr (perp_load_market st) (\<lambda>m.
     if status m \<noteq> Open then Inl (Err MarketNotOpen) else
     bindr (i128_add (pool_yes m) (pool_no m)) (\<lambda>total.
     bindr (i128_mul (pool_no m) 10000) (\<lambda>x.
     bindr (i128_div x total) (\<lambda>q.
     let yes_bps = word_of_int q :: u32 in
     if 10000 < yes_bps then Inl Trap else Inr (yes_bps, 10000 - yes_bps)))))"

definition perp_get_fee :: "'a perp_store_scheme \<Rightarrow> (perp_error, u32) res" where
  "perp_get_fee st = bindr (perp_load_market st) perp_effective_fee_bps"

section \<open>Calls\<close>

text \<open>The entry points that change state, as the messages a transaction can send.\<close>

datatype perp_call =
    CallInitialize Address Address u32 u32 Address int "PriceOracleConfig option"
  | CallSplit Address int
  | CallMerge Address int
  | CallBuy Address Prediction int int
  | CallSell Address Prediction int int
  | CallTransfer Address Address Prediction int
  | CallCheckpoint "byte list"
  | CallTerminate Address
  | CallRedeem Address

fun perp_exec ::
    "'tok Env \<Rightarrow> perp_call \<Rightarrow> 'tok perp_state \<Rightarrow> (perp_error, 'tok perp_state) res" where
  "perp_exec env (CallInitialize adm coll base_fee min_fee treas liquidity price_oracle) st =
     discard (perp_initialize env adm coll base_fee min_fee treas liquidity price_oracle st)"
| "perp_exec env (CallSplit user amount) st = discard (perp_split env user amount st)"
| "perp_exec env (CallMerge user amount) st = discard (perp_merge env user amount st)"
| "perp_exec env (CallBuy user p amount min_out) st =
     discard (perp_buy env user p amount min_out st)"
| "perp_exec env (CallSell user p shares min_out) st =
     discard (perp_sell env user p shares min_out st)"
| "perp_exec env (CallTransfer from to p amount) st =
     discard (perp_transfer env from to p amount st)"
| "perp_exec env (CallCheckpoint payload) st =
     discard (perp_record_price_checkpoint env payload st)"
| "perp_exec env (CallTerminate adm) st = discard (perp_terminate env adm st)"
| "perp_exec env (CallRedeem user) st = discard (perp_redeem env user st)"

section \<open>The share ledger of the storage\<close>

definition perp_frame ::
    "'tok perp_state \<Rightarrow> Perpetual option \<times> PriceOracleConfig option \<times> perp_event list \<times> 'tok" where
  "perp_frame st = (inst_market st, inst_price_oracle st, events st, tokens st)"

interpretation perp: share_ledger perp_balance_of perp_set_balance perp_credit perp_debit
  perp_frame
proof unfold_locales
  fix p q :: Prediction and a b :: Address and v :: int and st st' :: "'a perp_state"
  show "perp_balance_of (perp_set_balance p a v st) q b
      = (if p = q \<and> a = b then v else perp_balance_of st q b)"
    by (simp add: perp_balance_of_def perp_set_balance_def)
  show "perp_credit p a v st = Inr st' \<longleftrightarrow> in_i128 (perp_balance_of st p a + v)
      \<and> st' = perp_set_balance p a (perp_balance_of st p a + v) st"
    by (auto simp: perp_credit_def res_simps)
  show "perp_debit p a v st = Inr st' \<longleftrightarrow> v \<le> perp_balance_of st p a
      \<and> in_i128 (perp_balance_of st p a - v)
      \<and> st' = perp_set_balance p a (perp_balance_of st p a - v) st"
    by (auto simp: perp_debit_def Let_def res_simps)
  show "perp_frame (perp_set_balance p a v st) = perp_frame st"
    by (simp add: perp_frame_def perp_set_balance_def)
qed

text \<open>What each helper does to each part of the state.\<close>

lemma perp_credit_effect:
  assumes "perp_credit p a v (st :: 'tok perp_state) = Inr st'"
  shows "perp_balance_of st' = add_shares (perp_balance_of st) p a v"
    and "inst_market st' = inst_market st" and "inst_price_oracle st' = inst_price_oracle st"
    and "events st' = events st" and "tokens st' = tokens st"
  using perp.credit_shares [OF assms] by (simp_all add: perp_frame_def)

lemma perp_debit_effect:
  assumes "perp_debit p a v (st :: 'tok perp_state) = Inr st'"
  shows "v \<le> perp_balance_of st p a"
    and "perp_balance_of st' = add_shares (perp_balance_of st) p a (- v)"
    and "inst_market st' = inst_market st" and "inst_price_oracle st' = inst_price_oracle st"
    and "events st' = events st" and "tokens st' = tokens st"
  using perp.debit_shares [OF assms] by (simp_all add: perp_frame_def)

lemma perp_clear_effect:
  fixes st :: "'tok perp_state"
  shows "perp_balance_of (perp_clear_balances a st) = drop_shares (perp_balance_of st) a"
    and "inst_market (perp_clear_balances a st) = inst_market st"
    and "inst_price_oracle (perp_clear_balances a st) = inst_price_oracle st"
    and "events (perp_clear_balances a st) = events st"
    and "tokens (perp_clear_balances a st) = tokens st"
  using perp.clear_shares [of a st] by (simp_all add: perp_clear_balances_def perp_frame_def)

lemma perp_save_effect [simp]:
  "perp_balance_of (perp_save_market m st) = perp_balance_of st"
  "inst_market (perp_save_market m st) = Some m"
  "inst_price_oracle (perp_save_market m st) = inst_price_oracle st"
  "events (perp_save_market m st) = events st"
  "tokens (perp_save_market m st') = tokens st'"
  by (simp_all add: perp_save_market_def perp_touch_def perp_balance_of_def fun_eq_iff)

lemma perp_publish_effect [simp]:
  "perp_balance_of (perp_publish e st) = perp_balance_of st"
  "inst_market (perp_publish e st) = inst_market st"
  "inst_price_oracle (perp_publish e st) = inst_price_oracle st"
  "events (perp_publish e st) = events st @ [e]"
  "tokens (perp_publish e st') = tokens st'"
  by (simp_all add: perp_publish_def perp_balance_of_def fun_eq_iff)

lemma perp_pay_Inr [res_simps]:
  "perp_pay env c from to n st = Inr st' \<longleftrightarrow>
    (\<exists>t. token_transfer env c from to n (tokens st) = Some t \<and> st' = st\<lparr>tokens := t\<rparr>)"
  by (auto simp: perp_pay_def res_simps)

lemma perp_tokens_effect [simp]:
  "perp_balance_of (st\<lparr>tokens := t\<rparr>) = perp_balance_of st"
  by (simp add: perp_balance_of_def fun_eq_iff)

lemma perp_load_market_Inr [res_simps]: "perp_load_market st = Inr m \<longleftrightarrow> inst_market st = Some m"
  by (simp add: perp_load_market_def res_simps)

end
