(* ===== verification/Perpetual_Book.thy ===== *)
theory Perpetual_Book
  imports Perpetual
begin

text \<open>
  The perpetual contract implements the book of \<open>Book\<close>: what each successful entry point does
  to its record, the balances and the collateral, the refinement to the book's moves, and the
  invariant of every reachable state.
\<close>

section \<open>The effect of each entry point\<close>

lemma perp_split_effect:
  assumes "perp_split env user n st = Inr (r, st')"
  obtains m t where
    "authorized env user" "inst_market st = Some m" "status m = Open" "0 < n"
    "token_transfer env (collateral m) user (current_contract_address env) n (tokens st) = Some t"
    "tokens st' = t" "inst_market st' = Some (m\<lparr>total_supply := total_supply m + n\<rparr>)"
    "perp_balance_of st' = add_shares (add_shares (perp_balance_of st) Yes user n) No user n"
    "inst_price_oracle st' = inst_price_oracle st" "events st' = events st @ [SplitEvent user n]"
proof -
  from assms obtain m t s2 s3 where
    "authorized env user" "inst_market st = Some m" "status m = Open" "0 < n"
    "token_transfer env (collateral m) user (current_contract_address env) n (tokens st) = Some t"
    "perp_credit Yes user n (st\<lparr>tokens := t\<rparr>) = Inr s2" "perp_credit No user n s2 = Inr s3"
    "st' = perp_publish (SplitEvent user n)
       (perp_save_market (m\<lparr>total_supply := total_supply m + n\<rparr>) s3)"
    by (auto simp: perp_split_def res_simps Let_def split: if_splits)
  then show thesis
    by (intro that [of m t]) (simp_all add: perp_credit_effect)
qed

lemma perp_merge_effect:
  assumes "perp_merge env user n st = Inr (r, st')"
  obtains m t where
    "authorized env user" "inst_market st = Some m" "status m = Open" "0 < n"
    "n \<le> perp_balance_of st Yes user" "n \<le> perp_balance_of st No user"
    "token_transfer env (collateral m) (current_contract_address env) user n (tokens st) = Some t"
    "tokens st' = t" "inst_market st' = Some (m\<lparr>total_supply := total_supply m - n\<rparr>)"
    "perp_balance_of st' =
      add_shares (add_shares (perp_balance_of st) Yes user (- n)) No user (- n)"
    "inst_price_oracle st' = inst_price_oracle st" "events st' = events st @ [MergeEvent user n]"
proof -
  from assms obtain m t s1 s2 where
    *: "authorized env user" "inst_market st = Some m" "status m = Open" "0 < n"
    "perp_debit Yes user n st = Inr s1" "perp_debit No user n s1 = Inr s2"
    "token_transfer env (collateral m) (current_contract_address env) user n (tokens s2) = Some t"
    "st' = perp_publish (MergeEvent user n)
       (perp_save_market (m\<lparr>total_supply := total_supply m - n\<rparr>) (s2\<lparr>tokens := t\<rparr>))"
    by (auto simp: perp_merge_def res_simps Let_def split: if_splits)
  note d1 = perp_debit_effect [OF *(5)] and d2 = perp_debit_effect [OF *(6)]
  from * d1 d2 show thesis
    by (intro that [of m t]) (simp_all add: add_shares_apply)
qed

lemma perp_reserves_other:
  "perp_reserves m p = (x, y) \<longleftrightarrow> perp_reserves m (other p) = (y, x)"
  by (cases p) auto

lemma perp_buy_effect:
  assumes "perp_buy env user p n min_out st = Inr (r, st')"
  obtains m t rin rout fee ein out where
    "authorized env user" "inst_market st = Some m" "status m = Open"
    "0 < n"
    "perp_reserves m (other p) = (rin, rout)"
    "perp_effective_fee_bps m = Inr fee"
    "apply_fee n fee = (Inr ein :: (perp_error, int) res)"
    "cpmm_out rin rout ein = (Inr out :: (perp_error, int) res)"
    "2 * out < rout" "min_out \<le> out" "r = n + out"
    "token_transfer env (collateral m) user (current_contract_address env) n (tokens st) = Some t"
    "tokens st' = t"
    "inst_market st' = Some (perp_set_reserve p (rout - out)
       (perp_set_reserve (other p) (rin + n) (m\<lparr>total_supply := total_supply m + n\<rparr>)))"
    "perp_balance_of st' = add_shares (perp_balance_of st) p user (n + out)"
    "inst_price_oracle st' = inst_price_oracle st"
    "events st' = events st @ [BuyEvent user p n out]"
proof -
  obtain m where m: "inst_market st = Some m"
    using assms by (auto simp: perp_buy_def res_simps)
  obtain rin rout where rs: "perp_reserves m (other p) = (rin, rout)"
    by (cases "perp_reserves m (other p)")
  from assms m obtain t fee ein out s2 s3 s4 s5 where
    *: "authorized env user" "status m = Open"
    "0 < n"
    "perp_effective_fee_bps m = Inr fee"
    "apply_fee n fee = (Inr ein :: (perp_error, int) res)"
    "cpmm_out rin rout ein = (Inr out :: (perp_error, int) res)"
    "out * 2 < rout" "min_out \<le> out" "r = n + out"
    "token_transfer env (collateral m) user (current_contract_address env) n (tokens st) = Some t"
    "perp_credit Yes user n (st\<lparr>tokens := t\<rparr>) = Inr s2"
    "perp_credit No user n s2 = Inr s3"
    "perp_debit (other p) user n s3 = Inr s4"
    "perp_credit p user out s4 = Inr s5"
    "st' = perp_publish (BuyEvent user p n out) (perp_save_market
       (perp_set_reserve p (rout - out)
         (perp_set_reserve (other p) (rin + n) (m\<lparr>total_supply := total_supply m + n\<rparr>))) s5)"
    by (auto simp: perp_buy_def res_simps Let_def rs not_le split: if_splits)
  note e = perp_credit_effect [OF *(11)] perp_credit_effect [OF *(12)]
    perp_debit_effect [OF *(13)] perp_credit_effect [OF *(14)]
  from * m rs e show thesis
    by (intro that [of m rin rout fee ein out t]) (simp_all add: add_shares_swap)
qed

lemma perp_sell_effect:
  assumes "perp_sell env user p n min_out st = Inr (out, st')"
  obtains m t rin rout fee ein where
    "authorized env user" "inst_market st = Some m" "status m = Open"
    "0 < n" "n \<le> perp_balance_of st p user"
    "perp_reserves m p = (rin, rout)"
    "perp_effective_fee_bps m = Inr fee"
    "apply_fee n fee = (Inr ein :: (perp_error, int) res)"
    "cpmm_sell_out rin rout ein = (Inr out :: (perp_error, int) res)"
    "2 * out < rout" "0 < out" "min_out \<le> out"
    "token_transfer env (collateral m) (current_contract_address env) user out (tokens st) = Some t"
    "tokens st' = t"
    "inst_market st' = Some ((perp_set_reserve (other p) (rout - out)
       (perp_set_reserve p (rin + n - out) m))\<lparr>total_supply := total_supply m - out\<rparr>)"
    "perp_balance_of st' = add_shares (perp_balance_of st) p user (- n)"
    "inst_price_oracle st' = inst_price_oracle st"
    "events st' = events st @ [SellEvent user p n out]"
proof -
  obtain m where m: "inst_market st = Some m"
    using assms by (auto simp: perp_sell_def res_simps)
  obtain rin rout where rs: "perp_reserves m p = (rin, rout)"
    by (cases "perp_reserves m p")
  have frame: "total_supply (perp_set_reserve q v k) = total_supply k"
      "collateral (perp_set_reserve q v k) = collateral k" for q v k
    by (cases q; simp)+
  from assms m obtain t fee ein s1 where
    *: "authorized env user" "status m = Open" "0 < n"
    "n \<le> perp_balance_of st p user"
    "perp_effective_fee_bps m = Inr fee"
    "apply_fee n fee = (Inr ein :: (perp_error, int) res)"
    "cpmm_sell_out rin rout ein = (Inr out :: (perp_error, int) res)"
    "out * 2 < rout" "0 < out" "min_out \<le> out"
    "perp_debit p user n st = Inr s1"
    "token_transfer env (collateral m) (current_contract_address env) user out (tokens s1) = Some t"
    "st' = perp_publish (SellEvent user p n out) (perp_save_market
       ((perp_set_reserve (other p) (rout - out) (perp_set_reserve p (rin + n - out) m))
         \<lparr>total_supply := total_supply m - out\<rparr>) (s1\<lparr>tokens := t\<rparr>))"
    by (auto simp: perp_sell_def res_simps Let_def rs frame not_le not_less split: if_splits)
  note e = perp_debit_effect [OF *(11)]
  from * m rs e show thesis
    by (intro that [of m rin rout fee ein t]) simp_all
qed

lemma perp_transfer_effect:
  assumes "perp_transfer env from to p n st = Inr (r, st')"
  obtains m where
    "authorized env from" "inst_market st = Some m" "0 < n"
    "n \<le> perp_balance_of st p from" "inst_market st' = Some m" "tokens st' = tokens st"
    "perp_balance_of st' = add_shares (add_shares (perp_balance_of st) p from (- n)) p to n"
    "inst_price_oracle st' = inst_price_oracle st" "events st' = events st @ [TransferEvent from to p n]"
proof -
  from assms obtain m s1 s2 where
    *: "authorized env from" "inst_market st = Some m" "0 < n"
    "perp_debit p from n st = Inr s1" "perp_credit p to n s1 = Inr s2"
    "st' = perp_publish (TransferEvent from to p n) s2"
    by (auto simp: perp_transfer_def res_simps split: if_splits)
  note e = perp_debit_effect [OF *(4)] perp_credit_effect [OF *(5)]
  from * e show thesis by (intro that [of m]) simp_all
qed

lemma perp_checkpoint_effect:
  assumes "perp_record_price_checkpoint env payload st = Inr (r, st')"
  obtains m orc cents where
    "inst_market st = Some m" "inst_price_oracle st = Some orc"
    "perp_checkpoint_price env orc (ledger_timestamp env) payload = Inr cents"
    "verify_oracle_corroboration env (reflector orc) (reflector_decimals_at_init orc)
      (ledger_timestamp env) cents = Inr ()"
    "verify_oracle_corroboration env (redstone orc) (redstone_decimals_at_init orc)
      (ledger_timestamp env) cents = Inr ()"
    "inst_market st' = Some (m\<lparr>last_price_cents := cents, last_price_at := ledger_timestamp env\<rparr>)"
    "perp_balance_of st' = perp_balance_of st" "tokens st' = tokens st"
    "inst_price_oracle st' = inst_price_oracle st"
    "events st' = events st @ [CheckpointEvent cents (ledger_timestamp env)]"
  using assms unfolding perp_record_price_checkpoint_def
  by (auto simp: res_simps Let_def load_price_oracle_def)

lemma perp_terminate_effect:
  assumes "perp_terminate env adm st = Inr (r, st')"
  obtains m where
    "inst_market st = Some m" "admin m = adm" "authorized env adm" "status m = Open"
    "inst_market st' = Some (m\<lparr>pool_yes := 0, pool_no := 0, status := Terminated\<rparr>)"
    "perp_balance_of st' =
      add_shares (add_shares (perp_balance_of st) Yes (treasury m) (pool_yes m))
        No (treasury m) (pool_no m)"
    "tokens st' = tokens st" "inst_price_oracle st' = inst_price_oracle st"
    "events st' = events st @ [TerminateEvent]"
proof -
  from assms obtain m s1 s2 where
    *: "inst_market st = Some m" "admin m = adm" "authorized env adm" "status m = Open"
    "perp_credit Yes (treasury m) (pool_yes m) st = Inr s1"
    "perp_credit No (treasury m) (pool_no m) s1 = Inr s2"
    "st' = perp_publish TerminateEvent
       (perp_save_market (m\<lparr>pool_yes := 0, pool_no := 0, status := Terminated\<rparr>) s2)"
    by (auto simp: perp_terminate_def res_simps Let_def split: if_splits)
  note e = perp_credit_effect [OF *(5)] perp_credit_effect [OF *(6)]
  from * e show thesis by (intro that [of m]) simp_all
qed

text \<open>What a holder's position is worth to the contract's \<open>redeem\<close>.\<close>

definition perp_payout :: "Perpetual \<Rightarrow> (Prediction \<Rightarrow> Address \<Rightarrow> int) \<Rightarrow> Address \<Rightarrow> int" where
  "perp_payout m h user = (case status m of
      Open \<Rightarrow> 0
    | Terminated \<Rightarrow> (h Yes user + h No user) sdiv 2)"

lemma perp_redeem_effect:
  assumes "perp_redeem env user st = Inr (pay, st')"
  obtains m t where
    "authorized env user" "inst_market st = Some m" "status m = Terminated"
    "pay = perp_payout m (perp_balance_of st) user" "0 < pay"
    "token_transfer env (collateral m) (current_contract_address env) user pay (tokens st) = Some t"
    "tokens st' = t" "inst_market st' = Some (m\<lparr>total_supply := total_supply m - pay\<rparr>)"
    "perp_balance_of st' = drop_shares (perp_balance_of st) user"
    "inst_price_oracle st' = inst_price_oracle st" "events st' = events st @ [RedeemEvent user pay]"
proof -
  let ?c = "perp_clear_balances user st"
  from assms obtain m t where
    *: "authorized env user" "inst_market st = Some m" "status m = Terminated"
    "pay = perp_payout m (perp_balance_of st) user" "0 < pay"
    "token_transfer env (collateral m) (current_contract_address env) user pay (tokens ?c) = Some t"
    "st' = perp_publish (RedeemEvent user pay)
       (perp_save_market (m\<lparr>total_supply := total_supply m - pay\<rparr>) (?c\<lparr>tokens := t\<rparr>))"
    by (auto simp: perp_redeem_def res_simps Let_def perp_payout_def not_le)
  then show thesis by (intro that [of m t]) (simp_all add: perp_clear_effect)
qed

text \<open>The price oracle bundle a successful \<open>initialize\<close> stores: both legs read live.\<close>

definition pinned :: "'tok Env \<Rightarrow> PriceOracleConfig \<Rightarrow> PriceOracleConfig \<Rightarrow> bool" where
  "pinned env given stored \<longleftrightarrow>
     stored = given\<lparr>reflector_decimals_at_init := reflector_decimals_at_init stored,
       redstone_decimals_at_init := redstone_decimals_at_init stored\<rparr>
   \<and> feed_id given \<noteq> 0
   \<and> sep40_decimals env (contract (reflector given)) = Some (reflector_decimals_at_init stored)
   \<and> reflector_decimals_at_init stored \<in> {2..30}
   \<and> sep40_decimals env (contract (redstone given)) = Some (redstone_decimals_at_init stored)
   \<and> redstone_decimals_at_init stored \<in> {2..30}
   \<and> (\<exists>r. sep40_resolution env (contract (reflector given)) = Some r
        \<and> ucast r \<le> max_staleness_secs (reflector given))
   \<and> (\<exists>r. sep40_resolution env (contract (redstone given)) = Some r
        \<and> ucast r \<le> max_staleness_secs (redstone given))"

lemma perp_initialize_effect:
  assumes "perp_initialize env adm coll base_fee min_fee treas liq price_oracle st = Inr (r, st')"
  obtains t where
    "authorized env adm" "inst_market st = None" "base_fee \<le> PERP_MAX_FEE_BPS" "min_fee \<le> base_fee"
    "0 < liq" "token_transfer env coll adm (current_contract_address env) liq (tokens st) = Some t"
    "tokens st' = t"
    "inst_market st' = Some \<lparr>admin = adm, collateral = coll, base_fee_bps = base_fee,
       min_fee_bps = min_fee, treasury = treas, status = Open, pool_yes = liq, pool_no = liq,
       total_supply = liq, initial_liquidity = liq, last_price_cents = 0, last_price_at = 0\<rparr>"
    "perp_balance_of st' = perp_balance_of st"
    "case price_oracle of None \<Rightarrow> inst_price_oracle st' = inst_price_oracle st
     | Some given \<Rightarrow> \<exists>stored. inst_price_oracle st' = Some stored \<and> pinned env given stored"
proof -
  have oracle_bal [simp]:
    "perp_balance_of (s\<lparr>inst_price_oracle := x\<rparr>) = perp_balance_of s" for s :: "'tok perp_state" and x
    by (simp add: perp_balance_of_def fun_eq_iff)
  show thesis
    using assms unfolding perp_initialize_def
    by (cases price_oracle) (auto simp: res_simps Let_def not_le not_less pinned_def intro!: that)
qed

section \<open>Refinement of the book\<close>

fun perp_phase :: "PerpetualStatus \<Rightarrow> phase" where
  "perp_phase Open = Trading"
| "perp_phase Terminated = Voided"

lemma perp_phase_Trading [simp]: "perp_phase s = Trading \<longleftrightarrow> s = Open"
  by (cases s) simp_all

definition perp_book_view :: "Perpetual \<Rightarrow> (Prediction \<Rightarrow> Address \<Rightarrow> int) \<Rightarrow> book" where
  "perp_book_view m h = \<lparr>pool = (\<lambda>p. fst (perp_reserves m p)), issued = total_supply m,
     holdings = h, phase = perp_phase (status m)\<rparr>"

definition perp_book :: "'a perp_store_scheme \<Rightarrow> book option" where
  "perp_book st = map_option (\<lambda>m. perp_book_view m (perp_balance_of st)) (inst_market st)"

lemma perp_book_Some:
  "perp_book st = Some b \<longleftrightarrow> (\<exists>m. inst_market st = Some m \<and> b = perp_book_view m (perp_balance_of st))"
  by (auto simp: perp_book_def)

lemma perp_pool_view: "(\<lambda>p. fst (perp_reserves m p)) = (\<lambda>_. 0)(Yes := pool_yes m, No := pool_no m)"
proof
  fix p show "fst (perp_reserves m p) = ((\<lambda>_. 0)(Yes := pool_yes m, No := pool_no m)) p"
    by (cases p) simp_all
qed

lemmas perp_view_simps = perp_book_view_def perp_pool_view fun_eq_iff

lemma perp_split_refines:
  assumes "perp_split env user n st = Inr (r, st')" "perp_book st = Some b"
  shows "\<exists>c. perp_book st' = Some c \<and> book_step b c \<and> issued c = issued b + n"
proof -
  from assms(1) obtain m where m: "inst_market st = Some m" "status m = Open" "0 < n"
    "inst_market st' = Some (m\<lparr>total_supply := total_supply m + n\<rparr>)"
    "perp_balance_of st' = add_shares (add_shares (perp_balance_of st) Yes user n) No user n"
    by (rule perp_split_effect)
  have b: "b = perp_book_view m (perp_balance_of st)" using assms(2) m by (simp add: perp_book_Some)
  have "book_step b (b\<lparr>holdings := add_shares (add_shares (holdings b) Yes user n) No user n,
      issued := issued b + n\<rparr>)"
    using m by (intro book_step.mint) (simp_all add: b perp_book_view_def)
  moreover have "perp_book st' = Some (b\<lparr>holdings :=
      add_shares (add_shares (holdings b) Yes user n) No user n, issued := issued b + n\<rparr>)"
    using m by (simp add: perp_book_def b perp_book_view_def perp_pool_view)
  ultimately show ?thesis by fastforce
qed

lemma perp_merge_refines:
  assumes "perp_merge env user n st = Inr (r, st')" "perp_book st = Some b"
  shows "\<exists>c. perp_book st' = Some c \<and> book_step b c \<and> issued c = issued b - n"
proof -
  from assms(1) obtain m where m: "inst_market st = Some m" "status m = Open" "0 < n"
    "n \<le> perp_balance_of st Yes user" "n \<le> perp_balance_of st No user"
    "inst_market st' = Some (m\<lparr>total_supply := total_supply m - n\<rparr>)"
    "perp_balance_of st' =
      add_shares (add_shares (perp_balance_of st) Yes user (- n)) No user (- n)"
    by (rule perp_merge_effect)
  have b: "b = perp_book_view m (perp_balance_of st)" using assms(2) m by (simp add: perp_book_Some)
  have "book_step b (b\<lparr>holdings := add_shares (add_shares (holdings b) Yes user (- n)) No user (- n),
      issued := issued b - n\<rparr>)"
    using m by (intro book_step.burn) (simp_all add: b perp_book_view_def)
  moreover have "perp_book st' = Some (b\<lparr>holdings :=
      add_shares (add_shares (holdings b) Yes user (- n)) No user (- n), issued := issued b - n\<rparr>)"
    using m by (simp add: perp_book_def b perp_book_view_def perp_pool_view)
  ultimately show ?thesis by fastforce
qed

lemma perp_book_view_set_reserve:
  "pool (perp_book_view (perp_set_reserve q v m) h) = (pool (perp_book_view m h))(q := v)"
  "issued (perp_book_view (perp_set_reserve q v m) h) = issued (perp_book_view m h)"
  "phase (perp_book_view (perp_set_reserve q v m) h) = phase (perp_book_view m h)"
  "holdings (perp_book_view m' h') = h'"
  by (cases q; simp add: perp_view_simps)+

lemma perp_book_view_supply:
  "pool (perp_book_view (m\<lparr>total_supply := n\<rparr>) h) = pool (perp_book_view m h)"
  "issued (perp_book_view (m\<lparr>total_supply := n\<rparr>) h) = n"
  "phase (perp_book_view (m\<lparr>total_supply := n\<rparr>) h) = phase (perp_book_view m h)"
  by (simp_all add: perp_view_simps)

lemma perp_reserves_view:
  "perp_reserves m p = (x, y) \<Longrightarrow> pool (perp_book_view m h) p = x \<and> pool (perp_book_view m h) (other p) = y"
  by (cases p) (auto simp: perp_book_view_def)

lemma perp_buy_refines:
  assumes "perp_buy env user p n min_out st = Inr (r, st')" "perp_book st = Some b"
    and "0 \<le> min_out"
  shows "\<exists>c. perp_book st' = Some c \<and> book_step b c \<and> issued c = issued b + n"
proof -
  from assms(1) obtain m t rin rout fee ein out where
    m: "inst_market st = Some m" "status m = Open" "0 < n"
      "perp_reserves m (other p) = (rin, rout)" "2 * out < rout" "min_out \<le> out"
    and st': "inst_market st' = Some (perp_set_reserve p (rout - out)
       (perp_set_reserve (other p) (rin + n) (m\<lparr>total_supply := total_supply m + n\<rparr>)))"
      "perp_balance_of st' = add_shares (perp_balance_of st) p user (n + out)"
    by (rule perp_buy_effect) blast
  have b: "b = perp_book_view m (perp_balance_of st)" using assms(2) m by (simp add: perp_book_Some)
  have pools: "pool b (other p) = rin" "pool b p = rout"
    using perp_reserves_view [OF m(4)] by (simp_all add: b)
  let ?c = "b\<lparr>holdings := add_shares (holdings b) p user (n + out),
    pool := (pool b)(other p := pool b (other p) + n, p := pool b p - out),
    issued := issued b + n\<rparr>"
  have "book_step b ?c"
    using m assms(3) pools by (intro book_step.swap) (simp_all add: b perp_book_view_def)
  moreover have "perp_book st' = Some ?c"
    unfolding perp_book_Some using st' pools
    by (intro exI conjI book_eqI)
      (auto simp: b perp_book_view_set_reserve perp_book_view_supply, simp_all add: perp_book_view_def)
  ultimately show ?thesis by fastforce
qed

lemma perp_effective_in_le:
  assumes "apply_fee n fee = (Inr ein :: (perp_error, int) res)" "0 < n"
  shows "ein \<le> n"
  using apply_fee_le [OF assms(1)] assms(2) by simp

lemma perp_sell_refines:
  assumes "perp_sell env user p n min_out st = Inr (out, st')" "perp_book st = Some b"
    and "book_ok b"
  shows "\<exists>c. perp_book st' = Some c \<and> book_step b c \<and> issued c = issued b - out"
proof -
  from assms(1) obtain m t rin rout fee ein where
    m: "inst_market st = Some m" "status m = Open" "0 < n" "n \<le> perp_balance_of st p user"
      "perp_reserves m p = (rin, rout)"
    and out: "apply_fee n fee = (Inr ein :: (perp_error, int) res)"
      "cpmm_sell_out rin rout ein = (Inr out :: (perp_error, int) res)" "2 * out < rout" "0 < out"
    and st': "inst_market st' = Some ((perp_set_reserve (other p) (rout - out)
       (perp_set_reserve p (rin + n - out) m))\<lparr>total_supply := total_supply m - out\<rparr>)"
      "perp_balance_of st' = add_shares (perp_balance_of st) p user (- n)"
    by (rule perp_sell_effect) blast
  have b: "b = perp_book_view m (perp_balance_of st)" using assms(2) m by (simp add: perp_book_Some)
  have pools: "pool b p = rin" "pool b (other p) = rout"
    using perp_reserves_view [OF m(5)] by (simp_all add: b)
  have "phase b = Trading" using m by (simp add: b perp_book_view_def)
  then have pos: "0 < rin" "0 < rout"
    using assms(3) pools by (auto simp: book_ok_def covered_def)
  have "out < rin + n"
    using cpmm_sell_out_below_input [OF out(2) pos out(4)] perp_effective_in_le [OF out(1) m(3)] by simp
  let ?c = "b\<lparr>holdings := add_shares (holdings b) p user (- n),
    pool := (pool b)(p := pool b p + n - out, other p := pool b (other p) - out),
    issued := issued b - out\<rparr>"
  have "book_step b ?c"
    using m out pools \<open>phase b = Trading\<close> \<open>out < rin + n\<close>
    by (intro book_step.unwind) (simp_all add: b perp_book_view_def)
  moreover have "perp_book st' = Some ?c"
    unfolding perp_book_Some using st' pools
    by (intro exI conjI book_eqI)
      (auto simp: b perp_book_view_set_reserve perp_book_view_supply, simp_all add: perp_book_view_def)
  ultimately show ?thesis by fastforce
qed

lemma perp_transfer_refines:
  assumes "perp_transfer env from to p n st = Inr (r, st')" "perp_book st = Some b"
  shows "\<exists>c. perp_book st' = Some c \<and> book_step b c \<and> issued c = issued b"
proof -
  from assms(1) obtain m where m: "inst_market st = Some m" "0 < n"
    "n \<le> perp_balance_of st p from" "inst_market st' = Some m"
    "perp_balance_of st' = add_shares (add_shares (perp_balance_of st) p from (- n)) p to n"
    by (rule perp_transfer_effect)
  have b: "b = perp_book_view m (perp_balance_of st)" using assms(2) m by (simp add: perp_book_Some)
  have "book_step b (b\<lparr>holdings := add_shares (add_shares (holdings b) p from (- n)) p to n\<rparr>)"
    using m by (intro book_step.move) (simp_all add: b perp_book_view_def)
  moreover have "perp_book st' =
      Some (b\<lparr>holdings := add_shares (add_shares (holdings b) p from (- n)) p to n\<rparr>)"
    using m by (simp add: perp_book_def b perp_book_view_def)
  ultimately show ?thesis by fastforce
qed

lemma perp_terminate_refines:
  assumes "perp_terminate env adm st = Inr (r, st')" "perp_book st = Some b"
  shows "\<exists>c. perp_book st' = Some c \<and> book_step b c \<and> issued c = issued b"
proof -
  from assms(1) obtain m where m: "inst_market st = Some m" "status m = Open"
    "inst_market st' = Some (m\<lparr>pool_yes := 0, pool_no := 0, status := Terminated\<rparr>)"
    "perp_balance_of st' =
      add_shares (add_shares (perp_balance_of st) Yes (treasury m) (pool_yes m))
        No (treasury m) (pool_no m)"
    by (rule perp_terminate_effect)
  have b: "b = perp_book_view m (perp_balance_of st)" using assms(2) m by (simp add: perp_book_Some)
  let ?c = "b\<lparr>holdings := add_shares (add_shares (holdings b) Yes (treasury m) (pool b Yes))
      No (treasury m) (pool b No), pool := (\<lambda>_. 0), phase := Voided\<rparr>"
  have "book_step b ?c"
    using m by (intro book_step.conclude) (simp_all add: b perp_book_view_def)
  moreover have "perp_book st' = Some ?c"
    using m by (simp add: perp_book_def b perp_book_view_def perp_pool_view) (simp add: fun_eq_iff)
  ultimately show ?thesis by fastforce
qed

text \<open>A checkpoint is invisible to the book.\<close>

lemma perp_checkpoint_refines:
  assumes "perp_record_price_checkpoint env payload st = Inr (r, st')" "perp_book st = Some b"
  shows "perp_book st' = Some b"
  using assms(1)
proof (rule perp_checkpoint_effect)
  fix m orc cents
  assume "inst_market st = Some m" "perp_balance_of st' = perp_balance_of st"
    "inst_market st' = Some (m\<lparr>last_price_cents := cents, last_price_at := ledger_timestamp env\<rparr>)"
  then show ?thesis
    using assms(2) by (auto simp: perp_book_def perp_book_view_def perp_pool_view)
qed

lemma perp_redeem_refines:
  assumes "perp_redeem env user st = Inr (pay, st')" "perp_book st = Some b" "book_ok b"
  shows "\<exists>c. perp_book st' = Some c \<and> book_step b c \<and> issued c = issued b - pay"
proof -
  from assms(1) obtain m where m: "inst_market st = Some m" "status m = Terminated"
    "pay = perp_payout m (perp_balance_of st) user" "0 < pay"
    "inst_market st' = Some (m\<lparr>total_supply := total_supply m - pay\<rparr>)"
    "perp_balance_of st' = drop_shares (perp_balance_of st) user"
    by (rule perp_redeem_effect)
  have b: "b = perp_book_view m (perp_balance_of st)" using assms(2) m by (simp add: perp_book_Some)
  have nn: "0 \<le> perp_balance_of st p user" for p
    using assms(3) by (simp add: book_ok_def b perp_book_view_def)
  have "phase b = Voided" "pay = (holdings b Yes user + holdings b No user) div 2"
    using m nn by (simp_all add: b perp_book_view_def perp_payout_def sdiv_nonneg)
  then have "book_step b (b\<lparr>holdings := drop_shares (holdings b) user, issued := issued b - pay\<rparr>)"
    using book_step.claim_void m(4) by blast
  moreover have "perp_book st' =
      Some (b\<lparr>holdings := drop_shares (holdings b) user, issued := issued b - pay\<rparr>)"
    using m by (simp add: perp_book_def b perp_book_view_def perp_pool_view)
  ultimately show ?thesis by fastforce
qed

lemma perp_initialize_opens:
  assumes "perp_initialize env adm coll base_fee min_fee treas liq price_oracle st = Inr (r, st')"
    and "\<forall>p a. perp_balance_of st p a = 0"
  shows "0 < liq \<and> perp_book st' = Some (book_start liq)"
proof -
  have "perp_balance_of st = (\<lambda>_ _. 0)" using assms(2) by (simp add: fun_eq_iff)
  then show ?thesis
    using assms(1) by (auto elim!: perp_initialize_effect simp: perp_book_def perp_book_view_def
        book_start_def perp_pool_view fun_eq_iff prediction_neq)
qed

section \<open>The contract as a state machine\<close>

text \<open>
  A deployed perpetual moves when a transaction calls it, when its token contracts change
  without it (which may raise but not lower its own balances), and when the lifetimes of its
  storage run down.  \<open>perp_careful\<close> is the one condition on callers that the invariant needs: a
  buyer does not offer to receive a negative number of shares.
\<close>

fun perp_careful :: "perp_call \<Rightarrow> bool" where
  "perp_careful (CallBuy user p amount min_out) = (0 \<le> min_out)"
| "perp_careful _ = True"

inductive perp_step :: "'tok Env \<Rightarrow> 'tok perp_state \<Rightarrow> 'tok perp_state \<Rightarrow> bool"
  for chain :: "'tok Env" where
  called: "hosted chain env \<Longrightarrow> perp_careful c \<Longrightarrow> perp_exec env c s = Inr t \<Longrightarrow> perp_step chain s t"
| elsewhere: "(\<forall>c. token_balance chain c (current_contract_address chain) (tokens s)
      \<le> token_balance chain c (current_contract_address chain) tk) \<Longrightarrow>
    perp_step chain s (s\<lparr>tokens := tk\<rparr>)"
| ageing: "perp_step chain s (s\<lparr>inst_ttl := n, balance_ttl := f\<rparr>)"

definition perp_fresh :: "'tok perp_state \<Rightarrow> bool" where
  "perp_fresh s \<longleftrightarrow> inst_market s = None \<and> (\<forall>p a. perp_balance_of s p a = 0)"

definition perp_collateral :: "'tok Env \<Rightarrow> 'tok perp_state \<Rightarrow> int" where
  "perp_collateral chain s = (case inst_market s of
      None \<Rightarrow> 0
    | Some m \<Rightarrow> token_balance chain (collateral m) (current_contract_address chain) (tokens s))"

lemma perp_uninitialised_exec:
  assumes "perp_exec env c s = Inr t" "inst_market s = None"
  obtains adm coll base_fee min_fee treas liq price_oracle
  where "c = CallInitialize adm coll base_fee min_fee treas liq price_oracle"
  using assms
  by (cases c) (auto simp: res_simps perp_split_def perp_merge_def perp_buy_def perp_sell_def
      perp_transfer_def perp_record_price_checkpoint_def perp_terminate_def perp_redeem_def)

lemma perp_initialize_funds:
  assumes "perp_initialize env adm coll base_fee min_fee treas liq price_oracle s = Inr (r, t)"
    "hosted chain env"
  shows "liq \<le> perp_collateral chain t"
  using assms(1)
proof (rule perp_initialize_effect)
  fix tk
  assume *: "authorized env adm" "tokens t = tk"
    "token_transfer env coll adm (current_contract_address env) liq (tokens s) = Some tk"
    "inst_market t = Some \<lparr>admin = adm, collateral = coll, base_fee_bps = base_fee,
       min_fee_bps = min_fee, treasury = treas, status = Open, pool_yes = liq, pool_no = liq,
       total_supply = liq, initial_liquidity = liq, last_price_cents = 0, last_price_at = 0\<rparr>"
  from hosted_pay_in [OF assms(2) *(1,3)] hosted_balance_nonneg [OF assms(2)] *
  show ?thesis by (simp add: perp_collateral_def)
qed

lemma perp_reserve_frame [simp]:
  "collateral (perp_set_reserve q v m) = collateral m"
  "total_supply (perp_set_reserve q v m) = total_supply m"
  by (cases q; simp)+

text \<open>Every call moves exactly as much collateral as it moves supply.\<close>

lemma perp_exec_funds:
  assumes "perp_exec env c s = Inr t" "hosted chain env" "inst_market s = Some m"
  shows "\<exists>m'. inst_market t = Some m' \<and> collateral m' = collateral m
    \<and> total_supply m' - total_supply m = perp_collateral chain t - perp_collateral chain s"
  using assms(1,3) hosted_pay_in [OF assms(2)] hosted_pay_out [OF assms(2)]
  by (cases c) (auto simp: res_simps perp_collateral_def elim!: perp_initialize_effect perp_split_effect perp_merge_effect
      perp_buy_effect perp_sell_effect perp_transfer_effect perp_checkpoint_effect
      perp_terminate_effect perp_redeem_effect)

text \<open>Every careful call on a sound book is one of the book's moves, or leaves it alone.\<close>

lemma perp_exec_refines:
  assumes "perp_exec env c s = Inr t" "perp_careful c" "perp_book s = Some b" "book_ok b"
  shows "\<exists>d. perp_book t = Some d \<and> (d = b \<or> book_step b d)"
  using assms
  by (cases c) (auto simp: res_simps perp_book_def elim!: perp_initialize_effect
      dest!: perp_split_refines perp_merge_refines perp_buy_refines perp_sell_refines
        perp_transfer_refines perp_checkpoint_refines perp_terminate_refines perp_redeem_refines)

text \<open>Only the initialisation takes a fresh contract out of that state, into a funded, balanced book.\<close>

lemma perp_step_opens:
  assumes fresh: "perp_fresh s" and step: "perp_step chain s t"
  shows "perp_fresh t \<or> (\<exists>n>0. perp_book t = Some (book_start n) \<and> n \<le> perp_collateral chain t)"
  using step
proof cases
  case (called env c)
  from called(3) fresh obtain adm coll base_fee min_fee treas liq price_oracle
    where c: "c = CallInitialize adm coll base_fee min_fee treas liq price_oracle"
    by (auto simp: perp_fresh_def elim: perp_uninitialised_exec)
  with called(3) obtain r where e: "perp_initialize env adm coll base_fee min_fee treas liq
      price_oracle s = Inr (r, t)"
    by (auto simp: res_simps)
  show ?thesis
    using perp_initialize_opens [OF e] perp_initialize_funds [OF e called(1)] fresh
    by (auto simp: perp_fresh_def)
next
  case (elsewhere tk)
  then show ?thesis using fresh by (simp add: perp_fresh_def)
next
  case (ageing n f)
  then show ?thesis using fresh by (simp add: perp_fresh_def perp_balance_of_def)
qed

text \<open>Every later step is a move of the book, or leaves it, with the collateral that the move needs.\<close>

lemma perp_step_moves:
  assumes book: "perp_book s = Some b" "book_ok b" and step: "perp_step chain s t"
  shows "\<exists>c. perp_book t = Some c \<and> (c = b \<or> book_step b c)
    \<and> issued c - issued b \<le> perp_collateral chain t - perp_collateral chain s"
  using step
proof cases
  case (called env c)
  obtain m where m: "inst_market s = Some m" "issued b = total_supply m"
    using book(1) by (auto simp: perp_book_Some perp_book_view_def)
  obtain c' where c': "perp_book t = Some c'" "c' = b \<or> book_step b c'"
    using perp_exec_refines [OF called(3,2) book] by blast
  obtain m' where "inst_market t = Some m'" "issued c' = total_supply m'"
    using c'(1) by (auto simp: perp_book_Some perp_book_view_def)
  then show ?thesis
    using perp_exec_funds [OF called(3,1) m(1)] m(2) c' by auto
next
  case (elsewhere tk)
  then show ?thesis
    using book by (auto simp: perp_book_def perp_collateral_def split: option.splits)
next
  case (ageing n f)
  then show ?thesis
    using book by (auto simp: perp_book_def perp_collateral_def perp_balance_of_def
        perp_book_view_def fun_eq_iff split: option.splits)
qed

text \<open>The perpetual is a contract that implements the book.\<close>

interpretation perp_contract: ctf_contract perp_fresh perp_book "perp_collateral chain"
  "perp_step chain" for chain :: "'tok Env"
  by unfold_locales (fact perp_step_opens, simp add: perp_fresh_def perp_book_def, fact perp_step_moves)

end
