(* ===== verification/Perpetual_Properties.thy ===== *)
theory Perpetual_Properties
  imports Perpetual_Book
begin

text \<open>
  The properties of the perpetual contract: solvency and backing of every reachable state, the
  checkpoint that cannot touch money, the admin's wind-down and the redemption that follows it,
  and whose signature a loss of shares needs.
\<close>

section \<open>A sample perpetual\<close>

text \<open>Liquidity 10000 from the admin 10, treasury 11, collateral token 5, and a price oracle whose
  pinned precisions the caller leaves at zero.\<close>

definition sample_oracle :: "u32 \<Rightarrow> PriceOracleConfig" where
  "sample_oracle d = \<lparr>lazer_contract = 6, feed_id = 100, reflector = sample_feed,
     reflector_decimals_at_init = d, redstone = sample_feed\<lparr>contract := 8\<rparr>,
     redstone_decimals_at_init = d\<rparr>"

definition sample_perp :: Perpetual where
  "sample_perp = \<lparr>admin = 10, collateral = 5, base_fee_bps = 100, min_fee_bps = 20,
     treasury = 11, status = Open, pool_yes = 10000, pool_no = 10000, total_supply = 10000,
     initial_liquidity = 10000, last_price_cents = 0, last_price_at = 0\<rparr>"

definition sample_perp_fresh :: "ledger perp_state" where
  "sample_perp_fresh = \<lparr>inst_market = None, inst_price_oracle = None, balances = Map.empty,
     inst_ttl = 0, balance_ttl = (\<lambda>_. 0), events = [], tokens = sample_tokens\<rparr>"

definition sample_perp_open :: "ledger perp_state" where
  "sample_perp_open = \<lparr>inst_market = Some sample_perp, inst_price_oracle = Some (sample_oracle 14),
     balances = Map.empty, inst_ttl = 535680, balance_ttl = (\<lambda>_. 0), events = [InitEvent 10000],
     tokens = (\<lambda>_ _. 0)(5 := (\<lambda>_. 0)(10 := 990000, 12 := 50000, 1 := 10000))\<rparr>"

definition sample_perp_traded :: "ledger perp_state" where
  "sample_perp_traded = \<lparr>inst_market = Some (sample_perp\<lparr>total_supply := 10300\<rparr>),
     inst_price_oracle = Some (sample_oracle 14), balances = [(Yes, 12) \<mapsto> 300, (No, 12) \<mapsto> 300],
     inst_ttl = 535680, balance_ttl = (\<lambda>_. 0)((Yes, 12) := 535680, (No, 12) := 535680),
     events = [InitEvent 10000, SplitEvent 12 300],
     tokens = (\<lambda>_ _. 0)(5 := (\<lambda>_. 0)(10 := 990000, 12 := 49700, 1 := 10300))\<rparr>"

definition sample_perp_ended :: "ledger perp_state" where
  "sample_perp_ended = \<lparr>inst_market = Some (sample_perp\<lparr>total_supply := 10300, pool_yes := 0,
       pool_no := 0, status := Terminated\<rparr>),
     inst_price_oracle = Some (sample_oracle 14), balances = [(Yes, 12) \<mapsto> 300, (No, 12) \<mapsto> 300,
       (Yes, 11) \<mapsto> 10000, (No, 11) \<mapsto> 10000],
     inst_ttl = 535680, balance_ttl = (\<lambda>_. 0)((Yes, 12) := 535680, (No, 12) := 535680,
       (Yes, 11) := 535680, (No, 11) := 535680),
     events = [InitEvent 10000, SplitEvent 12 300, TerminateEvent],
     tokens = tokens sample_perp_traded\<rparr>"

lemmas sample_perp_defs = sample_env_def sample_feed_def sample_oracle_def sample_perp_def
  sample_perp_fresh_def sample_perp_open_def sample_perp_traded_def sample_perp_ended_def
  sample_tokens_def

lemmas perp_eval = perp_balance_of_def perp_set_balance_def perp_credit_def
  perp_debit_def perp_pay_def perp_publish_def perp_save_market_def perp_touch_def
  perp_load_market_def load_price_oracle_def perp_effective_fee_bps_def require_auth_def
  extend_ttl_def PERP_BUMP_THRESHOLD_def PERP_BUMP_TO_def PERP_MAX_FEE_BPS_def
  PERP_FRESHNESS_WINDOW_SECS_def ledger_transfer_def Let_def discard_def

lemma sample_perp_fresh_ok: "perp_fresh sample_perp_fresh"
  by (simp add: perp_fresh_def sample_perp_fresh_def perp_balance_of_def)

lemma sample_perp_initialised:
  "perp_exec (sample_env 1000000 0) (CallInitialize 10 5 100 20 11 10000 (Some (sample_oracle 0)))
    sample_perp_fresh = Inr sample_perp_open"
  by (simp add: sample_perp_defs perp_initialize_def perp_eval fun_eq_iff)

lemma sample_perp_split:
  "perp_exec (sample_env 1000000 0) (CallSplit 12 300) sample_perp_open = Inr sample_perp_traded"
  by (simp add: sample_perp_defs perp_split_def perp_eval i128_eval fun_eq_iff)

lemma sample_perp_terminate:
  "perp_exec (sample_env 1000000 0) (CallTerminate 10) sample_perp_traded = Inr sample_perp_ended"
  by (simp add: sample_perp_defs perp_terminate_def perp_eval i128_eval fun_eq_iff)

lemma sample_perp_extend:
  assumes "(perp_step (sample_env 0 0))\<^sup>*\<^sup>* sample_perp_fresh s"
    and "perp_exec (sample_env now px) c s = Inr t" "perp_careful c"
  shows "(perp_step (sample_env 0 0))\<^sup>*\<^sup>* sample_perp_fresh t"
  using assms(1) perp_step.called [OF sample_hosted assms(3,2)]
  by (rule rtranclp.rtrancl_into_rtrancl)

lemmas sample_perp_reach = sample_perp_extend [OF rtranclp.rtrancl_refl sample_perp_initialised, simplified]
lemmas sample_perp_reach_traded = sample_perp_extend [OF sample_perp_reach sample_perp_split, simplified]
lemmas sample_perp_reach_ended =
  sample_perp_extend [OF sample_perp_reach_traded sample_perp_terminate, simplified]

section \<open>Solvency\<close>

lemma perp_reach_facts:
  assumes "(perp_step chain)\<^sup>*\<^sup>* s t" "perp_fresh s" "inst_market t = Some m"
  shows "book_ok (perp_book_view m (perp_balance_of t))"
    and "total_supply m \<le> perp_collateral chain t"
    and "fsum (perp_payout m (perp_balance_of t)) \<le> total_supply m"
    and "perp_payout m (perp_balance_of t) user \<le> total_supply m"
proof -
  let ?b = "perp_book_view m (perp_balance_of t)"
  have b: "perp_book t = Some ?b" using assms(3) by (simp add: perp_book_def)
  note reach = perp_contract.reach_book [OF assms(1,2) b]
  show ok: "book_ok ?b" and "total_supply m \<le> perp_collateral chain t"
    using reach by (simp_all add: perp_book_view_def)
  have nn: "0 \<le> perp_balance_of t p a" for p a using ok by (simp add: book_ok_def perp_book_view_def)
  have pay: "perp_payout m (perp_balance_of t) = claimable ?b"
  proof
    fix a show "perp_payout m (perp_balance_of t) a = claimable ?b a"
      using nn [of Yes a] nn [of No a]
      by (cases "status m") (simp_all add: perp_payout_def claimable_def perp_book_view_def sdiv_nonneg)
  qed
  show "perp_payout m (perp_balance_of t) user \<le> total_supply m"
    using claimable_le_issued [OF ok] by (simp add: pay perp_book_view_def)
  show "fsum (perp_payout m (perp_balance_of t)) \<le> total_supply m"
  proof (cases "status m = Open")
    case True
    then show ?thesis
      using issued_nonneg [OF ok] by (simp add: perp_payout_def [abs_def] perp_book_view_def)
  next
    case False
    then show ?thesis using claims_sum(1) [OF ok] by (simp add: pay perp_book_view_def)
  qed
qed

lemma perp_open_book:
  assumes "book_ok (perp_book_view m h)" "status m = Open"
  shows "0 < pool_yes m" "0 < pool_no m" "pool_yes m + fsum (h Yes) = total_supply m"
    "pool_no m + fsum (h No) = total_supply m"
  using assms
  by (simp_all add: book_ok_def covered_def perp_book_view_def all_prediction outstanding_def)

text \<open>C15: In every state a perpetual can reach by transactions whose buyers do not offer to
  receive a negative number of shares, no balance is negative, the contract holds at least
  \<open>total_supply\<close> of its collateral, both ledgers conserve it while the contract is open, and all
  redemptions together stay within it.\<close>

theorem perp_reachable_solvent:
  assumes "(perp_step chain)\<^sup>*\<^sup>* s t" "perp_fresh s" "inst_market t = Some m"
  shows "(\<forall>p a. 0 \<le> perp_balance_of t p a) \<and> 0 \<le> total_supply m
    \<and> total_supply m
        \<le> token_balance chain (collateral m) (current_contract_address chain) (tokens t)
    \<and> (status m = Open \<longrightarrow> 0 < pool_yes m \<and> 0 < pool_no m
        \<and> pool_yes m + fsum (perp_balance_of t Yes) = total_supply m
        \<and> pool_no m + fsum (perp_balance_of t No) = total_supply m)
    \<and> fsum (perp_payout m (perp_balance_of t)) \<le> total_supply m"
proof -
  note f = perp_reach_facts [OF assms]
  have "0 \<le> total_supply m" using issued_nonneg [OF f(1)] by (simp add: perp_book_view_def)
  moreover have "\<forall>p a. 0 \<le> perp_balance_of t p a"
    using f(1) by (simp add: book_ok_def perp_book_view_def)
  ultimately show ?thesis
    using perp_open_book [OF f(1)] f(2,3) assms(3) by (simp add: perp_collateral_def)
qed

lemma perp_reachable_solvent_witness:
  "\<exists>m. inst_market sample_perp_ended = Some m \<and> total_supply m = 10300
    \<and> fsum (perp_payout m (perp_balance_of sample_perp_ended)) \<le> total_supply m"
  using perp_reachable_solvent [OF sample_perp_reach_ended sample_perp_fresh_ok]
  by (simp add: sample_perp_ended_def)

text \<open>Every successful call of a perpetual is a move of the abstract book or leaves it as it
  is, and changes the collateral it holds by exactly the change of \<open>total_supply\<close>.\<close>

theorem perp_call_refines_book:
  assumes "perp_exec env c s = Inr t" "perp_careful c" "hosted chain env"
    and "perp_book s = Some b" "book_ok b"
  shows "\<exists>d. perp_book t = Some d \<and> (d = b \<or> book_step b d) \<and> book_ok d
    \<and> issued d - issued b = perp_collateral chain t - perp_collateral chain s"
proof -
  obtain d where d: "perp_book t = Some d" "d = b \<or> book_step b d"
    using perp_exec_refines [OF assms(1,2,4,5)] by blast
  obtain m where m: "inst_market s = Some m" "issued b = total_supply m"
    using assms(4) by (auto simp: perp_book_Some perp_book_view_def)
  obtain m' where "inst_market t = Some m'" "issued d = total_supply m'"
    using d(1) by (auto simp: perp_book_Some perp_book_view_def)
  then show ?thesis
    using perp_exec_funds [OF assms(1,3) m(1)] m(2) d book_step_ok assms(5) by fastforce
qed

lemma perp_call_refines_book_witness:
  "\<exists>d. perp_book sample_perp_traded = Some d \<and> (d = book_start 10000 \<or> book_step (book_start 10000) d)
    \<and> book_ok d \<and> issued d - issued (book_start 10000)
      = perp_collateral (sample_env 0 0) sample_perp_traded - perp_collateral (sample_env 0 0) sample_perp_open"
proof (rule perp_call_refines_book [OF sample_perp_split _ sample_hosted])
  show "perp_book sample_perp_open = Some (book_start 10000)"
    by (simp add: perp_book_def sample_perp_open_def sample_perp_def perp_book_view_def perp_pool_view
        book_start_def perp_balance_of_def fun_eq_iff prediction_neq)
  show "book_ok (book_start 10000)" by (rule book_start_ok) simp
qed simp

section \<open>The checkpoint\<close>

text \<open>The second a feed of an update is stamped with.\<close>

definition checkpoint_second :: "LazerUpdate \<Rightarrow> LazerFeed \<Rightarrow> nat" where
  "checkpoint_second upd feed =
     unat (case lf_feed_update_timestamp feed of None \<Rightarrow> lu_timestamp upd | Some ts \<Rightarrow> ts) div 1000000"

lemma perp_checkpoint_price_effect:
  assumes "perp_checkpoint_price env orc now payload = Inr cents"
  obtains upd feed p e where
    "lazer_verify_update env (lazer_contract orc) payload = Inr upd"
    "find (\<lambda>f. lf_feed_id f = feed_id orc) (lu_feeds upd) = Some feed"
    "lf_price feed = Some p" "0 < sint p" "lf_exponent feed = Some e"
    "unat now \<le> checkpoint_second upd feed + 300" "checkpoint_second upd feed \<le> unat now + 300"
    "to_cents p e = (Inr cents :: (perp_error, int) res)"
proof -
  from assms obtain upd feed p e where u: "lazer_verify_update env (lazer_contract orc) payload = Inr upd"
    "find (\<lambda>f. lf_feed_id f = feed_id orc) (lu_feeds upd) = Some feed"
    "lf_price feed = Some p" "0 < sint p" "lf_exponent feed = Some e"
    "to_cents p e = (Inr cents :: (perp_error, int) res)"
    and t: "let ts = (case lf_feed_update_timestamp feed of None \<Rightarrow> lu_timestamp upd | Some ts \<Rightarrow> ts)
          div 1000000 in
        unat ts + unat PERP_FRESHNESS_WINDOW_SECS < 2 ^ 64
      \<and> \<not> ts + PERP_FRESHNESS_WINDOW_SECS < now
      \<and> unat now + unat PERP_FRESHNESS_WINDOW_SECS < 2 ^ 64
      \<and> \<not> now + PERP_FRESHNESS_WINDOW_SECS < ts"
    by (auto simp: perp_checkpoint_price_def res_simps Let_def not_le)
  define ts where "ts = (case lf_feed_update_timestamp feed of None \<Rightarrow> lu_timestamp upd | Some ts \<Rightarrow> ts)
          div 1000000"
  have fs: "checkpoint_second upd feed = unat ts"
    by (simp add: checkpoint_second_def ts_def unat_div split: option.splits)
  have w: "unat PERP_FRESHNESS_WINDOW_SECS = 300" by (simp add: PERP_FRESHNESS_WINDOW_SECS_def)
  have "unat now \<le> unat ts + 300" "unat ts \<le> unat now + 300"
    using t unat_word_add [of ts PERP_FRESHNESS_WINDOW_SECS]
      unat_word_add [of now PERP_FRESHNESS_WINDOW_SECS]
    unfolding Let_def ts_def [symmetric] by (simp_all add: word_less_nat_alt w)
  then show thesis using that u fs by metis
qed

text \<open>C16: A checkpoint has no economic effect: whatever the payload, it changes no balance, no
  pool, no supply, no status and no token, only the two informational fields; and it records a
  price only when a verified update carries a positive price of the configured feed stamped
  within 300 seconds of the call and both oracle legs corroborate it.\<close>

theorem perp_checkpoint_is_inert:
  assumes "perp_record_price_checkpoint env payload s = Inr (r, t)"
  shows "\<exists>m orc upd feed p e cents. inst_market s = Some m \<and> inst_price_oracle s = Some orc
    \<and> inst_market t = Some (m\<lparr>last_price_cents := cents, last_price_at := ledger_timestamp env\<rparr>)
    \<and> perp_balance_of t = perp_balance_of s \<and> tokens t = tokens s
    \<and> perp_book t = perp_book s
    \<and> lazer_verify_update env (lazer_contract orc) payload = Inr upd
    \<and> feed \<in> set (lu_feeds upd) \<and> lf_feed_id feed = feed_id orc
    \<and> lf_price feed = Some p \<and> 0 < sint p \<and> lf_exponent feed = Some e
    \<and> to_cents p e = (Inr cents :: (perp_error, int) res)
    \<and> unat (ledger_timestamp env) \<le> checkpoint_second upd feed + 300
    \<and> checkpoint_second upd feed \<le> unat (ledger_timestamp env) + 300
    \<and> corroborates env (reflector orc) (reflector_decimals_at_init orc) (ledger_timestamp env) cents
    \<and> corroborates env (redstone orc) (redstone_decimals_at_init orc) (ledger_timestamp env) cents"
proof -
  from assms obtain m orc cents where m: "inst_market s = Some m" "inst_price_oracle s = Some orc"
    "perp_checkpoint_price env orc (ledger_timestamp env) payload = Inr cents"
    "verify_oracle_corroboration env (reflector orc) (reflector_decimals_at_init orc)
      (ledger_timestamp env) cents = Inr ()"
    "verify_oracle_corroboration env (redstone orc) (redstone_decimals_at_init orc)
      (ledger_timestamp env) cents = Inr ()"
    "inst_market t = Some (m\<lparr>last_price_cents := cents, last_price_at := ledger_timestamp env\<rparr>)"
    "perp_balance_of t = perp_balance_of s" "tokens t = tokens s"
    by (rule perp_checkpoint_effect)
  from m(3) obtain upd feed p e where u: "lazer_verify_update env (lazer_contract orc) payload = Inr upd"
    "find (\<lambda>f. lf_feed_id f = feed_id orc) (lu_feeds upd) = Some feed"
    "lf_price feed = Some p" "0 < sint p" "lf_exponent feed = Some e"
    "unat (ledger_timestamp env) \<le> checkpoint_second upd feed + 300"
    "checkpoint_second upd feed \<le> unat (ledger_timestamp env) + 300"
    "to_cents p e = (Inr cents :: (perp_error, int) res)"
    by (rule perp_checkpoint_price_effect)
  have "perp_book t = perp_book s"
    using perp_checkpoint_refines [OF assms] m(1) by (cases "perp_book s") (auto simp: perp_book_def)
  moreover have "feed \<in> set (lu_feeds upd) \<and> lf_feed_id feed = feed_id orc"
    using u(2) by (auto simp: find_Some_iff)
  ultimately show ?thesis
    using m u verify_corroborates [OF m(4)] verify_corroborates [OF m(5)]
    by (intro exI [of _ m] exI [of _ orc] exI [of _ upd] exI [of _ feed] exI [of _ p] exI [of _ e]
        exI [of _ cents]) simp
qed

lemma sample_checkpoint:
  "\<exists>r t. perp_record_price_checkpoint (sample_env 1086400 150000000000000000) [] sample_perp_traded
    = Inr (r, t)"
  by (simp add: sample_perp_defs perp_record_price_checkpoint_def perp_checkpoint_price_def
      verify_oracle_corroboration_def perp_eval to_cents_def reflector_price_to_cents_def i128_eval
      word_add_def)

lemma perp_checkpoint_is_inert_witness:
  "\<exists>t :: ledger perp_state. perp_book t = perp_book sample_perp_traded
    \<and> tokens t = tokens sample_perp_traded
    \<and> corroborates (sample_env 1086400 150000000000000000) (redstone (sample_oracle 14)) 14 1086400 150000"
proof -
  obtain r t where t: "perp_record_price_checkpoint (sample_env 1086400 150000000000000000) []
      sample_perp_traded = Inr (r, t)"
    using sample_checkpoint by blast
  have "to_cents 150000000000 (- 8) = (Inr 150000 :: (perp_error, int) res)"
    by (simp add: to_cents_def i128_eval)
  then show ?thesis
    using perp_checkpoint_is_inert [OF t]
    by (auto simp: sample_env_def sample_perp_traded_def sample_oracle_def)
qed

section \<open>Wind-down and redemption\<close>

text \<open>C17: Only the stored admin, signing, can terminate a perpetual, once, at any time and
  without any oracle: every other caller gets \<open>Unauthorized\<close>, a second call
  \<open>AlreadyFinalized\<close>, and in a reachable open state the admin's call never fails.  It hands the
  pools to the treasury and moves no collateral.\<close>

theorem perp_terminate_admin_only:
  assumes "(perp_step chain)\<^sup>*\<^sup>* s t" "perp_fresh s" "inst_market t = Some m" "total_supply m \<le> i128_max"
  shows "case perp_terminate env adm t of
      Inr (_, u) \<Rightarrow> adm = admin m \<and> authorized env adm \<and> status m = Open
        \<and> inst_market u = Some (m\<lparr>pool_yes := 0, pool_no := 0, status := Terminated\<rparr>)
        \<and> perp_balance_of u = add_shares (add_shares (perp_balance_of t) Yes (treasury m)
            (pool_yes m)) No (treasury m) (pool_no m)
        \<and> tokens u = tokens t
    | Inl (Err e) \<Rightarrow> e = Unauthorized \<and> adm \<noteq> admin m
        \<or> e = AlreadyFinalized \<and> adm = admin m \<and> authorized env adm \<and> status m = Terminated
    | Inl Trap \<Rightarrow> adm = admin m \<and> \<not> authorized env adm"
proof (cases "adm = admin m \<and> authorized env adm \<and> status m = Open")
  case False
  then show ?thesis
    using assms(3) by (cases "status m")
      (auto simp: perp_terminate_def perp_load_market_def require_auth_def)
next
  case True
  let ?h = "perp_balance_of t"
  have ok: "book_ok (perp_book_view m ?h)" by (rule perp_reach_facts(1) [OF assms(1-3)])
  have op: "status m = Open" using True by simp
  note pools = perp_open_book [OF ok op]
  have nn: "0 \<le> ?h p a" for p a using ok by (simp add: book_ok_def perp_book_view_def)
  have le: "?h p a \<le> fsum (?h p)" for p a
    using ok by (intro le_fsum) (auto simp: book_ok_def finite_holdings_def perp_book_view_def)
  have range: "in_i128 (?h Yes (treasury m) + pool_yes m)" "in_i128 (?h No (treasury m) + pool_no m)"
    using nn [of Yes "treasury m"] nn [of No "treasury m"] le [of Yes "treasury m"]
      le [of No "treasury m"] pools assms(4) unfolding in_i128_def i128_min_def by linarith+
  obtain s1 where s1: "perp_credit Yes (treasury m) (pool_yes m) t = Inr s1"
    using perp.credit_Inr [of Yes "treasury m" "pool_yes m" t] range(1) by blast
  note e1 = perp_credit_effect [OF s1]
  have "in_i128 (perp_balance_of s1 No (treasury m) + pool_no m)"
    using range(2) by (simp add: e1 add_shares_apply)
  then obtain s2 where s2: "perp_credit No (treasury m) (pool_no m) s1 = Inr s2"
    using perp.credit_Inr [of No "treasury m" "pool_no m" s1] by blast
  note e2 = perp_credit_effect [OF s2]
  show ?thesis
    using True assms(3) s1 s2 e1 e2
    by (simp add: perp_terminate_def perp_load_market_def require_auth_def Let_def)
qed

lemma perp_terminate_admin_only_witness:
  "case perp_terminate (sample_env 0 0) 12 sample_perp_traded of Inl (Err e) \<Rightarrow> e = Unauthorized | _ \<Rightarrow> False"
  using perp_terminate_admin_only [OF sample_perp_reach_traded sample_perp_fresh_ok,
      of "sample_perp\<lparr>total_supply := 10300\<rparr>" 12 "sample_env 0 0"]
  by (simp add: sample_perp_traded_def sample_perp_def i128_max_def sample_env_def
      split: sum.splits failure.splits)

text \<open>After the wind-down redemption always works: every holder whose pair position is worth
  something is paid exactly half its shares, rounded down, whatever the others redeemed before,
  as long as the token honours funded transfers and twice the supply fits an \<open>i128\<close>.\<close>

theorem perp_redeem_pays:
  assumes "(perp_step chain)\<^sup>*\<^sup>* s t" "perp_fresh s" "inst_market t = Some m" "status m = Terminated"
    and "hosted chain env" "pays_when_funded env" "authorized env user"
    and "2 \<le> perp_balance_of t Yes user + perp_balance_of t No user" "2 * total_supply m \<le> i128_max"
  shows "\<exists>u. perp_redeem env user t
      = Inr ((perp_balance_of t Yes user + perp_balance_of t No user) div 2, u)
    \<and> perp_balance_of u = drop_shares (perp_balance_of t) user"
proof -
  let ?h = "perp_balance_of t"
  define both where "both = ?h Yes user + ?h No user"
  define pay where "pay = both div 2"
  note f = perp_reach_facts [OF assms(1-3)]
  have b: "2 \<le> both" using assms(8) by (simp add: both_def)
  have payout: "perp_payout m ?h user = pay"
    using b assms(4) by (simp add: perp_payout_def both_def [symmetric] pay_def sdiv_nonneg)
  then have pay: "0 < pay" "pay \<le> total_supply m" using f(4) [of user] b by (simp_all add: pay_def)
  have "pay \<le> token_balance env (collateral m) (current_contract_address env) (tokens t)"
    using pay(2) f(2) assms(3) hosted_facts(2,3) [OF assms(5)] by (simp add: perp_collateral_def)
  then obtain tk where tk: "token_transfer env (collateral m) (current_contract_address env) user
      pay (tokens t) = Some tk"
    using pays_when_fundedD [OF assms(6) less_imp_le [OF pay(1)]] by blast
  have "?h p user \<le> outstanding ?h p" for p
    using f(1) by (intro holding_le_outstanding) (auto simp: book_ok_def perp_book_view_def)
  from this [of Yes] this [of No] have "both \<le> outstanding ?h Yes + outstanding ?h No"
    by (simp add: both_def)
  also have "\<dots> \<le> 2 * total_supply m"
    using f(1) assms(4) by (simp add: book_ok_def covered_def perp_book_view_def)
  finally have range: "in_i128 both" using b assms(9) by (simp add: in_i128_def i128_min_def)
  have ts: "in_i128 (total_supply m - pay)" using pay assms(9) by (simp add: i128_bounds)
  have "i128_div both 2 = (Inr pay :: (perp_error, int) res)"
    unfolding pay_def using range b by (intro i128_div_ok) auto
  then have "\<exists>u. perp_redeem env user t = Inr (pay, u)"
    using assms(3,4,7) tk ts pay(1) range
    by (simp add: perp_redeem_def perp_load_market_def require_auth_def Let_def both_def [symmetric]
        i128_add_def i128_sub_def perp_pay_def perp_clear_effect)
  then obtain u where u: "perp_redeem env user t = Inr (pay, u)" ..
  then have "perp_balance_of u = drop_shares ?h user" by (rule perp_redeem_effect)
  with u show ?thesis by (auto simp: pay_def both_def)
qed

lemma perp_redeem_pays_witness:
  "\<exists>u. perp_redeem (sample_env 0 0) 12 sample_perp_ended
      = Inr ((perp_balance_of sample_perp_ended Yes 12 + perp_balance_of sample_perp_ended No 12) div 2, u)
    \<and> perp_balance_of u = drop_shares (perp_balance_of sample_perp_ended) 12"
  by (rule perp_redeem_pays [OF sample_perp_reach_ended sample_perp_fresh_ok _ _ sample_hosted sample_pays,
        where m = "sample_perp\<lparr>total_supply := 10300, pool_yes := 0, pool_no := 0, status := Terminated\<rparr>"])
    (simp_all add: sample_perp_ended_def sample_perp_def perp_balance_of_def sample_env_def i128_max_def)

section \<open>Who can lose shares\<close>

lemma perp_loss_authorised:
  assumes "(perp_step chain)\<^sup>*\<^sup>* s0 s" "perp_fresh s0"
    and "perp_exec env c s = Inr t"
    and "perp_balance_of t p a < perp_balance_of s p a"
  shows "authorized env a \<and> (\<forall>payload. c \<noteq> CallCheckpoint payload) \<and> (\<forall>adm. c \<noteq> CallTerminate adm)"
proof -
  have pools: "0 < pool_yes m \<and> 0 < pool_no m" if "inst_market s = Some m" "status m = Open" for m
    using perp_open_book [OF perp_reach_facts(1) [OF assms(1,2) that(1)] that(2)] by simp
  show ?thesis
    using assms(3,4) pools
    by (cases c) (auto simp: res_simps add_shares_apply drop_shares_apply split: if_splits
        elim!: perp_split_effect perp_merge_effect perp_buy_effect perp_sell_effect
          perp_transfer_effect perp_checkpoint_effect perp_terminate_effect perp_redeem_effect
          perp_initialize_effect dest: less_imp_le)
qed

text \<open>C20: Nobody loses a share of a perpetual without signing, whatever call is made: when any call, a
  buy with a negative minimum included, lowers an address's balance in a perpetual that buyers with
  non-negative minimums have led to, that address authorised it, and it was neither a checkpoint nor a
  termination.\<close>

theorem perp_loss_is_authorised:
  assumes "(perp_step chain)\<^sup>*\<^sup>* s0 s" "perp_fresh s0"
    and "perp_exec env c s = Inr t"
    and "perp_balance_of t p a < perp_balance_of s p a"
  shows "authorized env a \<and> (\<forall>payload. c \<noteq> CallCheckpoint payload) \<and> (\<forall>adm. c \<noteq> CallTerminate adm)"
  by (rule perp_loss_authorised [OF assms])

lemma sample_perp_merge:
  "\<exists>t. perp_exec (sample_env 0 0) (CallMerge 12 100) sample_perp_traded = Inr t
    \<and> perp_balance_of t Yes 12 = 200"
  by (simp add: sample_perp_defs perp_merge_def perp_eval i128_eval)

lemma perp_loss_is_authorised_witness:
  "authorized (sample_env 0 0) 12 \<and> (\<forall>payload. CallMerge 12 100 \<noteq> CallCheckpoint payload)
    \<and> (\<forall>adm. CallMerge 12 100 \<noteq> CallTerminate adm)"
proof -
  obtain t where t: "perp_exec (sample_env 0 0) (CallMerge 12 100) sample_perp_traded = Inr t"
      "perp_balance_of t Yes 12 = 200"
    using sample_perp_merge by blast
  have "perp_balance_of t Yes 12 < perp_balance_of sample_perp_traded Yes 12"
    by (simp add: t(2)) (simp add: sample_perp_traded_def perp_balance_of_def)
  with t(1) show ?thesis
    by (intro perp_loss_is_authorised [OF sample_perp_reach_traded sample_perp_fresh_ok]) auto
qed

section \<open>Initialisation\<close>

text \<open>A perpetual initialises only once, with fees of at most the ceiling and positive
  liquidity that has been paid in; a price oracle it stores has both precisions read live from
  the oracles, between 2 and 30, whatever the caller passed, and both staleness windows cover
  the oracles' own cadence.\<close>

theorem perp_initialize_pins:
  assumes "perp_initialize env adm coll base_fee min_fee treas liq price_oracle s = Inr (r, t)"
  shows "authorized env adm \<and> inst_market s = None \<and> min_fee \<le> base_fee \<and> base_fee \<le> 1000 \<and> 0 < liq
    \<and> (\<exists>m. inst_market t = Some m \<and> status m = Open \<and> admin m = adm \<and> treasury m = treas
        \<and> pool_yes m = liq \<and> pool_no m = liq \<and> total_supply m = liq \<and> initial_liquidity m = liq)
    \<and> (case price_oracle of None \<Rightarrow> inst_price_oracle t = inst_price_oracle s
       | Some given \<Rightarrow> \<exists>stored. inst_price_oracle t = Some stored \<and> pinned env given stored)"
  using assms by (rule perp_initialize_effect) (simp add: PERP_MAX_FEE_BPS_def)

lemma perp_initialize_pins_witness:
  "\<exists>stored. inst_price_oracle sample_perp_open = Some stored
    \<and> pinned (sample_env 1000000 0) (sample_oracle 0) stored"
proof -
  obtain r where "perp_initialize (sample_env 1000000 0) 10 5 100 20 11 10000 (Some (sample_oracle 0))
      sample_perp_fresh = Inr (r, sample_perp_open)"
    using sample_perp_initialised by (auto simp: discard_eq_Inr)
  from perp_initialize_pins [OF this] show ?thesis by simp
qed

end
