(* ===== verification/Shared_Trading.thy ===== *)
theory Shared_Trading
  imports Market_Settlement Perpetual_Properties
begin

text \<open>
  The trading halves of the two contracts.  The source of \<open>perpetual\<close> repeats the storage helpers
  and the entry points \<open>split\<close>, \<open>merge\<close>, \<open>buy\<close>, \<open>sell\<close>, \<open>transfer\<close> and \<open>redeem\<close> of \<open>market\<close>; both
  are modelled from their own source.  Here the two are compared: a perpetual is read as a market
  that does not expire, and every shared call does the same to both, on every branch.
\<close>

section \<open>A perpetual as a market\<close>

text \<open>The market that a perpetual stands for.  What a perpetual does not have (strike, expiry, grace
  period, oracles) is taken from \<open>k\<close>; a terminated perpetual is a cancelled market.\<close>

fun as_market_status :: "PerpetualStatus \<Rightarrow> MarketStatus" where
  "as_market_status PerpetualStatus.Open = MarketStatus.Open"
| "as_market_status Terminated = Cancelled"

definition as_market_record :: "Market \<Rightarrow> Perpetual \<Rightarrow> Market" where
  "as_market_record k m = k\<lparr>Market.admin := Perpetual.admin m, Market.collateral := Perpetual.collateral m,
     Market.base_fee_bps := Perpetual.base_fee_bps m, Market.min_fee_bps := Perpetual.min_fee_bps m,
     Market.treasury := Perpetual.treasury m, Market.status := as_market_status (Perpetual.status m),
     Market.pool_yes := Perpetual.pool_yes m, Market.pool_no := Perpetual.pool_no m,
     Market.total_supply := Perpetual.total_supply m,
     Market.initial_liquidity := Perpetual.initial_liquidity m\<rparr>"

fun as_market_event :: "Market \<Rightarrow> perp_event \<Rightarrow> market_event list" where
  "as_market_event k (perp_event.InitEvent n) = [market_event.InitEvent (Market.strike_price k) (Market.expiry k)]"
| "as_market_event k (perp_event.SplitEvent u n) = [market_event.SplitEvent u n]"
| "as_market_event k (perp_event.MergeEvent u n) = [market_event.MergeEvent u n]"
| "as_market_event k (perp_event.BuyEvent u p n out) = [market_event.BuyEvent u p n out]"
| "as_market_event k (perp_event.SellEvent u p n out) = [market_event.SellEvent u p n out]"
| "as_market_event k (perp_event.TransferEvent u v p n) = [market_event.TransferEvent u v p n]"
| "as_market_event k (CheckpointEvent cents at) = []"
| "as_market_event k TerminateEvent = [CancelEvent]"
| "as_market_event k (perp_event.RedeemEvent u n) = [market_event.RedeemEvent u n]"

definition as_market :: "Market \<Rightarrow> 'tok perp_state \<Rightarrow> 'tok market_state" where
  "as_market k st = \<lparr>market_store.inst_market = map_option (as_market_record k) (perp_store.inst_market st),
     market_store.inst_redstone = None, market_store.balances = perp_store.balances st,
     market_store.inst_ttl = perp_store.inst_ttl st, market_store.balance_ttl = perp_store.balance_ttl st,
     market_store.events = concat (map (as_market_event k) (perp_store.events st)),
     market_state.tokens = perp_state.tokens st\<rparr>"

text \<open>The errors that both contracts name alike.\<close>

fun shared_error :: "perp_error \<Rightarrow> market_error option" where
  "shared_error perp_error.NotInitialized = Some market_error.NotInitialized"
| "shared_error perp_error.MarketNotOpen = Some market_error.MarketNotOpen"
| "shared_error perp_error.InvalidAmount = Some market_error.InvalidAmount"
| "shared_error perp_error.InsufficientBalance = Some market_error.InsufficientBalance"
| "shared_error perp_error.SlippageExceeded = Some market_error.SlippageExceeded"
| "shared_error perp_error.PoolDepthExceeded = Some market_error.PoolDepthExceeded"
| "shared_error perp_error.NotFinalized = Some market_error.NotFinalized"
| "shared_error perp_error.NothingToRedeem = Some market_error.NothingToRedeem"
| "shared_error perp_error.AlreadyFinalized = Some market_error.AlreadyFinalized"
| "shared_error _ = None"

fun shared_call :: "perp_call \<Rightarrow> market_call option" where
  "shared_call (perp_call.CallSplit u n) = Some (market_call.CallSplit u n)"
| "shared_call (perp_call.CallMerge u n) = Some (market_call.CallMerge u n)"
| "shared_call (perp_call.CallBuy u p n mo) = Some (market_call.CallBuy u p n mo)"
| "shared_call (perp_call.CallSell u p n mo) = Some (market_call.CallSell u p n mo)"
| "shared_call (perp_call.CallTransfer u v p n) = Some (market_call.CallTransfer u v p n)"
| "shared_call (perp_call.CallRedeem u) = Some (market_call.CallRedeem u)"
| "shared_call _ = None"

section \<open>Agreement of results\<close>

text \<open>Two calls agree when both trap, both return the same typed error, or both return related
  values.\<close>

definition agree :: "('a \<Rightarrow> 'b \<Rightarrow> bool) \<Rightarrow> (perp_error, 'a) res \<Rightarrow> (market_error, 'b) res \<Rightarrow> bool" where
  "agree R = rel_sum (rel_failure (\<lambda>e f. shared_error e = Some f)) R"

named_theorems agree_intros "agreement of composed calls"

lemma agree_values [agree_intros]: "R x y \<Longrightarrow> agree R (Inr x) (Inr y)"
  by (simp add: agree_def)

lemma agree_failures [simp]:
  "agree R (Inl Trap) (Inl Trap)"
  "shared_error e = Some f \<Longrightarrow> agree R (Inl (Err e)) (Inl (Err f))"
  by (simp_all add: agree_def)

lemma agree_bind:
  "agree R m n \<Longrightarrow> (\<And>x y. R x y \<Longrightarrow> agree S (f x) (g y)) \<Longrightarrow> agree S (bindr m f) (bindr n g)"
  unfolding agree_def by (cases m; cases n) auto

lemma agree_if [agree_intros]:
  "c \<longleftrightarrow> d \<Longrightarrow> (d \<Longrightarrow> agree R m n) \<Longrightarrow> (\<not> d \<Longrightarrow> agree R m' n') \<Longrightarrow>
    agree R (if c then m else m') (if d then n else n')"
  by simp

text \<open>The three relations values are in: equal, a perpetual's record and its market's, a perpetual's
  state and its market's.\<close>

abbreviation same_state :: "Market \<Rightarrow> 'tok perp_state \<Rightarrow> 'tok market_state \<Rightarrow> bool" where
  "same_state k st st' \<equiv> st' = as_market k st"

abbreviation same_record :: "Market \<Rightarrow> Perpetual \<Rightarrow> Market \<Rightarrow> bool" where
  "same_record k m m' \<equiv> m' = as_market_record k m"

lemma agree_binds [agree_intros]:
  "agree (=) m n \<Longrightarrow> (\<And>x. agree S (f x) (g x)) \<Longrightarrow> agree S (bindr m f) (bindr n g)"
  "agree (same_state k) m' n' \<Longrightarrow> (\<And>x. agree S (f' x) (g' (as_market k x))) \<Longrightarrow> agree S (bindr m' f') (bindr n' g')"
  "agree (same_record k) m'' n'' \<Longrightarrow> (\<And>x. agree S (f'' x) (g'' (as_market_record k x))) \<Longrightarrow>
    agree S (bindr m'' f'') (bindr n'' g'')"
  by (auto intro: agree_bind)

section \<open>What both contracts call\<close>

lemma agree_arith [agree_intros]:
  "agree (=) (i128 a) (i128 a)" "agree (=) (i128_add a b) (i128_add a b)" "agree (=) (i128_sub a b) (i128_sub a b)"
  "agree (=) (i128_mul a b) (i128_mul a b)" "agree (=) (i128_div a b) (i128_div a b)"
  "agree (=) (require_auth env adr) (require_auth env adr)" "agree (=) (sub_call x) (sub_call x)"
  by (simp_all add: i128_ops i128_def require_auth_def agree_values sub_call_def split: option.split)

lemma agree_bind_value:
  "agree (=) m n \<Longrightarrow> (\<And>x. m = Inr x \<Longrightarrow> agree S (f x) (g x)) \<Longrightarrow> agree S (bindr m f) (bindr n g)"
  unfolding agree_def by (cases m; cases n) auto

lemma agree_isqrt_loop [agree_intros]: "agree (=) (isqrt_loop n x y) (isqrt_loop n x y)"
proof (induction n x y rule: isqrt_loop.induct [where 'a = perp_error])
  case (1 n x y)
  show ?case
  proof (cases "y < x")
    case True
    have unfold: "isqrt_loop n x y = (bindr (i128_div n y) (\<lambda>q. bindr (i128_add y q) (\<lambda>s.
        bindr (i128_div s 2) (\<lambda>y'. isqrt_loop n y y'))) :: ('e, int) res)" for e :: 'e
      using True by (subst isqrt_loop.simps) simp
    show ?thesis
      unfolding unfold
      by (intro agree_bind_value agree_arith 1 [OF True])
  next
    case False
    then show ?thesis by (subst (1 2) isqrt_loop.simps) (simp add: agree_values)
  qed
qed

lemma agree_isqrt [agree_intros]: "agree (=) (isqrt n) (isqrt n)"
  unfolding isqrt_def by (intro agree_intros) simp_all

lemma agree_math [agree_intros]:
  "agree (=) (cpmm_out rin rout ein) (cpmm_out rin rout ein)"
  "agree (=) (cpmm_sell_out rin rout ein) (cpmm_sell_out rin rout ein)"
  "agree (=) (apply_fee n fee) (apply_fee n fee)"
  "agree (=) (effective_fee_bps base mn liq ts) (effective_fee_bps base mn liq ts)"
  unfolding cpmm_out_def cpmm_sell_out_def apply_fee_def effective_fee_bps_def Let_def
  by (intro agree_intros refl)+

section \<open>The storage helpers\<close>

lemma as_market_fields [simp]:
  "market_store.inst_market (as_market k st) = map_option (as_market_record k) (perp_store.inst_market st)"
  "market_balance_of (as_market k st) = perp_balance_of st"
  "market_state.tokens (as_market k st) = perp_state.tokens st"
  by (simp_all add: as_market_def fun_eq_iff market_balance_of_def perp_balance_of_def)

lemma as_market_record_fields [simp]:
  "Market.collateral (as_market_record k m) = Perpetual.collateral m"
  "Market.treasury (as_market_record k m) = Perpetual.treasury m"
  "Market.total_supply (as_market_record k m) = Perpetual.total_supply m"
  "Market.pool_yes (as_market_record k m) = Perpetual.pool_yes m"
  "Market.pool_no (as_market_record k m) = Perpetual.pool_no m"
  "Market.expiry (as_market_record k m) = Market.expiry k"
  "Market.grace_period (as_market_record k m) = Market.grace_period k"
  "Market.status (as_market_record k m) = as_market_status (Perpetual.status m)"
  "market_effective_fee_bps (as_market_record k m)
    = effective_fee_bps (Perpetual.base_fee_bps m) (Perpetual.min_fee_bps m) (Perpetual.initial_liquidity m)
        (Perpetual.total_supply m)"
  by (simp_all add: as_market_record_def market_effective_fee_bps_def)

lemma as_market_status_Open [simp]:
  "as_market_status x = MarketStatus.Open \<longleftrightarrow> x = PerpetualStatus.Open"
  by (cases x) simp_all

lemma as_market_reserves [simp]: "market_reserves (as_market_record k m) p = perp_reserves m p"
  by (cases p) simp_all

lemma as_market_payout: "market_payout (as_market_record k m) h = perp_payout m h"
  by (cases "Perpetual.status m") (simp_all add: fun_eq_iff market_payout_def perp_payout_def)

lemma as_market_updates [simp]:
  "as_market_record k m\<lparr>Market.total_supply := ts\<rparr> = as_market_record k (m\<lparr>Perpetual.total_supply := ts\<rparr>)"
  "market_set_reserve p v (as_market_record k m) = as_market_record k (perp_set_reserve p v m)"
  by (simp add: as_market_record_def) (cases p; simp add: as_market_record_def)

lemma as_market_set_balance [simp]:
  "market_set_balance p a v (as_market k st) = as_market k (perp_set_balance p a v st)"
  by (simp add: market_set_balance_def perp_set_balance_def as_market_def BUMP_TO_def BUMP_THRESHOLD_def
      PERP_BUMP_TO_def PERP_BUMP_THRESHOLD_def)

lemma as_market_save [simp]:
  "save_market (as_market_record k m) (as_market k st) = as_market k (perp_save_market m st)"
  by (simp add: save_market_def perp_save_market_def market_touch_def perp_touch_def as_market_def
      BUMP_TO_def BUMP_THRESHOLD_def PERP_BUMP_TO_def PERP_BUMP_THRESHOLD_def)

lemma as_market_publish:
  "as_market_event k e = [e'] \<Longrightarrow> market_publish e' (as_market k st) = as_market k (perp_publish e st)"
  by (simp add: market_publish_def perp_publish_def as_market_def)

lemma agree_load [agree_intros]:
  "agree (same_record k) (perp_load_market st) (load_market (as_market k st))"
  by (cases "perp_store.inst_market st") (simp_all add: perp_load_market_def load_market_def agree_values)

lemma agree_credit [agree_intros]:
  "agree (same_state k) (perp_credit p a v st) (market_credit p a v (as_market k st))"
  unfolding perp_credit_def market_credit_def Let_def as_market_fields
  by (intro agree_intros) simp

lemma agree_debit [agree_intros]:
  "agree (same_state k) (perp_debit p a v st) (market_debit p a v (as_market k st))"
  unfolding perp_debit_def market_debit_def Let_def as_market_fields
  by (intro agree_intros) simp_all

lemma agree_pay [agree_intros]:
  "agree (same_state k) (perp_pay env c src dst n st) (market_pay env c src dst n (as_market k st))"
  unfolding perp_pay_def market_pay_def as_market_fields
  by (intro agree_intros) (simp add: as_market_def)

section \<open>The shared calls\<close>

abbreviation same_result :: "Market \<Rightarrow> 'a \<times> 'tok perp_state \<Rightarrow> 'a \<times> 'tok market_state \<Rightarrow> bool" where
  "same_result k x y \<equiv> y = (fst x, as_market k (snd x))"

lemma agree_split:
  "agree (same_result k) (perp_split env user n st) (market_split env user n (as_market k st))"
  unfolding perp_split_def market_split_def Let_def
  by (rule agree_intros | simp add: as_market_publish)+

lemma agree_merge:
  "agree (same_result k) (perp_merge env user n st) (market_merge env user n (as_market k st))"
  unfolding perp_merge_def market_merge_def Let_def
  by (rule agree_intros | simp add: as_market_publish)+

lemma agree_transfer:
  "agree (same_result k) (perp_transfer env from to p n st) (market_transfer env from to p n (as_market k st))"
  unfolding perp_transfer_def market_transfer_def
  by (rule agree_intros | simp add: as_market_publish)+

lemma agree_case_prod [agree_intros]:
  "(\<And>x y. agree R (f x y) (g x y)) \<Longrightarrow> agree R (case z of (x, y) \<Rightarrow> f x y) (case z of (x, y) \<Rightarrow> g x y)"
  by (cases z) simp

text \<open>The one guard a market has and a perpetual has not is the expiry.\<close>

lemma agree_open_guard [agree_intros]:
  "\<not> d \<Longrightarrow> agree R m n \<Longrightarrow> agree R m (if d then n' else n)"
  by simp

lemma agree_buy:
  assumes "ledger_timestamp env < Market.expiry k"
  shows "agree (same_result k) (perp_buy env user p n mo st) (market_buy env user p n mo (as_market k st))"
  unfolding perp_buy_def market_buy_def Let_def perp_effective_fee_bps_def
  using assms by - (rule agree_intros | simp add: as_market_publish)+

lemma agree_sell:
  assumes "ledger_timestamp env < Market.expiry k"
  shows "agree (same_result k) (perp_sell env user p n mo st) (market_sell env user p n mo (as_market k st))"
  unfolding perp_sell_def market_sell_def Let_def perp_effective_fee_bps_def
  using assms by - (rule agree_intros | simp add: as_market_publish)+

lemma as_market_clear [simp]:
  "market_clear_balances a (as_market k st) = as_market k (perp_clear_balances a st)"
  by (simp add: market_clear_balances_def perp_clear_balances_def)

lemma agree_redeem:
  "agree (same_result k) (perp_redeem env user st) (market_redeem env user (as_market k st))"
proof (cases "perp_store.inst_market st")
  case None
  then show ?thesis
    by (simp add: perp_redeem_def market_redeem_def perp_load_market_def load_market_def require_auth_def)
next
  case (Some m)
  show ?thesis
  proof (cases "Perpetual.status m")
    case Open
    then show ?thesis
      using Some
      by (simp add: perp_redeem_def market_redeem_def perp_load_market_def load_market_def require_auth_def)
  next
    case Terminated
    have assoc: "bindr (bindr x f) g = bindr x (\<lambda>y. bindr (f y) g)" for x :: "(market_error, 'x) res"
      and f :: "'x \<Rightarrow> (market_error, 'y) res" and g :: "'y \<Rightarrow> (market_error, 'z) res"
      by (cases x) simp_all
    show ?thesis
      using Some Terminated
      by (simp add: perp_redeem_def market_redeem_def perp_load_market_def load_market_def assoc Let_def)
        (rule agree_intros | simp add: as_market_publish)+
  qed
qed

lemma trades_as_market:
  assumes "shared_call c = Some d" "ledger_timestamp env < Market.expiry k"
  shows "agree (same_state k) (perp_exec env c st) (market_exec env d (as_market k st))"
proof -
  have out: "agree (same_state k) (discard m) (discard n)" if "agree (same_result k) m n" for m n
    unfolding discard_def by (rule agree_bind [OF that]) (auto intro: agree_values)
  show ?thesis
    using assms by (cases c) (auto intro!: out agree_split agree_merge agree_buy agree_sell agree_transfer
        agree_redeem)
qed

text \<open>C21: A perpetual trades exactly as a market does.  Each call the two contracts share, split, merge,
  buy, sell, transfer and redeem, does the same on a perpetual as on the market it stands for, whose
  expiry has not come: both trap, or both are rejected with the error of the same name, or both succeed
  with states that correspond in the record, every balance, the lifetimes, the events (which carry the
  amounts paid) and the tokens, a terminated perpetual corresponding to a cancelled market.\<close>

theorem perp_trades_as_market:
  assumes "shared_call c = Some d" "ledger_timestamp env < Market.expiry k"
  shows "agree (same_state k) (perp_exec env c st) (market_exec env d (as_market k st))"
  by (rule trades_as_market [OF assms])

lemma agree_Inr: "agree (same_state k) (Inr x) n \<longleftrightarrow> n = Inr (as_market k x)"
  by (cases n) (auto simp: agree_def)

lemma perp_trades_as_market_witness:
  "market_exec (sample_env 1000000 0) (market_call.CallSplit 12 300) (as_market sample_market sample_perp_open)
    = Inr (as_market sample_market sample_perp_traded)"
  using perp_trades_as_market [of "perp_call.CallSplit 12 300" "market_call.CallSplit 12 300"
      "sample_env 1000000 0" sample_market sample_perp_open]
  by (simp add: sample_perp_split agree_Inr sample_env_fields sample_market_def del: market_exec.simps perp_exec.simps)

section \<open>The calls of a perpetual alone\<close>

lemma terminate_as_cancel:
  assumes "perp_store.inst_market st = Some m" "authorized env (Perpetual.admin m)"
    and "unat (Market.expiry k) + unat (Market.grace_period k) \<le> unat (ledger_timestamp env)"
  shows "agree (same_state k) (perp_exec env (CallTerminate (Perpetual.admin m)) st)
      (market_exec env CallCancel (as_market k st))"
proof -
  note deadline = grace_over [OF assms(3)]
  have rec_eq: "as_market_record k m'\<lparr>Market.pool_yes := 0, Market.pool_no := 0, Market.status := Cancelled\<rparr>
      = as_market_record k (m'\<lparr>Perpetual.pool_yes := 0, Perpetual.pool_no := 0, Perpetual.status := Terminated\<rparr>)"
    for m' by (simp add: as_market_record_def)
  have "agree (same_result k) (perp_terminate env (Perpetual.admin m) st) (market_cancel env (as_market k st))"
    using assms(1,2) deadline
    by (simp add: perp_terminate_def market_cancel_def Let_def perp_load_market_def load_market_def
        require_auth_def) (rule impI agree_intros | simp add: rec_eq as_market_publish)+
  then show ?thesis
    unfolding perp_exec.simps market_exec.simps discard_def by (rule agree_bind) (auto intro: agree_values)
qed

lemma checkpoint_as_touch:
  "perp_exec env (CallCheckpoint payload) st = Inr st' \<Longrightarrow> as_market k st' = market_touch (as_market k st)"
  by (auto simp: res_simps perp_record_price_checkpoint_def Let_def perp_save_market_def perp_touch_def
      perp_publish_def as_market_def as_market_record_def market_touch_def BUMP_TO_def BUMP_THRESHOLD_def
      PERP_BUMP_TO_def PERP_BUMP_THRESHOLD_def)

text \<open>What a perpetual does differently.  Its wind-down by the admin is the cancellation of the market
  it stands for, which needs no signature but a grace period that has passed; and a price checkpoint
  leaves that market as it is, but for the lifetime of the instance storage.\<close>

theorem perp_terminate_as_cancel:
  assumes "perp_store.inst_market st = Some m" "authorized env (Perpetual.admin m)"
    and "unat (Market.expiry k) + unat (Market.grace_period k) \<le> unat (ledger_timestamp env)"
  shows "agree (same_state k) (perp_exec env (CallTerminate (Perpetual.admin m)) st)
      (market_exec env CallCancel (as_market k st))
    \<and> (\<forall>payload st'. perp_exec env (CallCheckpoint payload) st = Inr st' \<longrightarrow>
        as_market k st' = market_touch (as_market k st))"
  using terminate_as_cancel [OF assms] checkpoint_as_touch by blast

lemma perp_terminate_as_cancel_witness:
  "market_exec (sample_env 1000000 0) CallCancel
      (as_market (sample_market\<lparr>Market.expiry := 900000\<rparr>) sample_perp_traded)
    = Inr (as_market (sample_market\<lparr>Market.expiry := 900000\<rparr>) sample_perp_ended)"
  using perp_terminate_as_cancel [of sample_perp_traded "sample_perp\<lparr>Perpetual.total_supply := 10300\<rparr>"
      "sample_env 1000000 0" "sample_market\<lparr>Market.expiry := 900000\<rparr>"] sample_perp_terminate
  by (simp add: agree_Inr sample_env_fields sample_market_def sample_perp_traded_def sample_perp_def
      del: market_exec.simps perp_exec.simps)

end
