(* ===== verification/Market_Trading.thy ===== *)
theory Market_Trading
  imports Market_Properties
begin

text \<open>
  Trading in a market: whose signature a loss of shares needs, splitting and merging as
  inverses, what a buy and a sell do to the pools and what they pay, the price query, and the
  limits of the documented guarantees: rounding pays the trader, the supply can fall below the
  initial liquidity, and a negative slippage bound can break the backing of the shares.
\<close>

section \<open>Who can lose shares\<close>

lemma reach_open_pools:
  assumes "(market_step chain)\<^sup>*\<^sup>* s0 s" "market_fresh s0" "inst_market s = Some m" "status m = Open"
  shows "0 < pool_yes m" "0 < pool_no m"
  using open_book [OF reach_facts(1) [OF assms(1-3)] assms(4)] by simp_all

lemma reserves_swap: "market_reserves m (other p) = (x, y) \<Longrightarrow> market_reserves m p = (y, x)"
  by (cases p) auto

lemma loss_is_authorised:
  assumes "(market_step chain)\<^sup>*\<^sup>* s0 s" "market_fresh s0"
    and "market_exec env c s = Inr t"
    and "market_balance_of t p a < market_balance_of s p a"
  shows "authorized env a \<and> c \<noteq> CallCancel \<and> (\<forall>payload. c \<noteq> CallSettle payload)"
  using assms(3,4) reach_open_pools [OF assms(1,2)]
  by (cases c) (auto simp: res_simps add_shares_apply drop_shares_apply split: if_splits
      elim!: market_split_effect market_merge_effect market_buy_effect market_sell_effect
        market_transfer_effect market_settle_effect market_cancel_effect market_redeem_effect
        market_initialize_effect dest: less_imp_le)

text \<open>C10: Nobody loses a share without signing: when any call, a buy with a negative minimum included,
  lowers an address's balance of either share in a market that buyers with non-negative minimums have
  led to, that address authorised the transaction.  The permissionless \<open>settle\<close> and \<open>cancel\<close> lower no
  balance at all.\<close>

theorem market_loss_is_authorised:
  assumes "(market_step chain)\<^sup>*\<^sup>* s0 s" "market_fresh s0"
    and "market_exec env c s = Inr t"
    and "market_balance_of t p a < market_balance_of s p a"
  shows "authorized env a \<and> c \<noteq> CallCancel \<and> (\<forall>payload. c \<noteq> CallSettle payload)"
  by (rule loss_is_authorised [OF assms])

lemma sample_transfer:
  "\<exists>t. market_exec (sample_env 1000000 0) (CallTransfer 12 13 Yes 100) sample_traded = Inr t
    \<and> market_balance_of t Yes 12 = 200"
  by (simp add: sample_defs sample_traded_def market_transfer_def market_eval i128_eval)

lemma market_loss_is_authorised_witness:
  "authorized (sample_env 1000000 0) 12 \<and> CallTransfer 12 13 Yes 100 \<noteq> CallCancel
    \<and> (\<forall>payload. CallTransfer 12 13 Yes 100 \<noteq> CallSettle payload)"
proof -
  obtain t where t: "market_exec (sample_env 1000000 0) (CallTransfer 12 13 Yes 100) sample_traded = Inr t"
      "market_balance_of t Yes 12 = 200"
    using sample_transfer by blast
  have "market_balance_of t Yes 12 < market_balance_of sample_traded Yes 12"
    by (simp add: t(2)) (simp add: sample_traded_def market_balance_of_def)
  with t(1) show ?thesis by (intro market_loss_is_authorised [OF sample_reach_traded sample_fresh_ok]) auto
qed

text \<open>A split and a merge of the same shares cancel out.\<close>

lemma add_shares_cancel [simp]:
  "add_shares (add_shares (add_shares (add_shares h Yes u n) No u n) Yes u (- n)) No u (- n) = h"
  by (auto simp: add_shares_def fun_eq_iff)

section \<open>Buying and selling\<close>

lemma reach_reserves:
  assumes "(market_step chain)\<^sup>*\<^sup>* s0 s" "market_fresh s0" "inst_market s = Some m" "status m = Open"
    and "market_reserves m p = (x, y)"
  shows "0 < x" "0 < y"
  using reach_open_pools [OF assms(1-4)] assms(5) by (cases p; auto)+

text \<open>The depth guard forces a positive denominator of the swap.\<close>

lemma cpmm_out_guarded:
  assumes "cpmm_out rin rout ein = (Inr out :: ('e, int) res)" "0 < rin" "0 < rout" "2 * out < rout"
  shows "0 < rin + ein"
proof (rule ccontr)
  assume neg: "\<not> 0 < rin + ein"
  from assms(1) have nz: "rin + ein \<noteq> 0" and out: "out = rout - (rin * rout) sdiv (rin + ein)"
    by (auto simp: cpmm_out_def res_simps)
  have "0 < rin * rout" using assms(2,3) by simp
  then have "(rin * rout) sdiv (rin + ein) \<le> 0"
    using neg nz pos_imp_zdiv_nonneg_iff [of "- rin - ein" "rin * rout"]
    by (simp add: signed_divide_int_def sgn_if)
  then show False using out assms(3,4) by linarith
qed

lemma buy_trade_effect:
  assumes "(market_step chain)\<^sup>*\<^sup>* s0 s" "market_fresh s0"
    and "market_buy env user p n min_out s = Inr (r, t)" "inst_market s = Some m"
    and "market_reserves m p = (wanted, unwanted)"
  shows "\<exists>m' wanted'. inst_market t = Some m' \<and> market_reserves m' p = (wanted', unwanted + n)
    \<and> total_supply m' = total_supply m + n \<and> n + min_out \<le> r
    \<and> wanted' = wanted - (r - n) \<and> wanted < 2 * wanted'
    \<and> unwanted * wanted < (unwanted + n) * (wanted' + 1)
    \<and> (\<forall>q a. market_balance_of t q a = market_balance_of s q a + (if q = p \<and> a = user then r else 0))"
  using assms(3)
proof (rule market_buy_effect)
  fix k tk rin rout fee ein out
  assume k: "inst_market s = Some k" "status k = Open" "0 < n" "market_reserves k (other p) = (rin, rout)"
    and trade: "apply_fee n fee = (Inr ein :: (market_error, int) res)"
      "cpmm_out rin rout ein = (Inr out :: (market_error, int) res)" "2 * out < rout" "min_out \<le> out"
      "r = n + out"
    and t: "inst_market t = Some (market_set_reserve p (rout - out)
       (market_set_reserve (other p) (rin + n) (k\<lparr>total_supply := total_supply k + n\<rparr>)))"
      "market_balance_of t = add_shares (market_balance_of s) p user (n + out)"
  have m: "k = m" "rin = unwanted" "rout = wanted"
    using k(1,4) assms(4,5) reserves_swap [of m p rin rout] by auto
  have pos: "0 < unwanted" "0 < wanted"
    using reach_reserves [OF assms(1,2,4) _ assms(5)] k(2) m(1) by auto
  have den: "0 < unwanted + ein" using cpmm_out_guarded [OF trade(2)] trade(3) pos m by simp
  have out: "out = wanted - unwanted * wanted div (unwanted + ein)"
    using cpmm_out_eq [OF trade(2)] pos den m by simp
  have "unwanted * wanted < (unwanted + ein) * (unwanted * wanted div (unwanted + ein)) + (unwanted + ein)"
    using den pos_mod_bound [of "unwanted + ein" "unwanted * wanted"]
      mult_div_mod_eq [of "unwanted + ein" "unwanted * wanted"] by linarith
  also have "\<dots> = (unwanted + ein) * (wanted - out + 1)" by (simp add: out algebra_simps)
  also have "\<dots> \<le> (unwanted + n) * (wanted - out + 1)"
    using effective_in_le [OF trade(1) k(3)] trade(3) m pos by (intro mult_right_mono) auto
  finally have prod: "unwanted * wanted < (unwanted + n) * (wanted - out + 1)" .
  show ?thesis
    using t trade prod m
    by (intro exI [of _ "market_set_reserve p (wanted - out) (market_set_reserve (other p) (unwanted + n)
        (m\<lparr>total_supply := total_supply m + n\<rparr>))"] exI [of _ "wanted - out"])
      (cases p; auto simp: add_shares_apply)
qed

text \<open>C27: A successful buy gives the buyer, for \<open>n\<close> units of collateral, \<open>r >= n + min_out\<close>
  shares of the wanted side and leaves every other balance alone; the wanted pool keeps more
  than half of its shares, the other one grows by \<open>n\<close>, and the product of the pools falls by
  less than one share's worth.\<close>

theorem market_buy_trade:
  assumes "(market_step chain)\<^sup>*\<^sup>* s0 s" "market_fresh s0"
    and "market_buy env user p n min_out s = Inr (r, t)" "inst_market s = Some m"
    and "market_reserves m p = (wanted, unwanted)"
  shows "\<exists>m' wanted'. inst_market t = Some m' \<and> market_reserves m' p = (wanted', unwanted + n)
    \<and> total_supply m' = total_supply m + n \<and> n + min_out \<le> r
    \<and> wanted' = wanted - (r - n) \<and> wanted < 2 * wanted'
    \<and> unwanted * wanted < (unwanted + n) * (wanted' + 1)
    \<and> (\<forall>q a. market_balance_of t q a = market_balance_of s q a + (if q = p \<and> a = user then r else 0))"
  by (rule buy_trade_effect [OF assms])

lemma sample_buy:
  "\<exists>t. market_buy (sample_env 1000000 0) 12 Yes 1000 900 sample_open = Inr (1901, t)"
  by (simp add: sample_defs market_buy_def market_eval math_eval)

lemma market_buy_trade_witness:
  "\<exists>(t :: ledger market_state) m' wanted'. inst_market t = Some m' \<and> market_reserves m' Yes = (wanted', 10000 + 1000)
    \<and> total_supply m' = total_supply sample_market + 1000 \<and> 1000 + 900 \<le> (1901::int)
    \<and> wanted' = 10000 - (1901 - 1000) \<and> 10000 < 2 * wanted'
    \<and> 10000 * 10000 < (10000 + 1000) * (wanted' + 1)
    \<and> (\<forall>q a. market_balance_of t q a
        = market_balance_of sample_open q a + (if q = Yes \<and> a = 12 then 1901 else 0))"
proof -
  obtain t where t: "market_buy (sample_env 1000000 0) 12 Yes 1000 900 sample_open = Inr (1901, t)"
    using sample_buy by blast
  have "inst_market sample_open = Some sample_market" "market_reserves sample_market Yes = (10000, 10000)"
    by (simp_all add: sample_open_def sample_market_def)
  from market_buy_trade [OF sample_reach sample_fresh_ok t this] show ?thesis by blast
qed

text \<open>A sell whose effective input is not positive pays nothing, and one that pays never pays
  more than its effective input.\<close>

lemma cpmm_sell_out_negative:
  assumes "cpmm_sell_out rin rout ein = (Inr r :: ('e, int) res)" "0 < rin" "0 < rout" "ein \<le> 0"
  shows "r \<le> 0"
proof -
  obtain f where f: "r = (rin + ein + rout - f) sdiv 2" "0 \<le> f"
    "(rin + ein - rout) * (rin + ein - rout) + 4 * (rin * rout) < (f + 1) * (f + 1)"
    using cpmm_sell_out_eq [OF assms(1-3)] by metis
  have "ein * rout \<le> 0" using assms(3,4) by (simp add: mult_nonpos_nonneg)
  then have "(rin + ein + rout) * (rin + ein + rout) < (f + 1) * (f + 1)"
    using f(3) by (simp add: algebra_simps)
  then have "rin + ein + rout \<le> f" by (rule square_less_imp_le [OF _ f(2)])
  then show ?thesis using f(1) by (simp add: sdiv_neg pos_imp_zdiv_nonneg_iff)
qed

lemma cpmm_sell_out_le_input:
  assumes "cpmm_sell_out rin rout ein = (Inr r :: ('e, int) res)" "0 < rin" "0 < rout" "0 < r"
  shows "r \<le> ein"
proof (rule ccontr)
  assume "\<not> r \<le> ein"
  have pos: "0 < ein" using cpmm_sell_out_negative [OF assms(1-3)] assms(4) by linarith
  have b: "r \<le> rin + ein" "r \<le> rout"
    "2 * (rin * rout) \<le> 2 * ((rin + ein - r) * (rout - r)) + (rin + ein - r + (rout - r))"
    using cpmm_sell_out_rounding [OF assms(1-3)] pos by simp_all
  have "(rin + ein - r) * (rout - r) \<le> (rin - 1) * (rout - 1)"
    using \<open>\<not> r \<le> ein\<close> pos b(1,2) assms(2-4) by (intro mult_mono) auto
  moreover have "(rin - 1) * (rout - 1) = rin * rout - rin - rout + 1" by (simp add: algebra_simps)
  ultimately show False using b(3) \<open>\<not> r \<le> ein\<close> assms(2-4) pos by linarith
qed

lemma sell_trade_effect:
  assumes "(market_step chain)\<^sup>*\<^sup>* s0 s" "market_fresh s0"
    and "market_sell env user p n min_out s = Inr (out, t)" "inst_market s = Some m"
    and "market_reserves m p = (rin, rout)"
  shows "\<exists>m' rin' rout'. inst_market t = Some m' \<and> market_reserves m' p = (rin', rout')
    \<and> rin' = rin + n - out \<and> rout' = rout - out \<and> total_supply m' = total_supply m - out
    \<and> 0 < out \<and> min_out \<le> out \<and> out \<le> n \<and> n \<le> market_balance_of s p user
    \<and> rin \<le> rin' \<and> rout < 2 * rout'
    \<and> 2 * (rin * rout) \<le> 2 * (rin' * rout') + (rin' + rout')
    \<and> (\<forall>q a. market_balance_of t q a = market_balance_of s q a - (if q = p \<and> a = user then n else 0))"
  using assms(3)
proof (rule market_sell_effect)
  fix k tk x y fee ein
  assume k: "inst_market s = Some k" "status k = Open" "0 < n" "market_reserves k p = (x, y)"
      "n \<le> market_balance_of s p user"
    and trade: "apply_fee n fee = (Inr ein :: (market_error, int) res)"
      "cpmm_sell_out x y ein = (Inr out :: (market_error, int) res)" "2 * out < y" "0 < out" "min_out \<le> out"
    and t: "inst_market t = Some ((market_set_reserve (other p) (y - out)
       (market_set_reserve p (x + n - out) k))\<lparr>total_supply := total_supply k - out\<rparr>)"
      "market_balance_of t = add_shares (market_balance_of s) p user (- n)"
  have m: "k = m" "x = rin" "y = rout" using k(1,4) assms(4,5) by auto
  have pos: "0 < rin" "0 < rout"
    using reach_reserves [OF assms(1,2,4) _ assms(5)] k(2) m(1) by auto
  have ein: "out \<le> ein" "ein \<le> n"
    using cpmm_sell_out_le_input [OF trade(2)] effective_in_le [OF trade(1) k(3)] pos trade(4) m
    by simp_all
  have "2 * (rin * rout) \<le> 2 * ((rin + ein - out) * (rout - out)) + (rin + ein - out + (rout - out))"
    using cpmm_sell_out_rounding [OF trade(2)] pos trade(4) ein m by simp
  moreover have "(rin + ein - out) * (rout - out) \<le> (rin + n - out) * (rout - out)"
    using ein trade(3,4) m by (intro mult_right_mono) auto
  ultimately have prod: "2 * (rin * rout)
      \<le> 2 * ((rin + n - out) * (rout - out)) + ((rin + n - out) + (rout - out))"
    using ein by linarith
  show ?thesis
    using t trade prod m k(5) ein
    by (intro exI [of _ "(market_set_reserve (other p) (rout - out)
        (market_set_reserve p (rin + n - out) m))\<lparr>total_supply := total_supply m - out\<rparr>"]
        exI [of _ "rin + n - out"] exI [of _ "rout - out"])
      (cases p; auto simp: add_shares_apply)
qed

text \<open>C29: A successful sell of \<open>n\<close> shares pays at least the asked minimum, at least one and at
  most \<open>n\<close> units of collateral, takes exactly the \<open>n\<close> shares from the seller and nothing from
  anyone else, merges the payout out of both pools, which keep a positive and more than half
  respectively, and leaves the product of the pools at most half of their sum below its old
  value.\<close>

theorem market_sell_trade:
  assumes "(market_step chain)\<^sup>*\<^sup>* s0 s" "market_fresh s0"
    and "market_sell env user p n min_out s = Inr (out, t)" "inst_market s = Some m"
    and "market_reserves m p = (rin, rout)"
  shows "\<exists>m' rin' rout'. inst_market t = Some m' \<and> market_reserves m' p = (rin', rout')
    \<and> rin' = rin + n - out \<and> rout' = rout - out \<and> total_supply m' = total_supply m - out
    \<and> 0 < out \<and> min_out \<le> out \<and> out \<le> n \<and> n \<le> market_balance_of s p user
    \<and> rin \<le> rin' \<and> rout < 2 * rout'
    \<and> 2 * (rin * rout) \<le> 2 * (rin' * rout') + (rin' + rout')
    \<and> (\<forall>q a. market_balance_of t q a = market_balance_of s q a - (if q = p \<and> a = user then n else 0))"
  by (rule sell_trade_effect [OF assms])

lemma sample_sell:
  "\<exists>t. market_sell (sample_env 1000000 0) 12 No 200 90 sample_traded = Inr (99, t)"
  by (simp add: sample_defs sample_traded_def market_sell_def market_eval math_eval)

lemma market_sell_trade_witness:
  "\<exists>(t :: ledger market_state) m' rin' rout'. inst_market t = Some m' \<and> market_reserves m' No = (rin', rout')
    \<and> rin' = 10000 + 200 - 99 \<and> rout' = 10000 - 99
    \<and> total_supply m' = total_supply (sample_market\<lparr>total_supply := 10300\<rparr>) - 99
    \<and> 0 < (99::int) \<and> 90 \<le> (99::int) \<and> (99::int) \<le> 200
    \<and> 200 \<le> market_balance_of sample_traded No 12
    \<and> 10000 \<le> rin' \<and> 10000 < 2 * rout'
    \<and> 2 * (10000 * 10000) \<le> 2 * (rin' * rout') + (rin' + rout')
    \<and> (\<forall>q a. market_balance_of t q a
        = market_balance_of sample_traded q a - (if q = No \<and> a = 12 then 200 else 0))"
proof -
  obtain t where t: "market_sell (sample_env 1000000 0) 12 No 200 90 sample_traded = Inr (99, t)"
    using sample_sell by blast
  have "inst_market sample_traded = Some (sample_market\<lparr>total_supply := 10300\<rparr>)"
    "market_reserves (sample_market\<lparr>total_supply := 10300\<rparr>) No = (10000, 10000)"
    by (simp_all add: sample_traded_def sample_market_def)
  from market_sell_trade [OF sample_reach_traded sample_fresh_ok t this] show ?thesis by blast
qed

section \<open>The price query\<close>

text \<open>In every reachable open market whose pools hold at most \<open>10 ^ 30\<close> shares each, the
  price query returns two numbers of basis points that sum to 10000, the first one the rounded
  down share of the NO pool in both pools.\<close>

theorem market_price_sums:
  assumes "(market_step chain)\<^sup>*\<^sup>* s0 s" "market_fresh s0" "inst_market s = Some m" "status m = Open"
    and "pool_yes m \<le> 10 ^ 30" "pool_no m \<le> 10 ^ 30"
  shows "\<exists>y n. market_get_price s = Inr (y, n) \<and> uint y + uint n = 10000
    \<and> uint y = pool_no m * 10000 div (pool_yes m + pool_no m)"
proof -
  have pos: "0 < pool_yes m" "0 < pool_no m" using reach_open_pools [OF assms(1-4)] .
  define q where "q = pool_no m * 10000 div (pool_yes m + pool_no m)"
  have "pool_no m * 10000 \<le> (pool_yes m + pool_no m) * 10000" using pos by simp
  then have "q \<le> (pool_yes m + pool_no m) * 10000 div (pool_yes m + pool_no m)"
    unfolding q_def using pos by (intro zdiv_mono1) auto
  also have "\<dots> = 10000" using pos by (intro nonzero_mult_div_cancel_left) simp
  finally have q: "0 \<le> q" "q \<le> 10000" using pos by (simp_all add: q_def pos_imp_zdiv_nonneg_iff)
  have y: "uint (word_of_int q :: u32) = q" using q by (intro u32_word_of_int) auto
  have le: "\<not> 10000 < (word_of_int q :: u32)" using q y by (simp add: word_less_def)
  have n: "uint (10000 - (word_of_int q :: u32)) = 10000 - q"
    using q y by (subst uint_sub_lem [THEN iffD1]) (simp_all add: word_less_def)
  have range: "in_i128 (pool_yes m + pool_no m)" "in_i128 (pool_no m * 10000)"
    using pos assms(5,6) by (auto intro!: in_i128_small)
  have "i128_div (pool_no m * 10000) (pool_yes m + pool_no m) = (Inr q :: (market_error, int) res)"
    unfolding q_def using range pos by (intro i128_div_ok) auto
  then have "market_get_price s = Inr (word_of_int q, 10000 - word_of_int q)"
    using assms(3,4) range le by (simp add: market_get_price_def load_market_def i128_add_def i128_mul_def Let_def)
  then show ?thesis using y n by (auto simp: q_def)
qed

lemma market_price_sums_witness:
  "\<exists>y n. market_get_price sample_traded = Inr (y, n) \<and> uint y + uint n = 10000
    \<and> uint y = 10000 * 10000 div (10000 + 10000)"
  using market_price_sums [OF sample_reach_traded sample_fresh_ok,
      of "sample_market\<lparr>total_supply := 10300\<rparr>"]
  by (simp add: sample_traded_def sample_market_def)

section \<open>Storage lifetimes\<close>

lemma lifetime_saved [simp]:
  "BUMP_THRESHOLD \<le> inst_ttl (save_market m st)"
  "inst_ttl (market_publish e st) = inst_ttl st"
  by (simp_all add: save_market_def market_touch_def market_publish_def extend_ttl_ge
      BUMP_THRESHOLD_def BUMP_TO_def)

text \<open>Every successful call but \<open>transfer\<close> leaves the market's instance storage with a
  lifetime of at least the bump threshold; \<open>transfer\<close> does not extend it.\<close>

theorem market_call_extends_lifetime:
  assumes "market_exec env c s = Inr t" "\<forall>from to p n. c \<noteq> CallTransfer from to p n"
  shows "BUMP_THRESHOLD \<le> inst_ttl t"
proof (cases c)
  case CallInitialize
  then show ?thesis
    using assms by (auto simp: res_simps market_initialize_def Let_def)
next
  case CallSplit
  then show ?thesis using assms by (auto simp: res_simps market_split_def Let_def)
next
  case CallMerge
  then show ?thesis using assms by (auto simp: res_simps market_merge_def Let_def)
next
  case (CallBuy user p n mo)
  then show ?thesis
    using assms by (auto simp: res_simps market_buy_def Let_def case_prod_unfold)
next
  case (CallSell user p n mo)
  then show ?thesis
    using assms by (auto simp: res_simps market_sell_def Let_def case_prod_unfold)
next
  case CallSettle
  then show ?thesis using assms by (auto simp: res_simps market_settle_def Let_def)
next
  case CallCancel
  then show ?thesis using assms by (auto simp: res_simps market_cancel_def Let_def)
next
  case CallRedeem
  then show ?thesis using assms by (auto simp: res_simps market_redeem_def Let_def split: prod.splits)
qed (use assms in auto)

lemma market_call_extends_lifetime_witness: "BUMP_THRESHOLD \<le> inst_ttl sample_traded"
  by (rule market_call_extends_lifetime [OF sample_split]) simp

section \<open>Limits of the documented guarantees\<close>

text \<open>The supply of an open market can fall below its initial liquidity.  From the fresh
  market of 10000 units a trader buys YES for one unit, gets two shares, and sells them one by
  one for a unit each: the supply is 9999, the trader holds no share and has one unit more.\<close>

theorem market_supply_below_liquidity:
  "\<exists>t m. (market_step (sample_env 0 0))\<^sup>*\<^sup>* sample_fresh t \<and> inst_market t = Some m \<and> status m = Open
    \<and> total_supply m = 9999 \<and> initial_liquidity m = 10000
    \<and> market_balance_of t Yes 12 = 0 \<and> market_balance_of t No 12 = 0
    \<and> tokens sample_open 5 12 = 50000 \<and> tokens t 5 12 = 50001"
proof -
  let ?e = "sample_env 1000000 0"
  have "\<exists>t m. bindr (market_exec ?e (CallBuy 12 Yes 1 1) sample_open) (\<lambda>s1.
      bindr (market_exec ?e (CallSell 12 Yes 1 1) s1) (\<lambda>s2.
      market_exec ?e (CallSell 12 Yes 1 1) s2)) = Inr t
    \<and> inst_market t = Some m \<and> status m = Open \<and> total_supply m = 9999 \<and> initial_liquidity m = 10000
    \<and> market_balance_of t Yes 12 = 0 \<and> market_balance_of t No 12 = 0 \<and> tokens t 5 12 = 50001"
    by (simp add: sample_defs market_buy_def market_sell_def market_eval math_eval)
  then obtain s1 s2 t m where e: "market_exec ?e (CallBuy 12 Yes 1 1) sample_open = Inr s1"
    "market_exec ?e (CallSell 12 Yes 1 1) s1 = Inr s2" "market_exec ?e (CallSell 12 Yes 1 1) s2 = Inr t"
    and t: "inst_market t = Some m" "status m = Open" "total_supply m = 9999" "initial_liquidity m = 10000"
      "market_balance_of t Yes 12 = 0" "market_balance_of t No 12 = 0" "tokens t 5 12 = 50001"
    by (auto simp: bindr_eq_Inr simp del: market_exec.simps)
  have r1: "(market_step (sample_env 0 0))\<^sup>*\<^sup>* sample_fresh s1" by (rule sample_extend [OF sample_reach e(1)]) simp
  have r2: "(market_step (sample_env 0 0))\<^sup>*\<^sup>* sample_fresh s2" by (rule sample_extend [OF r1 e(2)]) simp
  have "(market_step (sample_env 0 0))\<^sup>*\<^sup>* sample_fresh t" by (rule sample_extend [OF r2 e(3)]) simp
  moreover have "tokens sample_open 5 12 = 50000" by (simp add: sample_open_def)
  ultimately show ?thesis using t by blast
qed

text \<open>A thin market: all but five units of its initial hundred are gone.  Its effective fee is
  200 percent, so a swap's effective input is negative.\<close>

definition sample_thin :: "ledger market_state" where
  "sample_thin = sample_open\<lparr>inst_market := Some (sample_market\<lparr>pool_yes := 5, pool_no := 5,
     total_supply := 5, initial_liquidity := 100, base_fee_bps := 1000, min_fee_bps := 0\<rparr>),
     tokens := (\<lambda>_ _. 0)(5 := (\<lambda>_. 0)(12 := 50000, 1 := 5))\<rparr>"

text \<open>A negative \<open>min_shares_out\<close> is accepted, and in a thin market whose fee curve exceeds
  10000 basis points it breaks the backing: from a state that satisfies the whole invariant, a
  buy of two units leaves the buyer with a balance of \<open>-1\<close> shares and the YES pool with more
  shares than the contract has collateral.\<close>

theorem market_negative_slippage:
  "\<exists>b t m. market_book sample_thin = Some b \<and> book_ok b
    \<and> issued b = market_collateral (sample_env 0 0) sample_thin
    \<and> market_exec (sample_env 1000000 0) (CallBuy 12 Yes 2 (- 10)) sample_thin = Inr t
    \<and> inst_market t = Some m \<and> market_balance_of t Yes 12 = - 1
    \<and> market_collateral (sample_env 0 0) t < pool_yes m"
proof -
  let ?b = "book_start 5"
  have b: "market_book sample_thin = Some ?b"
    by (simp add: market_book_def sample_thin_def sample_open_def sample_market_def book_view_def
        pool_view book_start_def market_balance_of_def fun_eq_iff prediction_neq)
  have "issued ?b = market_collateral (sample_env 0 0) sample_thin"
    by (simp add: sample_thin_def sample_open_def sample_market_def market_collateral_def
        book_start_def sample_env_def ledger_balance_def)
  moreover have "\<exists>t m. market_exec (sample_env 1000000 0) (CallBuy 12 Yes 2 (- 10)) sample_thin = Inr t
      \<and> inst_market t = Some m \<and> market_balance_of t Yes 12 = - 1
      \<and> market_collateral (sample_env 0 0) t < pool_yes m"
    by (simp add: sample_thin_def sample_defs market_buy_def market_eval math_eval
        market_collateral_def ledger_balance_def)
  ultimately show ?thesis using b book_start_ok [of 5] by auto
qed

text \<open>In a cancelled market a holder of one odd share cannot redeem it: the half unit rounds
  to nothing and the call is rejected, so the payouts can sum to less than \<open>total_supply\<close>, and a
  unit stays in the contract for ever.\<close>

theorem market_odd_share_is_lost:
  assumes "inst_market s = Some m" "status m = Cancelled" "authorized env user"
    and "market_balance_of s p user = 1" "market_balance_of s (other p) user = 0"
  shows "market_redeem env user s = Inl (Err NothingToRedeem)
    \<and> market_payout m (market_balance_of s) user = 0"
  using assms
  by (cases p) (simp_all add: market_redeem_def load_market_def require_auth_def Let_def
      market_payout_def i128_eval)

lemma market_odd_share_is_lost_witness:
  "market_redeem (sample_env 2000000 0) 13
      (sample_finished Cancelled 0 CancelEvent\<lparr>balances := [(Yes, 13) \<mapsto> 1]\<rparr>) = Inl (Err NothingToRedeem)
    \<and> market_payout (sample_market\<lparr>total_supply := 10300, pool_yes := 0, pool_no := 0,
        status := Cancelled, final_price := 0\<rparr>)
      (market_balance_of (sample_finished Cancelled 0 CancelEvent\<lparr>balances := [(Yes, 13) \<mapsto> 1]\<rparr>)) 13 = 0"
  by (rule market_odd_share_is_lost [where p = Yes])
    (simp_all add: sample_finished_def sample_env_def market_balance_of_def)

end
