(* ===== verification/Market_Progress.thy ===== *)
theory Market_Progress
  imports Market_Trading
begin

text \<open>
  When the calls of the market succeed: the conditions under which \<open>split\<close>, \<open>merge\<close>, \<open>buy\<close> and
  \<open>sell\<close> return a value, in an arbitrary state and then in the reachable states of amounts that
  fit; the exact acceptance condition of \<open>initialize\<close>; and the redemption of any number of holders
  in any order.
\<close>

section \<open>Each call in an arbitrary state\<close>

lemma market_split_ok:
  fixes s :: "'tok market_state"
  assumes "authorized env user" "inst_market s = Some m" "status m = Open" "0 < n"
    and "token_transfer env (collateral m) user (current_contract_address env) n (tokens s) = Some tk"
    and "\<And>q. in_i128 (market_balance_of s q user + n)" "in_i128 (total_supply m + n)"
  shows "\<exists>t. market_split env user n s = Inr ((), t)"
  using assms
  by (simp add: market_split_def require_auth_def load_market_def market_pay_def market_credit_def
      i128_ops mkt.balance_of_set)

lemma market_merge_ok:
  fixes s :: "'tok market_state"
  assumes "authorized env user" "inst_market s = Some m" "status m = Open" "0 < n"
    and "token_transfer env (collateral m) (current_contract_address env) user n (tokens s) = Some tk"
    and "\<And>q. n \<le> market_balance_of s q user" "\<And>q. in_i128 (market_balance_of s q user - n)"
      "in_i128 (total_supply m - n)"
  shows "\<exists>t. market_merge env user n s = Inr ((), t)"
proof -
  obtain s1 where s1: "market_debit Yes user n s = Inr s1"
    using mkt.debit_Inr [of Yes user n s] assms(6,7) by auto
  note e1 = market_debit_effect [OF s1]
  obtain s2 where s2: "market_debit No user n s1 = Inr s2"
    using mkt.debit_Inr [of No user n s1] assms(6,7) e1(2) by (auto simp: add_shares_apply)
  note e2 = market_debit_effect [OF s2]
  show ?thesis
    using assms s1 s2 e1 e2
    by (simp add: market_merge_def require_auth_def load_market_def market_pay_def i128_sub_def)
qed

text \<open>A buy whose swap pays a negative amount goes through as well.\<close>

lemma market_buy_run:
  fixes s :: "'tok market_state"
  assumes "authorized env user" "inst_market s = Some m" "status m = Open"
    and "ledger_timestamp env < expiry m" "0 < n" "market_reserves m (other p) = (rin, rout)"
    and "market_effective_fee_bps m = Inr fee" "apply_fee n fee = (Inr ein :: (market_error, int) res)"
      "cpmm_out rin rout ein = (Inr out :: (market_error, int) res)"
    and "2 * out < rout" "min_out \<le> out"
    and "token_transfer env (collateral m) user (current_contract_address env) n (tokens s) = Some tk"
    and "\<And>q. 0 \<le> market_balance_of s q user" "\<And>q. in_i128 (market_balance_of s q user + n)"
      "in_i128 (market_balance_of s p user + n + out)"
    and "in_i128 (out * 2)" "in_i128 (total_supply m + n)" "in_i128 (rin + n)" "in_i128 (rout - out)"
      "in_i128 (n + out)"
  shows "\<exists>t. market_buy env user p n min_out s = Inr (n + out, t)"
proof -
  let ?h = "market_balance_of s"
  have low: "in_i128 (?h q user)" for q using assms(5) assms(13,14) [of q] by (simp add: in_i128_def i128_min_def)
  obtain s1 where s1: "market_credit Yes user n (s\<lparr>tokens := tk\<rparr>) = Inr s1"
    using mkt.credit_Inr [of Yes user n "s\<lparr>tokens := tk\<rparr>"] assms(14) by auto
  note e1 = market_credit_effect(1) [OF s1]
  obtain s2 where s2: "market_credit No user n s1 = Inr s2"
    using mkt.credit_Inr [of No user n s1] assms(14) e1 by (auto simp: add_shares_apply)
  note e2 = market_credit_effect(1) [OF s2]
  obtain s3 where s3: "market_debit (other p) user n s2 = Inr s3"
    using mkt.debit_Inr [of "other p" user n s2] low assms(13) e1 e2
    by (cases p) (auto simp: add_shares_apply)
  note e3 = market_debit_effect(2) [OF s3]
  obtain s4 where s4: "market_credit p user out s3 = Inr s4"
    using mkt.credit_Inr [of p user out s3] assms(15) e1 e2 e3
    by (cases p) (auto simp: add_shares_apply)
  show ?thesis
    using assms(1-12,16-20) s1 s2 s3 s4
    by (simp add: market_buy_def require_auth_def load_market_def market_pay_def i128_ops Let_def
        not_le)
qed

lemma market_buy_ok:
  fixes s :: "'tok market_state"
  assumes "authorized env user" "inst_market s = Some m" "status m = Open"
    and "ledger_timestamp env < expiry m" "0 < n" "market_reserves m (other p) = (rin, rout)"
    and "market_effective_fee_bps m = Inr fee" "apply_fee n fee = (Inr ein :: (market_error, int) res)"
      "cpmm_out rin rout ein = (Inr out :: (market_error, int) res)"
    and "2 * out < rout" "min_out \<le> out" "0 \<le> out"
    and "token_transfer env (collateral m) user (current_contract_address env) n (tokens s) = Some tk"
    and "\<And>q. 0 \<le> market_balance_of s q user" "\<And>q. market_balance_of s q user + n + out \<le> i128_max"
    and "0 \<le> total_supply m" "total_supply m + n \<le> i128_max"
    and "0 < rin" "rin + n \<le> i128_max" "rout \<le> i128_max"
  shows "\<exists>t. market_buy env user p n min_out s = Inr (n + out, t)"
proof (rule market_buy_run [OF assms(1-11,13,14)])
  show "in_i128 (market_balance_of s q user + n)" for q
    using assms(5,12) assms(14,15) [of q] by (simp add: in_i128_def i128_min_def)
qed (use assms(5,10,12,16-20) assms(14,15) [of p] in \<open>auto simp: in_i128_def i128_min_def\<close>)

lemma market_sell_ok:
  fixes s :: "'tok market_state"
  assumes "authorized env user" "inst_market s = Some m" "status m = Open"
    and "ledger_timestamp env < expiry m" "0 < n" "n \<le> market_balance_of s p user"
    and "market_reserves m p = (rin, rout)"
    and "market_effective_fee_bps m = Inr fee" "apply_fee n fee = (Inr ein :: (market_error, int) res)"
      "cpmm_sell_out rin rout ein = (Inr out :: (market_error, int) res)"
    and "2 * out < rout" "min_out \<le> out" "0 < out" "out < rin + n"
    and "token_transfer env (collateral m) (current_contract_address env) user out (tokens s) = Some tk"
    and "market_balance_of s p user \<le> i128_max" "out \<le> total_supply m" "total_supply m \<le> i128_max"
    and "0 < rin" "rin + n \<le> i128_max" "rout \<le> i128_max"
  shows "\<exists>t. market_sell env user p n min_out s = Inr (out, t)"
proof -
  have misc: "in_i128 (out * 2)" "in_i128 (total_supply m - out)" "in_i128 (rin + n)"
      "in_i128 (rin + n - out)" "in_i128 (rout - out)" "in_i128 (market_balance_of s p user - n)"
    using assms(5,6,11,13,14,16-21) by (auto simp: in_i128_def i128_min_def)
  obtain s1 where s1: "market_debit p user n s = Inr s1"
    using mkt.debit_Inr [of p user n s] assms(6) misc(6) by auto
  show ?thesis
    using assms(1-15) misc s1 market_debit_effect(6) [OF s1]
    by (simp add: market_sell_def require_auth_def load_market_def market_pay_def i128_ops)
qed

section \<open>Trading in a reachable market\<close>

lemma reach_open_bounds:
  assumes "(market_step chain)\<^sup>*\<^sup>* s0 s" "market_fresh s0" "inst_market s = Some m" "status m = Open"
  shows "0 \<le> market_balance_of s q a" "market_balance_of s q a < total_supply m"
    and "0 < pool_yes m" "pool_yes m \<le> total_supply m" "0 < pool_no m" "pool_no m \<le> total_supply m"
proof -
  note f = reach_facts [OF assms(1-3)]
  note b = open_book [OF f(1) assms(4)]
  have nn: "0 \<le> market_balance_of s p c" for p c
    using f(1) by (simp add: book_ok_def book_view_def)
  have sum: "0 \<le> fsum (market_balance_of s p)" for p using nn by (intro fsum_nonneg) simp
  show "0 \<le> market_balance_of s q a" by (rule nn)
  show "0 < pool_yes m" "pool_yes m \<le> total_supply m" "0 < pool_no m" "pool_no m \<le> total_supply m"
    using b sum [of Yes] sum [of No] by linarith+
  have "market_balance_of s q a \<le> outstanding (market_balance_of s) q"
    using f(1) by (intro holding_le_outstanding) (auto simp: book_ok_def book_view_def)
  then show "market_balance_of s q a < total_supply m"
    using b by (cases q) (simp_all add: outstanding_def)
qed

lemma apply_fee_total:
  assumes "0 \<le> n" "n \<le> 2 ^ 61" "fee \<le> 10000"
  shows "apply_fee n fee = (Inr (n - n * uint fee div 10000) :: ('e, int) res)"
    and "0 \<le> n - n * uint fee div 10000" "n - n * uint fee div 10000 \<le> n"
proof -
  have fee: "0 \<le> uint fee" "uint fee \<le> 10000" using assms(3) by (simp_all add: word_le_def)
  then have prod: "0 \<le> n * uint fee" "n * uint fee \<le> n * 10000"
    using assms(1) by (simp_all add: mult_left_mono)
  then have quot: "0 \<le> n * uint fee div 10000" "n * uint fee div 10000 \<le> n"
    using zdiv_mono1 [of "n * uint fee" "n * 10000" 10000] by simp_all
  have "in_i128 (n * uint fee)" "in_i128 (n * uint fee div 10000)" "in_i128 (n - n * uint fee div 10000)"
    using prod quot assms(1,2) by (auto intro!: in_i128_small)
  then show "apply_fee n fee = (Inr (n - n * uint fee div 10000) :: ('e, int) res)"
    using prod(1) by (simp add: apply_fee_def i128_ops sdiv_nonneg)
  show "0 \<le> n - n * uint fee div 10000" "n - n * uint fee div 10000 \<le> n" using quot by simp_all
qed

text \<open>C28: A quoted buy goes through.  In a reachable open market before its expiry, of a supply
  that stays within \<open>2 ^ 61\<close> and a fee of at most 10000 basis points, a buyer who has signed and
  has the collateral receives for \<open>n\<close> units exactly \<open>n\<close> shares and the constant-product quote
  of \<open>n\<close> less the fee, provided that the quote stays under half of the reserve and is not below
  the buyer's minimum: no arithmetic step overflows and no other guard applies.\<close>

theorem market_buy_accepts:
  assumes "(market_step chain)\<^sup>*\<^sup>* s0 s" "market_fresh s0" "inst_market s = Some m" "status m = Open"
    and "pays_when_funded env" "authorized env user" "ledger_timestamp env < expiry m"
    and "0 < n" "n \<le> token_balance env (collateral m) user (tokens s)" "total_supply m + n \<le> 2 ^ 61"
    and "market_get_fee s = Inr fee" "fee \<le> 10000" "market_reserves m p = (wanted, unwanted)"
    and "quote = wanted - unwanted * wanted div (unwanted + (n - n * uint fee div 10000))"
    and "2 * quote < wanted" "min_out \<le> quote"
  shows "\<exists>t. market_buy env user p n min_out s = Inr (n + quote, t)"
proof -
  note b = reach_open_bounds [OF assms(1-4)]
  have r: "market_reserves m (other p) = (unwanted, wanted)" using assms(13) market_reserves_other by blast
  have pool: "0 < wanted" "wanted \<le> total_supply m" "0 < unwanted" "unwanted \<le> total_supply m"
    using assms(13) b(3-6) by (cases p; auto)+
  note fee = apply_fee_total [OF _ _ assms(12), of n]
  have n: "0 \<le> n" "n \<le> 2 ^ 61" using assms(8,10) pool by linarith+
  obtain out where out: "cpmm_out unwanted wanted (n - n * uint fee div 10000) = (Inr out :: (market_error, int) res)"
    using cpmm_out_total [of unwanted wanted "n - n * uint fee div 10000"] pool fee(2,3) [OF n] assms(8,10) n
    by auto
  have quote: "out = quote" "0 \<le> quote"
    using cpmm_out_eq [OF out] cpmm_out_rounding [OF out] pool fee(2) [OF n] assms(14) by simp_all
  obtain tk where tk: "token_transfer env (collateral m) user (current_contract_address env) n (tokens s)
      = Some tk"
    using pays_when_fundedD [OF assms(5) n(1) assms(9)] by blast
  have f: "market_effective_fee_bps m = Inr fee"
    using assms(3,11) by (simp add: market_get_fee_def load_market_def)
  have big: "(2::int) ^ 61 \<le> i128_max" by (simp add: i128_max_def)
  have range: "market_balance_of s q user + n + quote \<le> i128_max" for q
    using b(2) [of q user] assms(8,10,15) pool by (simp add: i128_max_def)
  show ?thesis
    using assms(3,4,6-8) f fee(1) [OF n] out quote assms(15,16) tk b(1) range pool assms(10) big r
    by (intro market_buy_ok [where ein = "n - n * uint fee div 10000" and rin = unwanted and rout = wanted
        and fee = fee and m = m and tk = tk]) auto
qed

lemma market_buy_accepts_witness:
  "\<exists>t. market_buy (sample_env 1000000 0) 12 Yes 1000 900 sample_open = Inr (1000 + 901, t)"
proof (rule market_buy_accepts [OF sample_reach sample_fresh_ok _ _ sample_pays,
    where fee = 100 and wanted = 10000 and unwanted = 10000])
  show "inst_market sample_open = Some sample_market" by (simp add: sample_open_def)
  show "market_get_fee sample_open = Inr 100"
    by (simp add: market_get_fee_def sample_defs market_eval math_eval)
qed (simp_all add: sample_defs ledger_balance_def)

text \<open>A quoted sell goes through as well: in a reachable open market before its expiry, of a supply of at most
  \<open>2 ^ 61\<close> and a fee of at most 10000 basis points, a holder of \<open>n\<close> shares who has signed is paid the quote of the
  sell formula for \<open>n\<close> less the fee, provided that it is positive, under half of the opposite reserve and not
  below the seller's minimum; the contract always has the collateral.\<close>

theorem market_sell_accepts:
  assumes "(market_step chain)\<^sup>*\<^sup>* s0 s" "market_fresh s0" "inst_market s = Some m" "status m = Open"
    and "hosted chain env" "pays_when_funded env" "authorized env user" "ledger_timestamp env < expiry m"
    and "0 < n" "n \<le> market_balance_of s p user" "total_supply m \<le> 2 ^ 61"
    and "market_get_fee s = Inr fee" "fee \<le> 10000" "market_reserves m p = (rin, rout)"
    and "cpmm_sell_out rin rout (n - n * uint fee div 10000) = (Inr quote :: (market_error, int) res)"
    and "0 < quote" "2 * quote < rout" "min_out \<le> quote"
  shows "\<exists>t. market_sell env user p n min_out s = Inr (quote, t)"
proof -
  note b = reach_open_bounds [OF assms(1-4)]
  have pool: "0 < rin" "rin \<le> total_supply m" "0 < rout" "rout \<le> total_supply m"
    using assms(14) b(3-6) by (cases p; auto)+
  have n: "0 \<le> n" "n \<le> 2 ^ 61" using assms(9-11) b(2) [of p user] by simp_all
  note fee = apply_fee_total [OF n assms(13)]
  have quote: "quote \<le> n" using cpmm_sell_out_le_input [OF assms(15)] pool fee(2,3) assms(16) by simp
  have "quote \<le> token_balance env (collateral m) (current_contract_address env) (tokens s)"
    using reach_facts(2) [OF assms(1-3)] assms(3,17) pool(4) assms(16) hosted_facts(2,3) [OF assms(5)]
    by (simp add: market_collateral_def)
  then obtain tk where tk: "token_transfer env (collateral m) (current_contract_address env) user quote (tokens s) = Some tk"
    using pays_when_fundedD [OF assms(6) less_imp_le [OF assms(16)]] by blast
  have f: "market_effective_fee_bps m = Inr fee"
    using assms(3,12) by (simp add: market_get_fee_def load_market_def)
  have big: "market_balance_of s p user \<le> i128_max" "total_supply m \<le> i128_max" "rin + n \<le> i128_max"
      "rout \<le> i128_max" "quote \<le> total_supply m" "quote < rin + n"
    using assms(11,16,17) b(2) [of p user] pool n quote by (simp_all add: i128_max_def)
  show ?thesis
    by (rule market_sell_ok [OF assms(7,3,4,8,9,10,14) f fee(1) assms(15,17,18,16) big(6) tk big(1,5,2) pool(1) big(3,4)])
qed

section \<open>Splitting and merging\<close>

text \<open>Merging undoes splitting: whoever has just split can merge the same amount, which
  restores every balance, the market's record and the collateral it holds.\<close>

theorem market_split_merge:
  assumes "(market_step chain)\<^sup>*\<^sup>* s0 s" "market_fresh s0"
    and "market_split env user n s = Inr (r, t)" "hosted chain env"
    and "hosted chain env'" "pays_when_funded env'" "authorized env' user"
  shows "\<exists>u. market_merge env' user n t = Inr ((), u) \<and> market_balance_of u = market_balance_of s
    \<and> inst_market u = inst_market s \<and> market_collateral chain u = market_collateral chain s"
proof -
  from assms(3) obtain m tk where m: "authorized env user" "inst_market s = Some m" "status m = Open"
    "0 < n" "token_transfer env (collateral m) user (current_contract_address env) n (tokens s) = Some tk"
    "tokens t = tk" "inst_market t = Some (m\<lparr>total_supply := total_supply m + n\<rparr>)"
    "market_balance_of t = add_shares (add_shares (market_balance_of s) Yes user n) No user n"
    by (rule market_split_effect)
  let ?h = "market_balance_of s" and ?self = "current_contract_address env'"
  note b = reach_open_bounds [OF assms(1,2) m(2,3)]
  have range: "in_i128 (total_supply m + n)"
    using assms(3) m(2-4) by (auto simp: market_split_def res_simps Let_def)
  then have small: "in_i128 (total_supply m)" "in_i128 (?h q user)" for q
    using b(1,2) [of q user] m(4) by (simp_all add: in_i128_def i128_min_def)
  have "token_balance chain (collateral m) (current_contract_address chain) tk
      = token_balance chain (collateral m) (current_contract_address chain) (tokens s) + n"
    by (rule hosted_pay_in [OF assms(4) m(1,5)])
  then have "n \<le> token_balance env' (collateral m) ?self tk"
    using hosted_balance_nonneg [OF assms(4)] hosted_facts(2,3) [OF assms(5)] by simp
  then obtain tk' where tk': "token_transfer env' (collateral m) ?self user n tk = Some tk'"
    using pays_when_fundedD [OF assms(6) less_imp_le [OF m(4)]] by blast
  have held: "market_balance_of t q user = ?h q user + n" for q by (cases q) (simp_all add: m(8) add_shares_apply)
  have "\<exists>u. market_merge env' user n t = Inr ((), u)"
    using m(1-7) tk' small b(1)
    by (intro market_merge_ok [OF assms(7) m(7), where tk = tk']) (simp_all add: held)
  then obtain u where u: "market_merge env' user n t = Inr ((), u)" ..
  moreover have "market_balance_of u = ?h \<and> inst_market u = inst_market s
      \<and> total_supply m - (total_supply m + n) = market_collateral chain u - market_collateral chain t"
    using u m market_exec_funds [of env' "CallMerge user n" t u, OF _ assms(5) m(7)]
    by (auto simp: res_simps elim!: market_merge_effect)
  moreover have "market_collateral chain t = market_collateral chain s + n"
    using market_exec_funds [of env "CallSplit user n" s t, OF _ assms(4) m(2)] assms(3) m(7)
    by (auto simp: res_simps)
  ultimately show ?thesis by auto
qed

lemma market_split_merge_witness:
  "\<exists>u. market_merge (sample_env 1000001 0) 12 300 sample_traded = Inr ((), u)
    \<and> market_balance_of u = market_balance_of sample_open \<and> inst_market u = inst_market sample_open
    \<and> market_collateral (sample_env 0 0) u = market_collateral (sample_env 0 0) sample_open"
proof -
  obtain r where "market_split (sample_env 1000000 0) 12 300 sample_open = Inr (r, sample_traded)"
    using sample_split by (auto simp: discard_eq_Inr)
  then show ?thesis
    by (rule market_split_merge [OF sample_reach sample_fresh_ok _ sample_hosted sample_hosted sample_pays])
      (simp add: sample_env_def)
qed

section \<open>Initialisation\<close>

text \<open>An oracle that can be configured: it answers, its cadence fits the staleness window, and its precision
  is between 2 and 30.\<close>

definition leg_accepted :: "'tok Env \<Rightarrow> OracleFeedConfig \<Rightarrow> bool" where
  "leg_accepted env cfg \<longleftrightarrow> (\<exists>r d. sep40_resolution env (contract cfg) = Some r \<and> ucast r \<le> max_staleness_secs cfg
     \<and> sep40_decimals env (contract cfg) = Some d \<and> 2 \<le> d \<and> d \<le> 30)"

theorem market_initialize_accepts_iff:
  "(\<exists>t. market_initialize env adm coll strike expiry_ts grace lazer feed base_fee min_fee treas liq refl_cfg redstone s
      = Inr ((), t)) \<longleftrightarrow>
    authorized env adm \<and> inst_market s = None \<and> 0 < strike \<and> ledger_timestamp env < expiry_ts \<and> grace \<noteq> 0
    \<and> feed \<noteq> 0 \<and> min_fee \<le> base_fee \<and> base_fee \<le> 1000 \<and> 0 < liq
    \<and> leg_accepted env refl_cfg \<and> (case redstone of None \<Rightarrow> True | Some cfg \<Rightarrow> leg_accepted env cfg)
    \<and> token_transfer env coll adm (current_contract_address env) liq (tokens s) \<noteq> None"
  by (cases redstone) (auto simp: market_initialize_def res_simps Let_def MAX_FEE_BPS_def leg_accepted_def not_le not_less)

section \<open>Redemption in any order\<close>

text \<open>Redemptions one after the other, each in the environment of its own transaction.\<close>

fun redeem_all ::
    "('tok Env \<times> Address) list \<Rightarrow> 'tok market_state \<Rightarrow>
      (market_error, int list \<times> 'tok market_state) res" where
  "redeem_all [] s = Inr ([], s)"
| "redeem_all ((env, user) # rest) s =
     bindr (market_redeem env user s) (\<lambda>(pay, t).
     bindr (redeem_all rest t) (\<lambda>(pays, u). Inr (pay # pays, u)))"

lemma payout_drop:
  "market_payout (m\<lparr>total_supply := ts\<rparr>) (drop_shares h a) b = (if a = b then 0 else market_payout m h b)"
  by (cases "status m") (simp_all add: market_payout_def drop_shares_apply)

lemma redeem_all_pays:
  assumes "(market_step chain)\<^sup>*\<^sup>* s0 s" "market_fresh s0" "inst_market s = Some m" "status m \<noteq> Open"
    and "2 * total_supply m \<le> i128_max" "distinct (map snd us)"
    and "\<forall>(env, user) \<in> set us. hosted chain env \<and> pays_when_funded env \<and> authorized env user
      \<and> 0 < market_payout m (market_balance_of s) user"
  defines "paid \<equiv> (\<Sum>user\<leftarrow>map snd us. market_payout m (market_balance_of s) user)"
  shows "\<exists>t. redeem_all us s = Inr (map (market_payout m (market_balance_of s)) (map snd us), t)
    \<and> inst_market t = Some (m\<lparr>total_supply := total_supply m - paid\<rparr>)
    \<and> market_collateral chain t = market_collateral chain s - paid
    \<and> (\<forall>p a. market_balance_of t p a = (if a \<in> snd ` set us then 0 else market_balance_of s p a))
    \<and> (market_step chain)\<^sup>*\<^sup>* s0 t"
  using assms(1,3-7) unfolding paid_def
proof (induction us arbitrary: s m)
  case Nil
  then show ?case by simp
next
  case (Cons x us)
  obtain env user where x: "x = (env, user)" by (cases x)
  let ?h = "market_balance_of s" and ?pay = "market_payout m (market_balance_of s)"
  have here: "hosted chain env" "pays_when_funded env" "authorized env user" "0 < ?pay user"
    using Cons.prems(6) x by auto
  obtain t where t: "market_redeem env user s = Inr (?pay user, t)"
    using market_redeem_pays [OF Cons.prems(1) assms(2) Cons.prems(2,3) here Cons.prems(4)] by blast
  let ?k = "m\<lparr>total_supply := total_supply m - ?pay user\<rparr>"
  have e: "inst_market t = Some ?k" "market_balance_of t = drop_shares ?h user"
    using t Cons.prems(2) by (auto elim!: market_redeem_effect)
  have exec: "market_exec env (CallRedeem user) s = Inr t" using t by (simp add: res_simps)
  have reach: "(market_step chain)\<^sup>*\<^sup>* s0 t"
    using Cons.prems(1) market_step.called [OF here(1) _ exec] by (rule rtranclp.rtrancl_into_rtrancl) simp
  have coll: "market_collateral chain t = market_collateral chain s - ?pay user"
    using market_exec_funds [OF exec here(1) Cons.prems(2)] e(1) by auto
  have others: "market_payout ?k (market_balance_of t) b = ?pay b" if "b \<in> snd ` set us" for b
    using that Cons.prems(5) x e(2) by (auto simp: payout_drop)
  have later: "\<forall>(env, user) \<in> set us. hosted chain env \<and> pays_when_funded env \<and> authorized env user
      \<and> 0 < market_payout ?k (market_balance_of t) user"
    using Cons.prems(6) others by force
  have ih: "\<exists>u. redeem_all us t = Inr (map (market_payout ?k (market_balance_of t)) (map snd us), u)
    \<and> inst_market u = Some (?k\<lparr>total_supply := total_supply ?k
        - (\<Sum>user\<leftarrow>map snd us. market_payout ?k (market_balance_of t) user)\<rparr>)
    \<and> market_collateral chain u = market_collateral chain t
        - (\<Sum>user\<leftarrow>map snd us. market_payout ?k (market_balance_of t) user)
    \<and> (\<forall>p a. market_balance_of u p a = (if a \<in> snd ` set us then 0 else market_balance_of t p a))
    \<and> (market_step chain)\<^sup>*\<^sup>* s0 u"
    by (rule Cons.IH [OF reach e(1) _ _ _ later]) (use Cons.prems here in simp_all)
  have same: "map (market_payout ?k (market_balance_of t)) (map snd us) = map ?pay (map snd us)"
    using others by auto
  show ?case
    using ih [unfolded same] t x e(2) coll by (auto simp: drop_shares_apply algebra_simps)
qed

text \<open>C8: Once a market has ended in whose run no buyer offered to receive a negative number of shares,
  its holders can redeem in any order, given a token that honours funded transfers and a supply of at
  most half the \<open>i128\<close> range: if distinct holders of
  positions worth something redeem one after the other, each in a transaction of its own at any
  later time, every call succeeds and pays what the position was worth at the start, however many
  redeemed before; their balances are cleared, nobody else's changes, and the supply and the
  collateral fall by the sum paid, which the supply covers.  When a side won and every holder of it
  took part, that sum is the whole supply.\<close>

theorem market_redeem_any_order:
  assumes "(market_step chain)\<^sup>*\<^sup>* s0 s" "market_fresh s0" "inst_market s = Some m" "status m \<noteq> Open"
    and "2 * total_supply m \<le> i128_max" "distinct (map snd us)"
    and "\<forall>(env, user) \<in> set us. hosted chain env \<and> pays_when_funded env \<and> authorized env user
      \<and> 0 < market_payout m (market_balance_of s) user"
  defines "paid \<equiv> (\<Sum>user\<leftarrow>map snd us. market_payout m (market_balance_of s) user)"
  shows "\<exists>t. redeem_all us s = Inr (map (market_payout m (market_balance_of s)) (map snd us), t)
    \<and> inst_market t = Some (m\<lparr>total_supply := total_supply m - paid\<rparr>)
    \<and> market_collateral chain t = market_collateral chain s - paid
    \<and> (\<forall>p a. market_balance_of t p a = (if a \<in> snd ` set us then 0 else market_balance_of s p a))
    \<and> paid \<le> total_supply m
    \<and> (status m \<noteq> Cancelled \<and> {a. market_payout m (market_balance_of s) a \<noteq> 0} \<subseteq> snd ` set us
        \<longrightarrow> paid = total_supply m)"
proof -
  let ?pay = "market_payout m (market_balance_of s)"
  note f = reach_facts [OF assms(1-3)]
  obtain t where t: "redeem_all us s = Inr (map ?pay (map snd us), t)"
    "inst_market t = Some (m\<lparr>total_supply := total_supply m - paid\<rparr>)"
    "market_collateral chain t = market_collateral chain s - paid"
    "\<forall>p a. market_balance_of t p a = (if a \<in> snd ` set us then 0 else market_balance_of s p a)"
    "(market_step chain)\<^sup>*\<^sup>* s0 t"
    using redeem_all_pays [OF assms(1-7)] unfolding paid_def by blast
  have "0 \<le> total_supply m - paid"
    using issued_nonneg [OF reach_facts(1) [OF t(5) assms(2) t(2)]] by (simp add: book_view_def)
  moreover have "paid = total_supply m"
    if "status m \<noteq> Cancelled" "{a. ?pay a \<noteq> 0} \<subseteq> snd ` set us"
  proof -
    have "paid = (\<Sum>a\<in>snd ` set us. ?pay a)"
      using assms(6) by (simp add: paid_def sum_list_distinct_conv_sum_set flip: map_map)
    also have "\<dots> = fsum ?pay" using that(2) by (intro fsum_superset [symmetric]) auto
    finally show ?thesis using f(4) that(1) assms(4) by (cases "status m") simp_all
  qed
  ultimately show ?thesis using t by auto
qed

lemma market_redeem_any_order_witness:
  "\<exists>t. redeem_all [(sample_env 2000000 0, 11), (sample_env 2000005 0, 12)]
      (sample_finished Cancelled 0 CancelEvent) = Inr ([10000, 300], t)
    \<and> market_collateral (sample_env 0 0) t = 0"
proof -
  let ?s = "sample_finished Cancelled 0 CancelEvent"
  let ?m = "sample_market\<lparr>total_supply := 10300, pool_yes := 0, pool_no := 0,
        status := Cancelled, final_price := 0\<rparr>"
  let ?us = "[(sample_env 2000000 0, 11), (sample_env 2000005 0, 12)]"
  have pay: "market_payout ?m (market_balance_of ?s) 11 = 10000" "market_payout ?m (market_balance_of ?s) 12 = 300"
    by (simp_all add: market_payout_def market_balance_of_def sample_finished_def signed_divide_int_def)
  have "\<exists>t. redeem_all ?us ?s = Inr (map (market_payout ?m (market_balance_of ?s)) (map snd ?us), t)
    \<and> inst_market t = Some (?m\<lparr>total_supply := total_supply ?m
        - (\<Sum>user\<leftarrow>map snd ?us. market_payout ?m (market_balance_of ?s) user)\<rparr>)
    \<and> market_collateral (sample_env 0 0) t = market_collateral (sample_env 0 0) ?s
        - (\<Sum>user\<leftarrow>map snd ?us. market_payout ?m (market_balance_of ?s) user)
    \<and> (\<forall>p a. market_balance_of t p a = (if a \<in> snd ` set ?us then 0 else market_balance_of ?s p a))
    \<and> (\<Sum>user\<leftarrow>map snd ?us. market_payout ?m (market_balance_of ?s) user) \<le> total_supply ?m
    \<and> (status ?m \<noteq> Cancelled \<and> {a. market_payout ?m (market_balance_of ?s) a \<noteq> 0} \<subseteq> snd ` set ?us
        \<longrightarrow> (\<Sum>user\<leftarrow>map snd ?us. market_payout ?m (market_balance_of ?s) user) = total_supply ?m)"
    by (rule market_redeem_any_order [OF sample_reach_cancelled sample_fresh_ok])
      (simp_all add: sample_finished_def pay [unfolded sample_finished_def] sample_hosted sample_pays
        i128_max_def, simp_all add: sample_env_def)
  moreover have "market_collateral (sample_env 0 0) ?s = 10300"
    by (simp add: market_collateral_def sample_finished_def sample_market_def sample_env_def
        ledger_balance_def sample_traded_def)
  ultimately show ?thesis by (auto simp: pay)
qed

end
