(* ===== verification/Market_Types.thy ===== *)
theory Market_Types
  imports Market_Trading
begin

text \<open>
  The types of a market's storage.  Rust keeps every amount in an \<open>i128\<close>; the model keeps it in an
  \<open>int\<close>, so that the range of each stored number is a property to be shown.  With it go the
  facts a stored record satisfies whatever the calls were: the bounds checked by \<open>initialize\<close>, the
  agreement of the status with the final price and the pools, and the absence of zero balances
  among the entries, which \<open>set_balance\<close> removes.
\<close>

section \<open>Well-formed data\<close>

text \<open>What \<open>initialize\<close> has checked once and no call changes.\<close>

definition market_config_ok :: "Market \<Rightarrow> bool" where
  "market_config_ok m \<longleftrightarrow> 0 < strike_price m \<and> grace_period m \<noteq> 0 \<and> feed_id m \<noteq> 0
     \<and> min_fee_bps m \<le> base_fee_bps m \<and> base_fee_bps m \<le> MAX_FEE_BPS \<and> 0 < initial_liquidity m
     \<and> 2 \<le> reflector_decimals_at_init m \<and> reflector_decimals_at_init m \<le> 30"

text \<open>The status against the final price and the pools.\<close>

definition market_outcome_ok :: "Market \<Rightarrow> bool" where
  "market_outcome_ok m \<longleftrightarrow> (case status m of
      Open \<Rightarrow> final_price m = 0
    | ResolvedYes \<Rightarrow> strike_price m \<le> final_price m
    | ResolvedNo \<Rightarrow> final_price m < strike_price m
    | Cancelled \<Rightarrow> final_price m = 0)
   \<and> (status m \<noteq> Open \<longrightarrow> pool_yes m = 0 \<and> pool_no m = 0)"

definition market_amounts_ok :: "Market \<Rightarrow> bool" where
  "market_amounts_ok m \<longleftrightarrow> in_i128 (strike_price m) \<and> in_i128 (final_price m) \<and> in_i128 (pool_yes m)
     \<and> in_i128 (pool_no m) \<and> in_i128 (total_supply m) \<and> in_i128 (initial_liquidity m)"

definition balances_ok :: "'a market_store_scheme \<Rightarrow> bool" where
  "balances_ok st \<longleftrightarrow> (\<forall>k v. balances st k = Some v \<longrightarrow> v \<noteq> 0 \<and> in_i128 v)"

definition market_store_ok :: "'a market_store_scheme \<Rightarrow> bool" where
  "market_store_ok st \<longleftrightarrow> balances_ok st
     \<and> (\<forall>m. inst_market st = Some m \<longrightarrow> market_config_ok m \<and> market_outcome_ok m \<and> market_amounts_ok m)
     \<and> (\<forall>rs. inst_redstone st = Some rs \<longrightarrow> 2 \<le> decimals_at_init rs \<and> decimals_at_init rs \<le> 30)"

text \<open>The arguments of a call are \<open>i128\<close> values.\<close>

fun call_typed :: "market_call \<Rightarrow> bool" where
  "call_typed (CallInitialize adm coll strike expiry_ts grace lazer feed base_fee min_fee treas liquidity
     refl_cfg redstone) \<longleftrightarrow> in_i128 strike \<and> in_i128 liquidity"
| "call_typed (CallSplit user amount) \<longleftrightarrow> in_i128 amount"
| "call_typed (CallMerge user amount) \<longleftrightarrow> in_i128 amount"
| "call_typed (CallBuy user p amount min_out) \<longleftrightarrow> in_i128 amount \<and> in_i128 min_out"
| "call_typed (CallSell user p shares min_out) \<longleftrightarrow> in_i128 shares \<and> in_i128 min_out"
| "call_typed (CallTransfer from to p amount) \<longleftrightarrow> in_i128 amount"
| "call_typed _ \<longleftrightarrow> True"

lemmas record_ok = market_config_ok_def market_outcome_ok_def market_amounts_ok_def

section \<open>The storage helpers\<close>

lemma balances_ok_set: "balances_ok st \<Longrightarrow> in_i128 v \<Longrightarrow> balances_ok (market_set_balance p a v st)"
  by (simp add: balances_ok_def market_set_balance_def)

lemma balances_ok_credit: "market_credit p a v st = Inr st' \<Longrightarrow> balances_ok st \<Longrightarrow> balances_ok st'"
  by (auto simp: market_credit_def Let_def res_simps balances_ok_set)

lemma balances_ok_debit: "market_debit p a v st = Inr st' \<Longrightarrow> balances_ok st \<Longrightarrow> balances_ok st'"
  by (auto simp: market_debit_def Let_def res_simps balances_ok_set)

lemma balances_ok_frame [simp]:
  "balances_ok (save_market m st) = balances_ok st"
  "balances_ok (market_publish e st) = balances_ok st"
  "balances_ok (st'\<lparr>tokens := t\<rparr>) = balances_ok st'"
  "balances_ok (st\<lparr>inst_redstone := r\<rparr>) = balances_ok st"
  by (simp_all add: balances_ok_def save_market_def market_touch_def market_publish_def)

lemma balances_ok_clear: "balances_ok st \<Longrightarrow> balances_ok (market_clear_balances a st)"
  by (simp add: market_clear_balances_def balances_ok_set)

lemma in_i128_to_cents: "to_cents p e = (Inr c :: ('e, int) res) \<Longrightarrow> in_i128 c"
  by (auto simp: to_cents_def Let_def i128_ops i128_eq_Inr res_simps split: if_splits)

lemma in_i128_settle_price: "market_settle_price env m payload = Inr c \<Longrightarrow> in_i128 c"
  by (auto simp: market_settle_price_def Let_def res_simps dest!: in_i128_to_cents)

section \<open>Every call keeps the types\<close>

lemma amounts_set_reserve [simp]:
  "market_amounts_ok m \<Longrightarrow> in_i128 v \<Longrightarrow> market_amounts_ok (market_set_reserve p v m)"
  "market_amounts_ok m \<Longrightarrow> in_i128 v \<Longrightarrow> market_amounts_ok (m\<lparr>total_supply := v\<rparr>)"
  by (cases p; simp add: market_amounts_ok_def)+

lemma config_frame [simp]:
  "market_config_ok (market_set_reserve p v m) = market_config_ok m"
  "market_config_ok (m\<lparr>total_supply := ts\<rparr>) = market_config_ok m"
  by (cases p; simp add: market_config_ok_def)+

lemma outcome_set_reserve [simp]:
  "status m = Open \<Longrightarrow> market_outcome_ok (market_set_reserve p v m) = market_outcome_ok m"
  by (cases p) (simp_all add: market_outcome_ok_def)

lemma outcome_supply [simp]:
  "market_outcome_ok (m\<lparr>total_supply := ts\<rparr>) = market_outcome_ok m"
  by (cases "status m") (simp_all add: market_outcome_ok_def)

lemma status_set_reserve [simp]: "status (market_set_reserve p v m) = status m"
  by (cases p) simp_all

text \<open>Most calls end by saving a record and publishing an event.\<close>

lemma market_store_ok_saved:
  assumes "market_config_ok m" "market_outcome_ok m" "market_amounts_ok m"
    and "balances_ok s" "inst_redstone s = inst_redstone st" "market_store_ok st"
  shows "market_store_ok (market_publish e (save_market m s))"
  using assms by (simp add: market_store_ok_def)

lemma market_store_okD:
  assumes "market_store_ok st"
  shows "balances_ok st"
    and "inst_market st = Some m \<Longrightarrow> market_config_ok m" "inst_market st = Some m \<Longrightarrow> market_outcome_ok m"
      "inst_market st = Some m \<Longrightarrow> market_amounts_ok m"
  using assms by (simp_all add: market_store_ok_def)

lemmas ledger_ok = balances_ok_credit balances_ok_debit

lemma split_types:
  assumes "market_split env user n st = Inr (r, st')" "market_store_ok (st :: 'tok market_state)"
  shows "market_store_ok st'"
proof -
  from assms(1) obtain m t s2 s3 where *: "inst_market st = Some m"
    "market_credit Yes user n (st\<lparr>tokens := t\<rparr>) = Inr s2" "market_credit No user n s2 = Inr s3"
    "in_i128 (total_supply m + n)"
    "st' = market_publish (SplitEvent user n) (save_market (m\<lparr>total_supply := total_supply m + n\<rparr>) s3)"
    by (auto simp: market_split_def res_simps Let_def split: if_splits)
  show ?thesis
    unfolding *(5)
    using * market_store_okD [OF assms(2)] ledger_ok(1) [OF *(2)] ledger_ok(1) [OF *(3)]
      market_credit_effect(3) [OF *(2)] market_credit_effect(3) [OF *(3)]
    by (intro market_store_ok_saved [OF _ _ _ _ _ assms(2)]) simp_all
qed

lemma merge_types:
  assumes "market_merge env user n st = Inr (r, st')" "market_store_ok (st :: 'tok market_state)"
  shows "market_store_ok st'"
proof -
  from assms(1) obtain m t s1 s2 where *: "inst_market st = Some m"
    "market_debit Yes user n st = Inr s1" "market_debit No user n s1 = Inr s2"
    "in_i128 (total_supply m - n)"
    "st' = market_publish (MergeEvent user n)
      (save_market (m\<lparr>total_supply := total_supply m - n\<rparr>) (s2\<lparr>tokens := t\<rparr>))"
    by (auto simp: market_merge_def res_simps Let_def split: if_splits)
  show ?thesis
    unfolding *(5)
    using * market_store_okD [OF assms(2)] ledger_ok(2) [OF *(2)] ledger_ok(2) [OF *(3)]
      market_debit_effect(4) [OF *(2)] market_debit_effect(4) [OF *(3)]
    by (intro market_store_ok_saved [OF _ _ _ _ _ assms(2)]) simp_all
qed

lemma buy_types:
  assumes "market_buy env user p n min_out st = Inr (r, st')" "market_store_ok (st :: 'tok market_state)"
  shows "market_store_ok st'"
proof -
  obtain m where m: "inst_market st = Some m" using assms(1) by (auto simp: market_buy_def res_simps)
  obtain rin rout where rs: "market_reserves m (other p) = (rin, rout)"
    by (cases "market_reserves m (other p)")
  from assms(1) m obtain t out s2 s3 s4 s5 where *: "status m = Open"
    "market_credit Yes user n (st\<lparr>tokens := t\<rparr>) = Inr s2" "market_credit No user n s2 = Inr s3"
    "market_debit (other p) user n s3 = Inr s4" "market_credit p user out s4 = Inr s5"
    "in_i128 (total_supply m + n)" "in_i128 (rin + n)" "in_i128 (rout - out)"
    "st' = market_publish (BuyEvent user p n out) (save_market (market_set_reserve p (rout - out)
       (market_set_reserve (other p) (rin + n) (m\<lparr>total_supply := total_supply m + n\<rparr>))) s5)"
    by (auto simp: market_buy_def res_simps Let_def rs not_le split: if_splits)
  show ?thesis
    unfolding *(9)
    using * m market_store_okD [OF assms(2)]
      ledger_ok(1) [OF *(2)] ledger_ok(1) [OF *(3)] ledger_ok(2) [OF *(4)] ledger_ok(1) [OF *(5)]
      market_credit_effect(3) [OF *(2)] market_credit_effect(3) [OF *(3)]
      market_debit_effect(4) [OF *(4)] market_credit_effect(3) [OF *(5)]
    by (intro market_store_ok_saved [OF _ _ _ _ _ assms(2)]) simp_all
qed

lemma sell_types:
  assumes "market_sell env user p n min_out st = Inr (out, st')" "market_store_ok (st :: 'tok market_state)"
  shows "market_store_ok st'"
proof -
  obtain m where m: "inst_market st = Some m" using assms(1) by (auto simp: market_sell_def res_simps)
  obtain rin rout where rs: "market_reserves m p = (rin, rout)" by (cases "market_reserves m p")
  from assms(1) m obtain t s1 where *: "status m = Open"
    "market_debit p user n st = Inr s1"
    "in_i128 (rin + n - out)" "in_i128 (rout - out)" "in_i128 (total_supply m - out)"
    "st' = market_publish (SellEvent user p n out) (save_market
       ((market_set_reserve (other p) (rout - out) (market_set_reserve p (rin + n - out) m))
         \<lparr>total_supply := total_supply m - out\<rparr>) (s1\<lparr>tokens := t\<rparr>))"
    by (auto simp: market_sell_def res_simps Let_def rs not_le not_less split: if_splits)
  show ?thesis
    unfolding *(6)
    using * m market_store_okD [OF assms(2)] ledger_ok(2) [OF *(2)] market_debit_effect(4) [OF *(2)]
    by (intro market_store_ok_saved [OF _ _ _ _ _ assms(2)]) simp_all
qed

lemma transfer_types:
  assumes "market_transfer env from to p n st = Inr (r, st')" "market_store_ok (st :: 'tok market_state)"
  shows "market_store_ok st'"
proof -
  from assms(1) obtain s1 s2 where *: "market_debit p from n st = Inr s1"
    "market_credit p to n s1 = Inr s2" "st' = market_publish (TransferEvent from to p n) s2"
    by (auto simp: market_transfer_def res_simps split: if_splits)
  show ?thesis
    using * assms(2) ledger_ok(2) [OF *(1)] ledger_ok(1) [OF *(2)]
      market_debit_effect(3,4) [OF *(1)] market_credit_effect(2,3) [OF *(2)]
    by (simp add: market_store_ok_def)
qed

lemma settle_types:
  assumes "market_settle env payload st = Inr (r, st')" "market_store_ok (st :: 'tok market_state)"
  shows "market_store_ok st'"
proof -
  from assms(1) obtain m cents s1 s2 where *: "inst_market st = Some m"
    "market_settle_price env m payload = Inr cents"
    "market_credit Yes (treasury m) (pool_yes m) st = Inr s1"
    "market_credit No (treasury m) (pool_no m) s1 = Inr s2"
    "st' = market_publish
       (SettleEvent (if strike_price m \<le> cents then ResolvedYes else ResolvedNo) cents)
       (save_market (m\<lparr>final_price := cents,
         status := if strike_price m \<le> cents then ResolvedYes else ResolvedNo,
         pool_yes := 0, pool_no := 0\<rparr>) s2)"
    unfolding market_settle_def by (simp add: res_simps Let_def not_less) auto
  have "market_config_ok m" "market_amounts_ok m" using market_store_okD [OF assms(2)] *(1) by simp_all
  then show ?thesis
    unfolding *(5)
    using market_store_okD(1) [OF assms(2)] ledger_ok(1) [OF *(3)] ledger_ok(1) [OF *(4)]
      market_credit_effect(3) [OF *(3)] market_credit_effect(3) [OF *(4)] in_i128_settle_price [OF *(2)]
    by (intro market_store_ok_saved [OF _ _ _ _ _ assms(2)])
      (simp_all add: record_ok)
qed

lemma cancel_types:
  assumes "market_cancel env st = Inr (r, st')" "market_store_ok (st :: 'tok market_state)"
  shows "market_store_ok st'"
proof -
  from assms(1) obtain m s1 s2 where *: "inst_market st = Some m" "status m = Open"
    "market_credit Yes (treasury m) (pool_yes m) st = Inr s1"
    "market_credit No (treasury m) (pool_no m) s1 = Inr s2"
    "st' = market_publish CancelEvent
       (save_market (m\<lparr>pool_yes := 0, pool_no := 0, status := Cancelled\<rparr>) s2)"
    by (auto simp: market_cancel_def res_simps Let_def split: if_splits)
  have "market_config_ok m" "market_amounts_ok m" "market_outcome_ok m"
    using market_store_okD [OF assms(2)] *(1) by simp_all
  then show ?thesis
    unfolding *(5)
    using *(2) market_store_okD(1) [OF assms(2)] ledger_ok(1) [OF *(3)] ledger_ok(1) [OF *(4)]
      market_credit_effect(3) [OF *(3)] market_credit_effect(3) [OF *(4)]
    by (intro market_store_ok_saved [OF _ _ _ _ _ assms(2)])
      (simp_all add: record_ok)
qed

lemma redeem_types:
  assumes "market_redeem env user st = Inr (pay, st')" "market_store_ok (st :: 'tok market_state)"
  shows "market_store_ok st'"
proof -
  obtain m where m: "inst_market st = Some m" using assms(1) by (auto simp: market_redeem_def res_simps)
  have "\<exists>t. in_i128 (total_supply m - pay) \<and> st' = market_publish (RedeemEvent user pay)
      (save_market (m\<lparr>total_supply := total_supply m - pay\<rparr>) (market_clear_balances user st\<lparr>tokens := t\<rparr>))"
    using assms(1) m unfolding market_redeem_def
    by (cases "status m") (auto simp: res_simps Let_def not_le)
  then obtain t where *: "in_i128 (total_supply m - pay)" "st' = market_publish (RedeemEvent user pay)
      (save_market (m\<lparr>total_supply := total_supply m - pay\<rparr>) (market_clear_balances user st\<lparr>tokens := t\<rparr>))"
    by blast
  show ?thesis
    unfolding *(2)
    using *(1) m market_store_okD [OF assms(2)] balances_ok_clear [of st user]
      market_clear_effect(3) [of user st]
    by (intro market_store_ok_saved [OF _ _ _ _ _ assms(2)]) simp_all
qed

lemma initialize_types:
  assumes "market_initialize env adm coll strike expiry_ts grace lazer feed base_fee min_fee treas liq
      refl_cfg redstone st = Inr (r, st')" "market_store_ok (st :: 'tok market_state)"
    and "in_i128 strike" "in_i128 liq"
  shows "market_store_ok st'"
proof -
  have "market_store_ok st' \<or> False"
    using assms market_store_okD(1) [OF assms(2)]
    by (auto simp: market_initialize_def res_simps Let_def not_le not_less record_ok market_store_ok_def
        split: option.splits if_splits)
  then show ?thesis by simp
qed

lemma call_keeps_types:
  assumes "market_exec env c s = Inr t" "call_typed c" "market_store_ok s"
  shows "market_store_ok t"
  using assms
  by (cases c) (auto simp: res_simps intro: split_types merge_types buy_types sell_types transfer_types
      settle_types cancel_types redeem_types initialize_types)

text \<open>C14: Every stored number has its type, and every stored record makes sense.  If all amounts in
  the storage of a market are \<open>i128\<close> values, no balance entry is zero, and its record has the
  configuration bounds of \<open>initialize\<close> and a final price and pools that agree with its status, then
  all of this holds again after any successful call with \<open>i128\<close> arguments, a buy with a negative
  minimum included.\<close>

theorem market_call_keeps_types:
  assumes "market_exec env c s = Inr t" "call_typed c" "market_store_ok s"
  shows "market_store_ok t"
  by (rule call_keeps_types [OF assms])

lemma market_call_keeps_types_witness:
  "market_store_ok sample_open \<and> market_store_ok (sample_finished Cancelled 0 CancelEvent)"
proof -
  have fresh: "market_store_ok sample_fresh"
    by (simp add: market_store_ok_def sample_fresh_def balances_ok_def)
  have init: "call_typed sample_init" by (simp add: sample_init_def i128_bounds)
  note s1 = market_call_keeps_types [OF sample_initialised init fresh]
  have "market_store_ok sample_traded" by (rule market_call_keeps_types [OF sample_split _ s1]) (simp add: i128_bounds)
  from market_call_keeps_types [OF sample_cancel _ this] s1 show ?thesis by simp
qed

section \<open>The configuration of a reachable market\<close>

lemma market_exec_config:
  assumes "market_exec env c s = Inr t" "\<forall>m. inst_market s = Some m \<longrightarrow> market_config_ok m"
  shows "\<forall>m. inst_market t = Some m \<longrightarrow> market_config_ok m"
  using assms
  by (cases c) (auto simp: res_simps elim!: market_split_effect market_merge_effect market_buy_effect
      market_sell_effect market_transfer_effect market_settle_effect market_cancel_effect
      market_redeem_effect market_initialize_effect, simp_all add: market_config_ok_def)

lemma reach_config:
  assumes "(market_step chain)\<^sup>*\<^sup>* s0 s" "market_fresh s0" "inst_market s = Some m"
  shows "market_config_ok m"
proof -
  have "\<forall>m. inst_market s = Some m \<longrightarrow> market_config_ok m"
    using assms(1)
  proof (induction rule: rtranclp_induct)
    case base
    then show ?case using assms(2) by (simp add: market_fresh_def)
  next
    case (step y z)
    from step.hyps(2) show ?case
    proof cases
      case (called env c)
      then show ?thesis using market_exec_config [OF called(3)] step.IH by blast
    qed (use step.IH in simp_all)
  qed
  then show ?thesis using assms(3) by simp
qed

end
