(* ===== verification/Market_Drain.thy ===== *)
theory Market_Drain
  imports Market_Progress Market_Types
begin

text \<open>
  What the rounding of the two trade formulas adds up to.  A cycle of three calls of one unit
  takes one unit of the seed liquidity out of a balanced pool; repeated, it empties the pool as
  far as the fee stays below 10000 basis points.  In a market drained that way a buy with a
  negative minimum then leaves a negative balance: a run from \<open>initialize\<close> to that state.
\<close>

section \<open>Runs of calls\<close>

fun market_run ::
    "'tok Env \<Rightarrow> market_call list \<Rightarrow> 'tok market_state \<Rightarrow> (market_error, 'tok market_state) res" where
  "market_run env [] s = Inr s"
| "market_run env (c # cs) s = bindr (market_exec env c s) (market_run env cs)"

lemma market_run_append:
  "market_run env (cs @ ds) s = bindr (market_run env cs s) (market_run env ds)"
proof (induction cs arbitrary: s)
  case (Cons c cs)
  then show ?case by (cases "market_exec env c s") simp_all
qed simp

lemma market_run_reach:
  assumes "market_run env cs s = Inr t" "\<forall>c \<in> set cs. careful c" "hosted chain env"
  shows "(market_step chain)\<^sup>*\<^sup>* s t"
  using assms
proof (induction cs arbitrary: s)
  case (Cons c cs)
  then obtain u where u: "market_exec env c s = Inr u" "market_run env cs u = Inr t"
    by (auto simp: res_simps simp del: market_exec.simps)
  have "market_step chain s u" using Cons.prems u(1) by (intro market_step.called [of _ env c]) auto
  then show ?case using Cons.IH [OF u(2)] Cons.prems by (auto intro: converse_rtranclp_into_rtranclp)
qed simp

text \<open>A run moves exactly as much collateral as it moves supply.\<close>

lemma market_run_funds:
  assumes "market_run env cs s = Inr t" "hosted chain env" "inst_market s = Some m"
  shows "\<exists>m'. inst_market t = Some m'
    \<and> total_supply m' - total_supply m = market_collateral chain t - market_collateral chain s"
  using assms(1,3)
proof (induction cs arbitrary: s m)
  case (Cons c cs)
  then obtain u where u: "market_exec env c s = Inr u" "market_run env cs u = Inr t"
    by (auto simp: res_simps simp del: market_exec.simps)
  show ?case using market_exec_funds [OF u(1) assms(2) Cons.prems(2)] Cons.IH [OF u(2)] by fastforce
qed simp

section \<open>One cycle\<close>

text \<open>A trader: somebody who signs, on a token that works, in a transaction that is not the
  contract's own.\<close>

definition trader :: "'tok Env \<Rightarrow> 'tok Env \<Rightarrow> Address \<Rightarrow> bool" where
  "trader chain env user \<longleftrightarrow> hosted chain env \<and> pays_when_funded env \<and> sep41_at env user
     \<and> authorized env user"

text \<open>Buy one unit of YES, and sell the two shares one by one.\<close>

definition drain_cycle :: "Address \<Rightarrow> market_call list" where
  "drain_cycle user = [CallBuy user Yes 1 1, CallSell user Yes 1 1, CallSell user Yes 1 1]"

text \<open>The fee stays below 10000 basis points while the supply is above a tenth of the initial
  liquidity at the highest base fee, and further down at lower ones.\<close>

definition fee_bearable :: "Market \<Rightarrow> int \<Rightarrow> bool" where
  "fee_bearable m ts \<longleftrightarrow> 0 < ts \<and> uint (base_fee_bps m) * initial_liquidity m < 10000 * ts"

lemma fee_bearable_mono: "fee_bearable m ts \<Longrightarrow> ts \<le> ts' \<Longrightarrow> fee_bearable m ts'"
  by (simp add: fee_bearable_def)

lemma div_times_le: "0 < b \<Longrightarrow> a div b * b \<le> (a :: int)"
  using pos_mod_sign [of b a] div_mult_mod_eq [of a b] by linarith

lemma drain_fee:
  assumes "market_config_ok m" "fee_bearable m (total_supply m)" "initial_liquidity m \<le> 2 ^ 60"
  shows "\<exists>f. market_effective_fee_bps m = Inr f \<and> f < 10000"
proof -
  let ?ts = "total_supply m" and ?liq = "initial_liquidity m"
  let ?base = "uint (base_fee_bps m)" and ?mn = "uint (min_fee_bps m)"
  define q where "q = (?base - ?mn) * ?liq div ?ts"
  have c: "?mn \<le> ?base" "?base \<le> 1000" "0 < ?liq" "0 < ?ts" "?base * ?liq < 10000 * ?ts" "0 \<le> ?mn"
    using assms(1,2) by (simp_all add: market_config_ok_def fee_bearable_def MAX_FEE_BPS_def word_le_def)
  have spread: "0 \<le> (?base - ?mn) * ?liq" using c by simp
  have mn: "0 \<le> ?mn" by simp
  have "?base - ?mn \<le> 1000" using c(2) mn by linarith
  then have "(?base - ?mn) * ?liq \<le> 1000 * 2 ^ 60" using c(3) assms(3) by (intro mult_mono) auto
  then have x: "in_i128 ((?base - ?mn) * ?liq)" using spread by (intro in_i128_small) auto
  have q: "0 \<le> q" "q * ?ts \<le> (?base - ?mn) * ?liq"
    unfolding q_def by (rule iffD2 [OF pos_imp_zdiv_nonneg_iff [OF c(4)] spread], rule div_times_le [OF c(4)])
  have "?mn + q < 10000"
  proof (cases "?ts \<le> ?liq")
    case True
    have "(?mn + q) * ?ts \<le> ?mn * ?liq + (?base - ?mn) * ?liq"
      using q(2) mult_left_mono [OF True c(6)] by (simp add: distrib_right)
    also have "\<dots> < 10000 * ?ts" using c(5) by (simp add: algebra_simps)
    finally show ?thesis using c(4) by simp
  next
    case False
    then have "(?base - ?mn) * ?liq \<le> (?base - ?mn) * ?ts" using c(1) by (intro mult_left_mono) auto
    then have "q * ?ts \<le> (?base - ?mn) * ?ts" using q(2) by linarith
    then show ?thesis using c(1,2,4) by simp
  qed
  then have r: "0 \<le> ?mn + q" "?mn + q < 10000" using q(1) c(6) by simp_all
  then have "effective_fee_bps (base_fee_bps m) (min_fee_bps m) ?liq ?ts
      = (Inr (word_of_int (?mn + q)) :: (market_error, u32) res)"
    unfolding q_def using c(3,4) x in_i128_small [OF r(1)] r(2) assms(1)
    by (intro effective_fee_value) (simp_all add: market_config_ok_def q_def)
  moreover have "uint (word_of_int (?mn + q) :: u32) = ?mn + q" using r by (intro u32_word_of_int) auto
  then have "(word_of_int (?mn + q) :: u32) < 10000" using r by (simp add: word_less_def)
  ultimately show ?thesis by (auto simp: market_effective_fee_bps_def)
qed

lemma drain_buy:
  assumes "(market_step chain)\<^sup>*\<^sup>* s0 s" "market_fresh s0" "inst_market s = Some m" "status m = Open"
    and "trader chain env user" "ledger_timestamp env < expiry m"
    and "pool_yes m = n" "pool_no m = n" "3 \<le> n" "total_supply m < 2 ^ 60" "initial_liquidity m \<le> 2 ^ 60"
    and "fee_bearable m (total_supply m)" "1 \<le> token_balance env (collateral m) user (tokens s)"
  shows "\<exists>t. market_exec env (CallBuy user Yes 1 1) s = Inr t
    \<and> inst_market t = Some (m\<lparr>pool_yes := n - 1, pool_no := n + 1, total_supply := total_supply m + 1\<rparr>)
    \<and> market_balance_of t = add_shares (market_balance_of s) Yes user 2
    \<and> token_balance env (collateral m) user (tokens t) = token_balance env (collateral m) user (tokens s) - 1"
proof -
  note b = reach_open_bounds [OF assms(1-4)]
  have e: "hosted chain env" "pays_when_funded env" "sep41_at env user" "authorized env user"
    using assms(5) by (simp_all add: trader_def)
  have self: "user \<noteq> current_contract_address env" by (rule hosted_facts(5) [OF e(1,4)])
  obtain f where f: "market_effective_fee_bps m = Inr f" "f < 10000"
    using drain_fee [OF reach_config [OF assms(1-3)] assms(12,11)] by blast
  have n: "2 \<le> n" "n < 2 ^ 61" "n \<le> total_supply m" using assms(7-10) b(3-6) by simp_all
  obtain tk where tk: "token_transfer env (collateral m) user (current_contract_address env) 1 (tokens s) = Some tk"
    using pays_when_fundedD [OF e(2) _ assms(13)] by auto
  have small: "market_balance_of s q user + 1 + 1 \<le> i128_max" for q
    using b(2) [of q user] assms(10) by (simp add: i128_max_def)
  have "\<exists>t. market_buy env user Yes 1 1 s = Inr (1 + 1, t)"
    using small rounding_pays_the_trader [where 'e = market_error, OF n(1,2) f(2)] n b(1) assms(3,4,6-10) e(4) f(1) tk
    by (intro market_buy_ok [where m = m and rin = n and rout = n and fee = f and ein = 1 and out = 1 and tk = tk])
      (auto simp: i128_max_def dest: less_imp_le)
  then obtain t where t: "market_buy env user Yes 1 1 s = Inr (2, t)" by auto
  have "inst_market t = Some (m\<lparr>pool_yes := n - 1, pool_no := n + 1, total_supply := total_supply m + 1\<rparr>)
    \<and> market_balance_of t = add_shares (market_balance_of s) Yes user 2
    \<and> token_balance env (collateral m) user (tokens t) = token_balance env (collateral m) user (tokens s) - 1"
    using t assms(3,7,8) self sep41_transfer [OF e(3)] by (auto elim!: market_buy_effect)
  then show ?thesis using t by (auto simp: res_simps)
qed

lemma drain_sell:
  assumes "(market_step chain)\<^sup>*\<^sup>* s0 s" "market_fresh s0" "inst_market s = Some m" "status m = Open"
    and "trader chain env user" "ledger_timestamp env < expiry m"
    and "pool_yes m = n" "pool_no m = k" "3 \<le> k" "total_supply m \<le> 2 ^ 60" "initial_liquidity m \<le> 2 ^ 60"
    and "fee_bearable m (total_supply m)" "1 \<le> market_balance_of s Yes user"
    and "cpmm_sell_out n k 1 = (Inr 1 :: (market_error, int) res)"
  shows "\<exists>t. market_exec env (CallSell user Yes 1 1) s = Inr t
    \<and> inst_market t = Some (m\<lparr>pool_no := k - 1, total_supply := total_supply m - 1\<rparr>)
    \<and> market_balance_of t = add_shares (market_balance_of s) Yes user (- 1)
    \<and> token_balance env (collateral m) user (tokens t) = token_balance env (collateral m) user (tokens s) + 1"
proof -
  note b = reach_open_bounds [OF assms(1-4)]
  have e: "hosted chain env" "pays_when_funded env" "sep41_at env user" "authorized env user"
    using assms(5) by (simp_all add: trader_def)
  have self: "user \<noteq> current_contract_address env" by (rule hosted_facts(5) [OF e(1,4)])
  obtain f where f: "market_effective_fee_bps m = Inr f" "f < 10000"
    using drain_fee [OF reach_config [OF assms(1-3)] assms(12,11)] by blast
  have fee: "apply_fee 1 f = (Inr 1 :: (market_error, int) res)"
    using rounding_pays_the_trader [where 'e = market_error, of 2 f] f(2) by simp
  have "total_supply m \<le> token_balance env (collateral m) (current_contract_address env) (tokens s)"
    using reach_facts(2) [OF assms(1-3)] assms(3) hosted_facts(2,3) [OF e(1)] by (simp add: market_collateral_def)
  then have "1 \<le> token_balance env (collateral m) (current_contract_address env) (tokens s)"
    using b(3,4) by simp
  then obtain tk where tk: "token_transfer env (collateral m) (current_contract_address env) user 1 (tokens s) = Some tk"
    using pays_when_fundedD [OF e(2)] by fastforce
  have small: "market_balance_of s Yes user \<le> i128_max" "total_supply m \<le> i128_max" "n + 1 \<le> i128_max"
      "k \<le> i128_max" "0 < n" "1 \<le> total_supply m" "1 < n + 1"
    using b(2) [of Yes user] b(3-6) assms(7,8,10) by (simp_all add: i128_max_def)
  have "\<exists>t. market_sell env user Yes 1 1 s = Inr (1, t)"
    using small assms(3,4,6-9,13,14) e(4) f(1) fee tk
    by (intro market_sell_ok [where m = m and rin = n and rout = k and fee = f and ein = 1 and tk = tk]) auto
  then obtain t where t: "market_sell env user Yes 1 1 s = Inr (1, t)" by auto
  have "inst_market t = Some (m\<lparr>pool_no := k - 1, total_supply := total_supply m - 1\<rparr>)
    \<and> market_balance_of t = add_shares (market_balance_of s) Yes user (- 1)
    \<and> token_balance env (collateral m) user (tokens t) = token_balance env (collateral m) user (tokens s) + 1"
    using t assms(3,7,8) self sep41_transfer [OF e(3)] by (auto elim!: market_sell_effect)
  then show ?thesis using t by (auto simp: res_simps)
qed

lemma trader_hosted: "trader chain env user \<Longrightarrow> hosted chain env"
  by (simp add: trader_def)

lemma reach_called:
  assumes "(market_step chain)\<^sup>*\<^sup>* s0 s" "hosted chain env" "market_exec env c s = Inr t" "careful c"
  shows "(market_step chain)\<^sup>*\<^sup>* s0 t"
  using assms(1) market_step.called [OF assms(2,4,3)] by (rule rtranclp.rtrancl_into_rtrancl)

lemma add_shares_returned:
  "add_shares (add_shares (add_shares h p a 2) p a (- 1)) p a (- 1) = h"
  by (auto simp: add_shares_def fun_eq_iff)

text \<open>The cycle as a whole: one unit of the pool for the trader, everything else as before.\<close>

lemma drain_one:
  assumes "(market_step chain)\<^sup>*\<^sup>* s0 s" "market_fresh s0" "inst_market s = Some m" "status m = Open"
    and "trader chain env user" "ledger_timestamp env < expiry m"
    and "pool_yes m = n" "pool_no m = n" "3 \<le> n" "total_supply m < 2 ^ 60" "initial_liquidity m \<le> 2 ^ 60"
    and "fee_bearable m (total_supply m)" "1 \<le> token_balance env (collateral m) user (tokens s)"
  shows "\<exists>t. market_run env (drain_cycle user) s = Inr t \<and> (market_step chain)\<^sup>*\<^sup>* s0 t
    \<and> inst_market t = Some (m\<lparr>pool_yes := n - 1, pool_no := n - 1, total_supply := total_supply m - 1\<rparr>)
    \<and> market_balance_of t = market_balance_of s
    \<and> token_balance env (collateral m) user (tokens t) = token_balance env (collateral m) user (tokens s) + 1"
proof -
  let ?ts = "total_supply m"
  note host = trader_hosted [OF assms(5)]
  have n: "2 \<le> n" "n < 2 ^ 61"
    using assms(7-10) reach_open_bounds(3,4) [OF assms(1-4)] by simp_all
  have nn: "0 \<le> market_balance_of s Yes user" by (rule reach_open_bounds(1) [OF assms(1-4)])
  note round = rounding_pays_the_trader [where 'e = market_error, of n 0, OF n]
  obtain t1 where t1: "market_exec env (CallBuy user Yes 1 1) s = Inr t1"
    "inst_market t1 = Some (m\<lparr>pool_yes := n - 1, pool_no := n + 1, total_supply := ?ts + 1\<rparr>)"
    "market_balance_of t1 = add_shares (market_balance_of s) Yes user 2"
    "token_balance env (collateral m) user (tokens t1) = token_balance env (collateral m) user (tokens s) - 1"
    using drain_buy [OF assms] by blast
  have r1: "(market_step chain)\<^sup>*\<^sup>* s0 t1" by (rule reach_called [OF assms(1) host t1(1)]) simp
  obtain t2 where t2: "market_exec env (CallSell user Yes 1 1) t1 = Inr t2"
    "inst_market t2 = Some (m\<lparr>pool_yes := n - 1, pool_no := n, total_supply := ?ts\<rparr>)"
    "market_balance_of t2 = add_shares (market_balance_of t1) Yes user (- 1)"
    "token_balance env (collateral m) user (tokens t2) = token_balance env (collateral m) user (tokens t1) + 1"
    using drain_sell [OF r1 assms(2) t1(2) _ assms(5), of "n - 1" "n + 1"] assms(4,6,9-12) round nn
    by (auto simp: t1(3) add_shares_apply fee_bearable_def)
  have r2: "(market_step chain)\<^sup>*\<^sup>* s0 t2" by (rule reach_called [OF r1 host t2(1)]) simp
  obtain t3 where t3: "market_exec env (CallSell user Yes 1 1) t2 = Inr t3"
    "inst_market t3 = Some (m\<lparr>pool_yes := n - 1, pool_no := n - 1, total_supply := ?ts - 1\<rparr>)"
    "market_balance_of t3 = add_shares (market_balance_of t2) Yes user (- 1)"
    "token_balance env (collateral m) user (tokens t3) = token_balance env (collateral m) user (tokens t2) + 1"
    using drain_sell [OF r2 assms(2) t2(2) _ assms(5), of "n - 1" n] assms(4,6,9-12) round nn
    by (auto simp: t2(3) t1(3) add_shares_apply fee_bearable_def)
  have "(market_step chain)\<^sup>*\<^sup>* s0 t3" by (rule reach_called [OF r2 host t3(1)]) simp
  moreover have "market_run env (drain_cycle user) s = Inr t3"
    using t1(1) t2(1) t3(1) by (simp add: drain_cycle_def del: market_exec.simps)
  ultimately show ?thesis
    using t3 t2(3,4) t1(3,4) by (auto simp: add_shares_returned)
qed

section \<open>Draining the pool\<close>

definition drain_run :: "nat \<Rightarrow> Address \<Rightarrow> market_call list" where
  "drain_run k user = concat (replicate k (drain_cycle user))"

lemma drain_run_simps [simp]:
  "drain_run 0 user = []"
  "drain_run (Suc k) user = drain_cycle user @ drain_run k user"
  by (simp_all add: drain_run_def)

lemma drain_many:
  assumes "(market_step chain)\<^sup>*\<^sup>* s0 s" "market_fresh s0" "inst_market s = Some m" "status m = Open"
    and "trader chain env user" "ledger_timestamp env < expiry m"
    and "pool_yes m = n" "pool_no m = n" "int k + 2 \<le> n" "total_supply m < 2 ^ 60" "initial_liquidity m \<le> 2 ^ 60"
    and "fee_bearable m (total_supply m - int k + 1)" "1 \<le> token_balance env (collateral m) user (tokens s)"
  shows "\<exists>t. market_run env (drain_run k user) s = Inr t \<and> (market_step chain)\<^sup>*\<^sup>* s0 t
    \<and> inst_market t = Some (m\<lparr>pool_yes := n - int k, pool_no := n - int k, total_supply := total_supply m - int k\<rparr>)
    \<and> market_balance_of t = market_balance_of s
    \<and> token_balance env (collateral m) user (tokens t) = token_balance env (collateral m) user (tokens s) + int k"
  using assms(1,3-13)
proof (induction k arbitrary: s m n)
  case 0
  then show ?case by simp
next
  case (Suc k)
  have n: "3 \<le> n" and fee: "fee_bearable m (total_supply m)"
    using Suc.prems(8,11) by (auto intro: fee_bearable_mono)
  obtain t where t: "market_run env (drain_cycle user) s = Inr t" "(market_step chain)\<^sup>*\<^sup>* s0 t"
    "inst_market t = Some (m\<lparr>pool_yes := n - 1, pool_no := n - 1, total_supply := total_supply m - 1\<rparr>)"
    "market_balance_of t = market_balance_of s"
    "token_balance env (collateral m) user (tokens t) = token_balance env (collateral m) user (tokens s) + 1"
    using drain_one [OF Suc.prems(1) assms(2) Suc.prems(2-7) n Suc.prems(9,10) fee Suc.prems(12)] by blast
  obtain u where u: "market_run env (drain_run k user) t = Inr u" "(market_step chain)\<^sup>*\<^sup>* s0 u"
    "inst_market u = Some (m\<lparr>pool_yes := n - 1 - int k, pool_no := n - 1 - int k, total_supply := total_supply m - 1 - int k\<rparr>)"
    "market_balance_of u = market_balance_of t"
    "token_balance env (collateral m) user (tokens u) = token_balance env (collateral m) user (tokens t) + int k"
    using Suc.IH [OF t(2,3), of "n - 1"] Suc.prems t(5) by (auto simp: fee_bearable_def algebra_simps)
  show ?case using t u by (auto simp: market_run_append algebra_simps)
qed

text \<open>C39: Anyone can take the seed liquidity of a market, a unit at a time.  In a reachable open
  market whose pools hold \<open>n\<close> shares each, \<open>k\<close> rounds of buying YES for one unit and selling the
  two shares received one by one all succeed, at one ledger time, for every \<open>k\<close> up to \<open>n - 2\<close> as
  long as the fee stays below 10000 basis points (at a supply above a tenth of the initial
  liquidity it does under every accepted configuration): the trader, who needs one unit to start
  with, ends with \<open>k\<close> units more and the same shares, and both pools, the supply and the contract's
  collateral are \<open>k\<close> lower.\<close>

theorem market_seed_can_be_drained:
  assumes "(market_step chain)\<^sup>*\<^sup>* s0 s" "market_fresh s0" "inst_market s = Some m" "status m = Open"
    and "trader chain env user" "ledger_timestamp env < expiry m"
    and "pool_yes m = n" "pool_no m = n" "int k + 2 \<le> n" "total_supply m < 2 ^ 60" "initial_liquidity m \<le> 2 ^ 60"
    and "fee_bearable m (total_supply m - int k + 1)" "1 \<le> token_balance env (collateral m) user (tokens s)"
  shows "\<exists>t. market_run env (drain_run k user) s = Inr t
    \<and> inst_market t = Some (m\<lparr>pool_yes := n - int k, pool_no := n - int k, total_supply := total_supply m - int k\<rparr>)
    \<and> market_balance_of t = market_balance_of s
    \<and> token_balance env (collateral m) user (tokens t) = token_balance env (collateral m) user (tokens s) + int k
    \<and> market_collateral chain t = market_collateral chain s - int k"
proof -
  obtain t where t: "market_run env (drain_run k user) s = Inr t"
    "inst_market t = Some (m\<lparr>pool_yes := n - int k, pool_no := n - int k, total_supply := total_supply m - int k\<rparr>)"
    "market_balance_of t = market_balance_of s"
    "token_balance env (collateral m) user (tokens t) = token_balance env (collateral m) user (tokens s) + int k"
    using drain_many [OF assms] by blast
  have "\<exists>m'. inst_market t = Some m'
      \<and> total_supply m' - total_supply m = market_collateral chain t - market_collateral chain s"
    by (rule market_run_funds [OF t(1) trader_hosted [OF assms(5)] assms(3)])
  then show ?thesis using t by auto
qed

lemma sample_trader: "trader (sample_env now' px') (sample_env now px) user \<longleftrightarrow> user \<noteq> 1"
  using sample_hosted [of now' px' now px] sample_pays [of now px]
  by (simp add: trader_def) (simp add: sample_env_def ledger_sep41)

lemma market_seed_can_be_drained_witness:
  "\<exists>t. market_run (sample_env 1000000 0) (drain_run 9000 12) sample_open = Inr t
    \<and> token_balance (sample_env 1000000 0) 5 12 (tokens t) = 59000
    \<and> market_collateral (sample_env 0 0) t = 1000"
proof -
  have "market_collateral (sample_env 0 0) sample_open = 10000"
    "token_balance (sample_env 1000000 0) 5 12 (tokens sample_open) = 50000"
    by (simp_all add: market_collateral_def sample_defs ledger_balance_def)
  moreover have "inst_market sample_open = Some sample_market" by (simp add: sample_open_def)
  ultimately show ?thesis
    using market_seed_can_be_drained [OF sample_reach sample_fresh_ok, of sample_market "sample_env 1000000 0" 12 10000 9000]
    by (simp add: sample_trader fee_bearable_def sample_env_fields) (auto simp: sample_market_def)
qed

section \<open>A negative minimum in a drained market\<close>

text \<open>A market of a hundred units of liquidity at the highest base fee; user 12 has split twenty
  units, drains 95 and merges the twenty again.\<close>

definition thin_market :: Market where
  "thin_market = sample_market\<lparr>base_fee_bps := 1000, min_fee_bps := 0, pool_yes := 100, pool_no := 100,
     total_supply := 100, initial_liquidity := 100\<rparr>"

definition thin_init :: market_call where
  "thin_init = CallInitialize 10 5 100000 1086400 3600 6 100 1000 0 11 100 sample_feed None"

definition thin_split :: "ledger market_state" where
  "thin_split = \<lparr>inst_market = Some (thin_market\<lparr>total_supply := 120\<rparr>), inst_redstone = None,
     balances = [(Yes, 12) \<mapsto> 20, (No, 12) \<mapsto> 20], inst_ttl = 535680,
     balance_ttl = (\<lambda>_. 0)((Yes, 12) := 535680, (No, 12) := 535680),
     events = [InitEvent 100000 1086400, SplitEvent 12 20],
     tokens = (\<lambda>_ _. 0)(5 := (\<lambda>_. 0)(10 := 999900, 12 := 49980, 1 := 120))\<rparr>"

lemma thin_run: "market_run (sample_env 1000000 0) [thin_init, CallSplit 12 20] sample_fresh = Inr thin_split"
  by (simp add: thin_init_def thin_split_def thin_market_def sample_defs market_initialize_def
      market_split_def market_eval i128_eval fun_eq_iff)

lemma thin_drained:
  "\<exists>s. (market_step (sample_env 0 0))\<^sup>*\<^sup>* sample_fresh s
    \<and> inst_market s = Some (thin_market\<lparr>pool_yes := 5, pool_no := 5, total_supply := 5\<rparr>)
    \<and> (\<forall>q. market_balance_of s q 12 = 0) \<and> market_collateral (sample_env 0 0) s = 5
    \<and> 2 \<le> token_balance (sample_env 1000000 0) 5 12 (tokens s)"
proof -
  let ?e = "sample_env 1000000 0" and ?chain = "sample_env 0 0"
  let ?m = "\<lambda>n ts. thin_market\<lparr>pool_yes := n, pool_no := n, total_supply := ts\<rparr>"
  have host: "hosted ?chain ?e" and pays: "pays_when_funded ?e" by (rule sample_hosted sample_pays)+
  have init: "careful thin_init" by (simp add: thin_init_def)
  have r0: "(market_step ?chain)\<^sup>*\<^sup>* sample_fresh thin_split"
    by (rule market_run_reach [OF thin_run _ host]) (simp add: init)
  have m0: "inst_market thin_split = Some (?m 100 120)"
    "market_balance_of thin_split q 12 = 20" "token_balance ?e 5 12 (tokens thin_split) = 49980"
    "market_collateral ?chain thin_split = 120" for q
    by (cases q; simp add: thin_split_def thin_market_def market_balance_of_def sample_env_def
        sample_market_def market_collateral_def ledger_balance_def)+
  obtain s1 where s1: "market_run ?e (drain_run 95 12) thin_split = Inr s1"
    "(market_step ?chain)\<^sup>*\<^sup>* sample_fresh s1" "inst_market s1 = Some (?m 5 25)"
    "market_balance_of s1 = market_balance_of thin_split"
    "token_balance ?e 5 12 (tokens s1) = 50075"
    using drain_many [OF r0 sample_fresh_ok m0(1), of ?e 12 100 95] m0(3)
    by (auto simp: sample_trader fee_bearable_def thin_market_def sample_market_def sample_env_fields)
  have c1: "market_collateral ?chain s1 = 25"
    using market_run_funds [OF s1(1) host m0(1)] s1(3) m0(4) by (auto simp: thin_market_def)
  have self1: "token_balance ?e 5 (current_contract_address ?e) (tokens s1) = 25"
    using c1 s1(3) by (simp add: market_collateral_def thin_market_def sample_market_def sample_env_fields)
  obtain tk where tk: "token_transfer ?e 5 (current_contract_address ?e) 12 20 (tokens s1) = Some tk"
    using pays_when_fundedD [OF pays, of 20 5 "current_contract_address ?e" "tokens s1" 12] self1 by auto
  obtain s2 where s2: "market_merge ?e 12 20 s1 = Inr ((), s2)"
    using market_merge_ok [of ?e 12 s1 "?m 5 25" 20 tk] s1(3,4) m0(2) tk
    by (auto simp: sample_env_fields thin_market_def sample_market_def i128_bounds)
  have e2: "inst_market s2 = Some (?m 5 5)" "market_balance_of s2 q 12 = 0" for q
    using s2 s1(3,4) m0(2) by (cases q; auto simp: add_shares_apply elim!: market_merge_effect)+
  have x2: "market_exec ?e (CallMerge 12 20) s1 = Inr s2" using s2 by (simp add: res_simps)
  have r2: "(market_step ?chain)\<^sup>*\<^sup>* sample_fresh s2" by (rule reach_called [OF s1(2) host x2]) simp
  have c2: "market_collateral ?chain s2 = 5"
    using market_exec_funds [OF x2 host s1(3)] e2(1) c1 by auto
  have t2: "2 \<le> token_balance ?e 5 12 (tokens s2)"
    using s2
  proof (rule market_merge_effect)
    fix m t
    assume "inst_market s1 = Some m" "tokens s2 = t"
      "token_transfer ?e (collateral m) (current_contract_address ?e) 12 20 (tokens s1) = Some t"
    then show ?thesis
      using sep41_transfer [of ?e 12 5 "current_contract_address ?e" 12 20 "tokens s1" t] s1(3,5)
      by (auto simp: ledger_sep41 sample_env_fields thin_market_def sample_market_def)
  qed
  show ?thesis using r2 e2 c2 t2 by blast
qed

text \<open>C40: A negative \<open>min_shares_out\<close> is accepted, and it can break the backing of a market.  There is
  a market, reached from its initialisation by calls that all keep the solvency invariant (the draining
  above), whose effective fee is 200 percent; in it a buy of two units with a minimum of \<open>-10\<close> succeeds
  and leaves the buyer with a balance of \<open>-1\<close> YES shares and the YES pool, which becomes the
  treasury's at the end, with more shares than the contract has collateral.\<close>

theorem market_negative_minimum:
  "\<exists>s t m. (market_step (sample_env 0 0))\<^sup>*\<^sup>* sample_fresh s \<and> market_get_fee s = Inr 20000
    \<and> market_exec (sample_env 1000000 0) (CallBuy 12 Yes 2 (- 10)) s = Inr t
    \<and> inst_market t = Some m \<and> status m = Open \<and> market_balance_of t Yes 12 = - 1
    \<and> market_collateral (sample_env 0 0) t = 7 \<and> pool_yes m = 8"
proof -
  let ?e = "sample_env 1000000 0" and ?chain = "sample_env 0 0"
  let ?m = "\<lambda>n ts. thin_market\<lparr>pool_yes := n, pool_no := n, total_supply := ts\<rparr>"
  have host: "hosted ?chain ?e" and pays: "pays_when_funded ?e" by (rule sample_hosted sample_pays)+
  obtain s2 where r2: "(market_step ?chain)\<^sup>*\<^sup>* sample_fresh s2" and e2: "inst_market s2 = Some (?m 5 5)"
      "\<forall>q. market_balance_of s2 q 12 = 0"
    and c2: "market_collateral ?chain s2 = 5" and t2: "2 \<le> token_balance ?e 5 12 (tokens s2)"
    using thin_drained by blast
  obtain tk' where tk': "token_transfer ?e 5 12 (current_contract_address ?e) 2 (tokens s2) = Some tk'"
    using pays_when_fundedD [OF pays _ t2] by auto
  have fee: "market_effective_fee_bps (?m 5 5) = Inr 20000"
    by (simp add: market_effective_fee_bps_def thin_market_def math_eval)
  have swap: "apply_fee 2 20000 = (Inr (- 2) :: (market_error, int) res)"
    "cpmm_out 5 5 (- 2) = (Inr (- 3) :: (market_error, int) res)"
    by (simp_all add: math_eval)
  have "\<exists>t. market_buy ?e 12 Yes 2 (- 10) s2 = Inr (2 + - 3, t)"
    using e2 tk' fee swap
    by (intro market_buy_run [where m = "?m 5 5" and rin = 5 and rout = 5 and fee = 20000 and ein = "- 2" and tk = tk'])
      (simp_all add: sample_env_fields thin_market_def sample_market_def i128_bounds)
  then obtain t where t: "market_buy ?e 12 Yes 2 (- 10) s2 = Inr (2 + - 3, t)" ..
  have x3: "market_exec ?e (CallBuy 12 Yes 2 (- 10)) s2 = Inr t" using t by (simp add: res_simps)
  have e3: "inst_market t = Some (thin_market\<lparr>total_supply := 7, pool_no := 7, pool_yes := 8\<rparr>)"
    "market_balance_of t Yes 12 = - 1"
    using t e2 swap by (auto simp: add_shares_apply elim!: market_buy_effect)
  have "market_collateral ?chain t = 7"
    using market_exec_funds [OF x3 host e2(1)] e3(1) c2 by auto
  then show ?thesis
    using r2 x3 e3 e2(1) fee
    by (intro exI [of _ s2] exI [of _ t] exI [of _ "thin_market\<lparr>total_supply := 7, pool_no := 7, pool_yes := 8\<rparr>"])
      (simp add: market_get_fee_def load_market_def thin_market_def sample_market_def)
qed

end
