(* ===== verification/Market_Seed.thy ===== *)
theory Market_Seed
  imports Market_Progress
begin

text \<open>
  How much the traders can take from whoever funded a market.  Each trade leaves the product of the
  two pools at most one supply below its old value, everything else leaves the pools alone; so
  \<open>k\<close> trades cost the pools at most \<open>k\<close> supplies of that product, whatever their order, their sizes
  and the fees.
\<close>

section \<open>Runs with a number of trades\<close>

fun is_trade :: "market_call \<Rightarrow> bool" where
  "is_trade (CallBuy user p n min_out) = True"
| "is_trade (CallSell user p n min_out) = True"
| "is_trade _ = False"

text \<open>The supply after a trade stays within \<open>cap\<close>.\<close>

definition supply_within :: "int \<Rightarrow> 'tok market_state \<Rightarrow> bool" where
  "supply_within cap s \<longleftrightarrow> (case inst_market s of None \<Rightarrow> True | Some m \<Rightarrow> total_supply m \<le> cap)"

text \<open>A run of a market with \<open>k\<close> trades among its steps.\<close>

inductive trades_within :: "'tok Env \<Rightarrow> int \<Rightarrow> 'tok market_state \<Rightarrow> nat \<Rightarrow> 'tok market_state \<Rightarrow> bool"
  for chain :: "'tok Env" and cap :: int and s :: "'tok market_state" where
  start: "trades_within chain cap s 0 s"
| trade: "trades_within chain cap s k t \<Longrightarrow> hosted chain env \<Longrightarrow> careful c \<Longrightarrow> is_trade c \<Longrightarrow>
    market_exec env c t = Inr u \<Longrightarrow> supply_within cap u \<Longrightarrow> trades_within chain cap s (Suc k) u"
| other_call: "trades_within chain cap s k t \<Longrightarrow> hosted chain env \<Longrightarrow> careful c \<Longrightarrow> \<not> is_trade c \<Longrightarrow>
    market_exec env c t = Inr u \<Longrightarrow> trades_within chain cap s k u"
| elsewhere: "trades_within chain cap s k t \<Longrightarrow>
    (\<forall>c. token_balance chain c (current_contract_address chain) (tokens t)
      \<le> token_balance chain c (current_contract_address chain) tk) \<Longrightarrow>
    trades_within chain cap s k (t\<lparr>tokens := tk\<rparr>)"
| ageing: "trades_within chain cap s k t \<Longrightarrow> trades_within chain cap s k (t\<lparr>inst_ttl := n, balance_ttl := f\<rparr>)"

lemma trades_within_steps: "trades_within chain cap s k t \<Longrightarrow> (market_step chain)\<^sup>*\<^sup>* s t"
  by (induction rule: trades_within.induct)
    (auto intro: rtranclp.rtrancl_into_rtrancl market_step.called market_step.elsewhere market_step.ageing)

section \<open>What one step does to the pools\<close>

definition pool_product :: "Market \<Rightarrow> int" where
  "pool_product m = pool_yes m * pool_no m"

lemma reserves_product: "market_reserves m p = (x, y) \<Longrightarrow> pool_product m = x * y"
  by (cases p) (auto simp: pool_product_def)

lemma trade_loss:
  assumes "(market_step chain)\<^sup>*\<^sup>* s0 s" "market_fresh s0" "inst_market s = Some m"
    and "hosted chain env" "careful c" "is_trade c" "market_exec env c s = Inr t"
  shows "\<exists>m'. inst_market t = Some m' \<and> status m = Open \<and> status m' = Open
    \<and> pool_product m \<le> pool_product m' + total_supply m'"
proof -
  have reach: "(market_step chain)\<^sup>*\<^sup>* s0 t"
    using assms(1) market_step.called [OF assms(4,5,7)] by (rule rtranclp.rtrancl_into_rtrancl)
  consider user p n mo r where "c = CallBuy user p n mo" "market_buy env user p n mo s = Inr (r, t)"
    | user p n mo r where "c = CallSell user p n mo" "market_sell env user p n mo s = Inr (r, t)"
    using assms(6,7) by (cases c) (auto simp: discard_eq_Inr)
  then show ?thesis
  proof cases
    case (1 user p n mo r)
    obtain wanted unwanted where rs: "market_reserves m p = (wanted, unwanted)" by (cases "market_reserves m p")
    from buy_trade_effect [OF assms(1,2) 1(2) assms(3) rs] obtain m' wanted' where
      b: "inst_market t = Some m'" "market_reserves m' p = (wanted', unwanted + n)"
        "unwanted * wanted < (unwanted + n) * (wanted' + 1)" by blast
    have st: "status m = Open \<and> status m' = Open" using 1(2) b(1) assms(3)
      by (auto elim!: market_buy_effect) (cases p; simp)+
    have "unwanted + n \<le> total_supply m'"
      using reach_open_bounds(4,6) [OF reach assms(2) b(1)] st b(2) by (cases p) auto
    then show ?thesis
      using b st reserves_product [OF rs] reserves_product [OF b(2)] by (auto simp: algebra_simps)
  next
    case (2 user p n mo r)
    obtain rin rout where rs: "market_reserves m p = (rin, rout)" by (cases "market_reserves m p")
    from sell_trade_effect [OF assms(1,2) 2(2) assms(3) rs] obtain m' rin' rout' where
      b: "inst_market t = Some m'" "market_reserves m' p = (rin', rout')"
        "2 * (rin * rout) \<le> 2 * (rin' * rout') + (rin' + rout')" by blast
    have st: "status m = Open \<and> status m' = Open" using 2(2) b(1) assms(3)
      by (auto elim!: market_sell_effect) (cases p; simp)+
    have "rin' \<le> total_supply m'" "rout' \<le> total_supply m'"
      using reach_open_bounds(4,6) [OF reach assms(2) b(1)] st b(2) by (cases p; auto)+
    then show ?thesis
      using b st reserves_product [OF rs] reserves_product [OF b(2)] by auto
  qed
qed

lemma other_call_pools:
  assumes "market_exec env c s = Inr t" "\<not> is_trade c" "inst_market s = Some m"
  shows "\<exists>m'. inst_market t = Some m' \<and> (status m' = Open \<longrightarrow> status m = Open \<and> pool_product m' = pool_product m)"
  using assms
  by (cases c) (auto simp: res_simps pool_product_def elim!: market_split_effect market_merge_effect
      market_transfer_effect market_settle_effect market_cancel_effect market_redeem_effect market_initialize_effect)

lemma trades_loss:
  assumes "trades_within chain cap s k t" "(market_step chain)\<^sup>*\<^sup>* s0 s" "market_fresh s0" "inst_market s = Some m"
  shows "\<exists>m'. inst_market t = Some m'
    \<and> (status m' = Open \<longrightarrow> status m = Open \<and> pool_product m - int k * cap \<le> pool_product m')"
  using assms(1)
proof (induction rule: trades_within.induct)
  case start
  then show ?case using assms(4) by simp
next
  case (trade k t env c u)
  then obtain m1 where m1: "inst_market t = Some m1"
    "status m1 = Open \<longrightarrow> status m = Open \<and> pool_product m - int k * cap \<le> pool_product m1" by blast
  have "(market_step chain)\<^sup>*\<^sup>* s0 t" using assms(2) trades_within_steps [OF trade(1)] by simp
  from trade_loss [OF this assms(3) m1(1) trade(2-5)] obtain m2 where m2: "inst_market u = Some m2"
    "status m1 = Open" "pool_product m1 \<le> pool_product m2 + total_supply m2" by blast
  moreover have "total_supply m2 \<le> cap" using trade(6) m2(1) by (simp add: supply_within_def)
  ultimately show ?case using m1(2) by (auto simp: algebra_simps)
next
  case (other_call k t env c u)
  then obtain m1 where m1: "inst_market t = Some m1"
    "status m1 = Open \<longrightarrow> status m = Open \<and> pool_product m - int k * cap \<le> pool_product m1" by blast
  from other_call_pools [OF other_call(5,4) m1(1)] m1(2) show ?case by auto
qed auto

text \<open>Half of the two pools, rounded down, against their product.\<close>

lemma half_product:
  fixes x y :: int
  assumes "0 \<le> x" "0 \<le> y"
  shows "x * y \<le> (x + y) div 2 * ((x + y) div 2 + 1)"
proof -
  define h r d where "h = (x + y) div 2" and "r = (x + y) mod 2" and "d = x - h"
  have r: "r = 0 \<or> r = 1" by (auto simp: r_def)
  have x: "x = h + d" "y = h + r - d"
    using mult_div_mod_eq [of 2 "x + y"] unfolding h_def r_def d_def by linarith+
  have "r * d \<le> d * d"
  proof (cases "0 < d")
    case True
    then show ?thesis using r by (auto intro: mult_right_mono)
  next
    case False
    then have "r * d \<le> 0" using r by auto
    then show ?thesis using zero_le_square [of d] by linarith
  qed
  then have "x * y \<le> h * (h + r)" by (simp add: x algebra_simps)
  also have "\<dots> \<le> h * (h + 1)" using r assms by (intro mult_left_mono) (auto simp: h_def)
  finally show ?thesis by (simp add: h_def)
qed

lemma cancel_pays_half:
  assumes "market_exec env CallCancel t = Inr u" "inst_market t = Some m" "\<forall>p a. 0 \<le> market_balance_of t p a"
    and "0 \<le> pool_yes m" "0 \<le> pool_no m"
  shows "\<exists>m'. inst_market u = Some m' \<and> treasury m' = treasury m
    \<and> (pool_yes m + pool_no m) div 2 \<le> market_payout m' (market_balance_of u) (treasury m)"
proof -
  have "\<exists>r. market_cancel env t = Inr (r, u)" using assms(1) by (simp add: discard_eq_Inr)
  then obtain r where r: "market_cancel env t = Inr (r, u)" ..
  have nn: "0 \<le> market_balance_of t Yes (treasury m)" "0 \<le> market_balance_of t No (treasury m)"
    using assms(3) by simp_all
  show ?thesis
    using r
  proof (rule market_cancel_effect)
    fix k
    assume k: "inst_market t = Some k" "inst_market u = Some (k\<lparr>pool_yes := 0, pool_no := 0, status := Cancelled\<rparr>)"
      "market_balance_of u = add_shares (add_shares (market_balance_of t) Yes (treasury k) (pool_yes k)) No (treasury k) (pool_no k)"
    then show ?thesis using assms(2,4,5) nn
      by (auto simp: market_payout_def add_shares_apply sdiv_nonneg intro!: zdiv_mono1)
  qed
qed

section \<open>The bound\<close>

text \<open>C30: Traders can take little from whoever funded a market.  From any reachable state of it on, \<open>k\<close> buys
  and sells, by anyone, of any sizes, at any fees, with minimums of the buys that are not negative, with anything else between them, leave the product of
  the two pools at least at its old value less \<open>k\<close> times the largest supply they lead to; in particular
  half of the two pools, which is what a cancellation pays the treasury for them at least, stays at
  the square root of that, up to one unit.\<close>

theorem market_seed_loss_bounded:
  assumes "(market_step chain)\<^sup>*\<^sup>* s0 s" "market_fresh s0" "inst_market s = Some m"
    and "trades_within chain cap s k t" "inst_market t = Some m'" "status m' = Open"
  defines "half \<equiv> (pool_yes m' + pool_no m') div 2"
  shows "pool_product m - int k * cap \<le> pool_product m'
    \<and> pool_product m - int k * cap \<le> half * (half + 1)
    \<and> (\<forall>env u. market_exec env CallCancel t = Inr u \<longrightarrow>
        (\<exists>m''. inst_market u = Some m'' \<and> half \<le> market_payout m'' (market_balance_of u) (treasury m'')))"
proof -
  have reach: "(market_step chain)\<^sup>*\<^sup>* s0 t" using assms(1) trades_within_steps [OF assms(4)] by simp
  note b = reach_open_bounds [OF reach assms(2,5,6)]
  have left: "pool_product m - int k * cap \<le> pool_product m'"
    using trades_loss [OF assms(4,1,2,3)] assms(5,6) by auto
  moreover have "pool_product m' \<le> half * (half + 1)"
    unfolding half_def pool_product_def using b(3,5) by (intro half_product) simp_all
  moreover have "\<exists>m''. inst_market u = Some m'' \<and> half \<le> market_payout m'' (market_balance_of u) (treasury m'')"
    if "market_exec env CallCancel t = Inr u" for env u
    using cancel_pays_half [OF that assms(5)] b(1,3,5) unfolding half_def by fastforce
  ultimately show ?thesis by auto
qed

lemma market_seed_loss_bounded_witness:
  "\<exists>(t :: ledger market_state) m'. inst_market t = Some m' \<and> total_supply m' = 11000
    \<and> 10000 * 10000 - 11000 \<le> pool_yes m' * pool_no m'"
proof -
  obtain t :: "ledger market_state" where t: "market_buy (sample_env 1000000 0) 12 Yes 1000 900 sample_open = Inr (1901, t)"
    using sample_buy by blast
  have m: "inst_market sample_open = Some sample_market" by (simp add: sample_open_def)
  obtain m' where m': "inst_market t = Some m'" "status m' = Open" "total_supply m' = 11000"
    using t m by (auto elim!: market_buy_effect simp: sample_market_def)
  have run: "trades_within (sample_env 0 0) 11000 sample_open 1 t"
    using trades_within.trade [OF trades_within.start sample_hosted, of "CallBuy 12 Yes 1000 900" 1000000 0 sample_open t] t m'
    by (simp add: discard_eq_Inr supply_within_def)
  from market_seed_loss_bounded [OF sample_reach sample_fresh_ok m run m'(1,2)] m'(1,3)
  show ?thesis by (auto simp: pool_product_def sample_market_def)
qed

end
