(* ===== verification/Shared_Runs.thy ===== *)
theory Shared_Runs
  imports Shared_Trading Market_Drain Market_Seed
begin

text \<open>
  Runs of a perpetual as runs of a market.  Every step of a perpetual, its initialisation, checkpoints
  and wind-down included, is a step of the market it stands for in a suitable environment: the time
  before the expiry for trades, after the grace period for the wind-down, and oracles that answer for
  the initialisation.  What holds of every reachable market therefore holds of every perpetual, and
  what can be done to a market can be done to a perpetual.
\<close>

section \<open>The market a perpetual runs as\<close>

text \<open>A record that \<open>initialize\<close> could have stored, whose deadline fits 64 bits.\<close>

definition template_ok :: "Market \<Rightarrow> bool" where
  "template_ok k \<longleftrightarrow> 0 < Market.strike_price k \<and> Market.expiry k \<noteq> 0 \<and> Market.grace_period k \<noteq> 0
     \<and> Market.feed_id k \<noteq> 0 \<and> Market.final_price k = 0
     \<and> 2 \<le> Market.reflector_decimals_at_init k \<and> Market.reflector_decimals_at_init k \<le> 30
     \<and> unat (Market.expiry k) + unat (Market.grace_period k) < 2 ^ 64"

lemma sample_template: "template_ok sample_market"
  by (simp add: template_ok_def sample_market_def)

text \<open>The same transaction at another time, with oracles that answer as the record says.\<close>

definition staged :: "Market \<Rightarrow> u64 \<Rightarrow> 'tok Env \<Rightarrow> 'tok Env" where
  "staged k now env = env\<lparr>ledger_timestamp := now, sep40_resolution := (\<lambda>_. Some 0),
     sep40_decimals := (\<lambda>_. Some (Market.reflector_decimals_at_init k))\<rparr>"

lemma staged_fields [simp]:
  "ledger_timestamp (staged k now env) = now"
  "current_contract_address (staged k now env) = current_contract_address env"
  "authorized (staged k now env) = authorized env" "token_transfer (staged k now env) = token_transfer env"
  "require_auth (staged k now env) = require_auth env" "perp_pay (staged k now env) = perp_pay env"
  "sep40_resolution (staged k now env) = (\<lambda>_. Some 0)"
  "sep40_decimals (staged k now env) = (\<lambda>_. Some (Market.reflector_decimals_at_init k))"
  by (simp_all add: staged_def fun_eq_iff require_auth_def perp_pay_def)

lemma staged_hosted: "hosted chain env \<Longrightarrow> hosted chain (staged k now env)"
  by (auto simp: hosted_def staged_def sep41_at_def)

text \<open>Neither a shared call nor the wind-down of a perpetual looks at the time or at an oracle.\<close>

lemma shared_call_staged:
  "shared_call c = Some d \<Longrightarrow> perp_exec (staged k now env) c st = perp_exec env c st"
  "perp_exec (staged k now env) (CallTerminate adm) st = perp_exec env (CallTerminate adm) st"
  by (cases c; simp add: perp_split_def perp_merge_def perp_buy_def perp_sell_def perp_transfer_def
      perp_redeem_def cong: if_cong) (simp add: perp_terminate_def cong: if_cong)

lemma shared_call_careful: "shared_call c = Some d \<Longrightarrow> careful d = perp_careful c"
  by (cases c) auto

lemma perp_initialize_as_market:
  assumes "perp_initialize env adm coll base_fee min_fee treas liq feeds st = Inr (r, st')" "template_ok k"
  shows "market_initialize (staged k 0 env) adm coll (Market.strike_price k) (Market.expiry k)
      (Market.grace_period k) (Market.lazer_contract k) (Market.feed_id k) base_fee min_fee treas liq
      (Market.reflector k) None (as_market k st) = Inr ((), as_market k st')"
proof -
  define rec where "rec = \<lparr>Perpetual.admin = adm, Perpetual.collateral = coll, Perpetual.base_fee_bps = base_fee,
    Perpetual.min_fee_bps = min_fee, Perpetual.treasury = treas, Perpetual.status = PerpetualStatus.Open,
    Perpetual.pool_yes = liq, Perpetual.pool_no = liq, Perpetual.total_supply = liq,
    Perpetual.initial_liquidity = liq, Perpetual.last_price_cents = 0, Perpetual.last_price_at = 0\<rparr>"
  have "\<exists>t x. authorized env adm \<and> perp_store.inst_market st = None
    \<and> base_fee \<le> 1000 \<and> min_fee \<le> base_fee \<and> 0 < liq
    \<and> token_transfer env coll adm (current_contract_address env) liq (perp_state.tokens st) = Some t
    \<and> st' = perp_publish (perp_event.InitEvent liq)
        (perp_save_market rec (st\<lparr>inst_price_oracle := x, perp_state.tokens := t\<rparr>))"
  proof (cases feeds)
    case None
    then show ?thesis
      using assms(1) unfolding perp_initialize_def rec_def
      by (auto simp: res_simps Let_def PERP_MAX_FEE_BPS_def not_le not_less split: if_splits)
        (rule exI [of _ "perp_store.inst_price_oracle st"], simp)
  next
    case (Some p)
    then show ?thesis
      using assms(1) unfolding perp_initialize_def rec_def
      by (auto simp: res_simps Let_def PERP_MAX_FEE_BPS_def not_le not_less split: if_splits)
  qed
  then obtain t x where *: "authorized env adm" "perp_store.inst_market st = None"
    "base_fee \<le> 1000" "min_fee \<le> base_fee" "0 < liq"
    "token_transfer env coll adm (current_contract_address env) liq (perp_state.tokens st) = Some t"
    "st' = perp_publish (perp_event.InitEvent liq)
        (perp_save_market rec (st\<lparr>inst_price_oracle := x, perp_state.tokens := t\<rparr>))"
    by blast
  have guards: "\<not> 1000 < base_fee" "\<not> base_fee < min_fee" using *(3,4) by (simp_all add: not_less)
  show ?thesis
    using * guards assms(2)
    by (simp add: market_initialize_def require_auth_def template_ok_def MAX_FEE_BPS_def market_pay_def Let_def)
      (simp add: rec_def as_market_def as_market_record_def save_market_def market_touch_def market_publish_def
        perp_save_market_def perp_touch_def perp_publish_def BUMP_TO_def BUMP_THRESHOLD_def
        PERP_BUMP_TO_def PERP_BUMP_THRESHOLD_def)
qed

section \<open>Steps and runs\<close>

lemma as_market_elsewhere: "as_market k (st\<lparr>perp_state.tokens := tk\<rparr>) = as_market k st\<lparr>market_state.tokens := tk\<rparr>"
  by (simp add: as_market_def)

lemma as_market_ageing:
  "as_market k (st\<lparr>perp_store.inst_ttl := n, perp_store.balance_ttl := f\<rparr>)
    = as_market k st\<lparr>market_store.inst_ttl := n, market_store.balance_ttl := f\<rparr>"
  by (simp add: as_market_def)

lemma as_market_fresh: "perp_fresh s \<Longrightarrow> market_fresh (as_market k s)"
  by (simp add: perp_fresh_def market_fresh_def)

text \<open>A shared call is the market's call at a time before the expiry.\<close>

lemma shared_as_market_exec:
  assumes "template_ok k" "shared_call c = Some d" "perp_exec env c s = Inr t"
  shows "market_exec (staged k 0 env) d (as_market k s) = Inr (as_market k t)"
proof -
  have "0 < Market.expiry k" using assms(1) by (simp add: template_ok_def word_neq_0_conv)
  then have "agree (same_state k) (Inr t) (market_exec (staged k 0 env) d (as_market k s))"
    using trades_as_market [OF assms(2), of "staged k 0 env" k s] assms(3)
    by (simp add: shared_call_staged(1) [OF assms(2)])
  then show ?thesis by (simp only: agree_Inr)
qed

text \<open>A wind-down is the market's cancellation when its grace period has passed.\<close>

lemma terminate_as_market_exec:
  assumes "template_ok k" "perp_exec env (CallTerminate adm) s = Inr t"
  shows "market_exec (staged k (Market.expiry k + Market.grace_period k) env) CallCancel (as_market k s)
    = Inr (as_market k t)"
proof -
  let ?e = "staged k (Market.expiry k + Market.grace_period k) env"
  have deadline: "unat (Market.expiry k) + unat (Market.grace_period k)
      \<le> unat (Market.expiry k + Market.grace_period k)"
    using assms(1) unat_word_add [of "Market.expiry k" "Market.grace_period k"] by (simp add: template_ok_def)
  obtain r where r: "perp_terminate env adm s = Inr (r, t)" using assms(2) by (auto simp: discard_eq_Inr)
  then obtain m where m: "perp_store.inst_market s = Some m" "adm = Perpetual.admin m" "authorized env adm"
    by (auto simp: perp_terminate_def res_simps)
  have "agree (same_state k) (perp_exec ?e (CallTerminate (Perpetual.admin m)) s)
      (market_exec ?e CallCancel (as_market k s))"
    by (rule terminate_as_cancel [OF m(1)]) (use m(2,3) deadline in simp_all)
  then have "agree (same_state k) (Inr t) (market_exec ?e CallCancel (as_market k s))"
    using assms(2) m(2) by (simp only: shared_call_staged(2))
  then show ?thesis by (simp only: agree_Inr)
qed

text \<open>The calls of a perpetual alone are calls of the market that do not trade, or, for a checkpoint, only
  lengthen a lifetime.\<close>

lemma own_call_cases:
  assumes "shared_call c = None"
  obtains (init) adm coll base_fee min_fee treas liq feeds
      where "c = perp_call.CallInitialize adm coll base_fee min_fee treas liq feeds"
    | (checkpoint) payload where "c = CallCheckpoint payload"
    | (terminate) adm where "c = CallTerminate adm"
  using assms by (cases c) auto

lemma own_call_as_market:
  assumes "template_ok k" "hosted chain env" "shared_call c = None" "perp_exec env c s = Inr t"
  shows "(\<exists>e d. hosted chain e \<and> careful d \<and> \<not> is_trade d \<and> market_exec e d (as_market k s) = Inr (as_market k t))
    \<or> as_market k t = market_touch (as_market k s)"
proof -
  note host = staged_hosted [OF assms(2), of k]
  from assms(3) show ?thesis
  proof (cases rule: own_call_cases)
    case (init adm coll base_fee min_fee treas liq feeds)
    then have "\<exists>r. perp_initialize env adm coll base_fee min_fee treas liq feeds s = Inr (r, t)"
      using assms(4) by (simp add: discard_eq_Inr)
    then obtain r where "perp_initialize env adm coll base_fee min_fee treas liq feeds s = Inr (r, t)" ..
    from perp_initialize_as_market [OF this assms(1)] show ?thesis
      using host [of 0]
      by (intro disjI1 exI [of _ "staged k 0 env"] exI [of _ "market_call.CallInitialize adm coll (Market.strike_price k)
          (Market.expiry k) (Market.grace_period k) (Market.lazer_contract k) (Market.feed_id k) base_fee min_fee treas
          liq (Market.reflector k) None"]) (simp add: discard_eq_Inr)
  next
    case checkpoint
    then show ?thesis using assms(4) checkpoint_as_touch by blast
  next
    case (terminate adm)
    then have "market_exec (staged k (Market.expiry k + Market.grace_period k) env) CallCancel (as_market k s)
        = Inr (as_market k t)"
      using assms(4) terminate_as_market_exec [OF assms(1)] by blast
    then show ?thesis using host careful.simps is_trade.simps by blast
  qed
qed

text \<open>A longer lifetime is among the ageing steps.\<close>

lemma touch_as_ageing: "market_touch s = s\<lparr>market_store.inst_ttl := extend_ttl BUMP_THRESHOLD BUMP_TO
    (market_store.inst_ttl s), market_store.balance_ttl := market_store.balance_ttl s\<rparr>"
  by (simp add: market_touch_def)

lemma touch_step: "market_step chain s (market_touch s)"
  unfolding touch_as_ageing by (rule market_step.ageing)

lemma call_as_market_step:
  assumes "template_ok k" "hosted chain env" "perp_careful c" "perp_exec env c s = Inr t"
  shows "market_step chain (as_market k s) (as_market k t)"
proof (cases "shared_call c")
  case (Some d)
  then show ?thesis
    using market_step.called [OF staged_hosted [OF assms(2)] _ shared_as_market_exec [OF assms(1) Some assms(4)]]
      shared_call_careful [OF Some] assms(3) by simp
next
  case None
  show ?thesis
    using own_call_as_market [OF assms(1,2) None assms(4)]
    by (auto intro: market_step.called touch_step)
qed

lemma step_as_market_step:
  assumes "template_ok k" "perp_step chain s t"
  shows "market_step chain (as_market k s) (as_market k t)"
  using assms(2)
proof cases
  case (called env c)
  then show ?thesis by (rule call_as_market_step [OF assms(1)])
next
  case (elsewhere tk)
  then show ?thesis unfolding elsewhere(1) as_market_elsewhere by (intro market_step.elsewhere) simp
next
  case (ageing n f)
  show ?thesis unfolding ageing as_market_ageing by (rule market_step.ageing)
qed

lemma run_as_market_run:
  assumes "template_ok k" "(perp_step chain)\<^sup>*\<^sup>* s t"
  shows "(market_step chain)\<^sup>*\<^sup>* (as_market k s) (as_market k t)"
  using assms(2)
  by (induction rule: rtranclp_induct)
    (auto intro: rtranclp.rtrancl_into_rtrancl step_as_market_step [OF assms(1)])

text \<open>C22: A perpetual refines a market.  For every record \<open>k\<close> that \<open>initialize\<close> could have stored and whose
  deadline fits 64 bits, each run of a perpetual, of any length, by any callers whose buys have a minimum that is
  not negative, initialisation, checkpoints and wind-down included, is such a run of the market it stands for, and a perpetual that is not
  initialised yet stands for a market that is not.\<close>

theorem perp_runs_as_market:
  assumes "template_ok k" "(perp_step chain)\<^sup>*\<^sup>* s t" "perp_fresh s"
  shows "(market_step chain)\<^sup>*\<^sup>* (as_market k s) (as_market k t) \<and> market_fresh (as_market k s)"
  using run_as_market_run [OF assms(1,2)] as_market_fresh [OF assms(3)] by simp

lemma perp_runs_as_market_witness:
  "(market_step (sample_env 0 0))\<^sup>*\<^sup>* (as_market sample_market sample_perp_fresh)
      (as_market sample_market sample_perp_traded)
    \<and> market_fresh (as_market sample_market sample_perp_fresh)"
  by (rule perp_runs_as_market [OF sample_template sample_perp_reach_traded sample_perp_fresh_ok])

end
