(* ===== verification/Perpetual_Errors.thy ===== *)
theory Perpetual_Errors
  imports Market_Errors Shared_Runs
begin

text \<open>
  The typed errors of a perpetual.  Those of the calls it shares with the market are the market's, by
  the agreement of theory \<open>Shared_Trading\<close>; initialisation, checkpoint and wind-down have their own.
\<close>

section \<open>Causes\<close>









section \<open>The shared calls\<close>






section \<open>The calls of a perpetual alone\<close>

lemma perp_load_Err [err_simps]:
  "perp_load_market s = Inl (Err e) \<longleftrightarrow> perp_store.inst_market s = None \<and> e = perp_error.NotInitialized"
  by (auto simp: perp_load_market_def err_simps)

lemma perp_small_no_error [err_simps]:
  "perp_pay env c from to n s \<noteq> Inl (Err e)" "perp_credit p a v s \<noteq> Inl (Err e)"
  by (simp_all add: perp_pay_def perp_credit_def err_simps)







end
