(* ===== verification/Market_Outcome.thy ===== *)
theory Market_Outcome
  imports Market_Settlement
begin

text \<open>
  The two sides of a settlement.  It cannot decide a market against what one of its oracle legs reads
  beyond that leg's tolerance; and it goes through whenever the verified update is good and every leg
  corroborates it.
\<close>

section \<open>The oracle legs of a market\<close>

text \<open>Every configured leg, with its pinned precision: the Reflector feed always, the RedStone feed
  when the market was initialised with one.\<close>

definition market_legs :: "Market \<Rightarrow> 'tok market_state \<Rightarrow> (OracleFeedConfig \<times> u32) list" where
  "market_legs m s = (reflector m, reflector_decimals_at_init m) #
     (case inst_redstone s of None \<Rightarrow> [] | Some rs \<Rightarrow> [(config rs, decimals_at_init rs)])"

text \<open>What a leg reads, in cents.\<close>

definition leg_reads :: "'tok Env \<Rightarrow> OracleFeedConfig \<times> u32 \<Rightarrow> int \<Rightarrow> bool" where
  "leg_reads env leg cents \<longleftrightarrow> (\<exists>pr. sep40_lastprice env (contract (fst leg)) (asset (fst leg)) = Some (Some pr)
     \<and> reflector_price_to_cents (price pr) (snd leg) = (Inr cents :: (unit, int) res))"

lemma corroborates_read:
  assumes "corroborates env cfg decimals now ref" "leg_reads env (cfg, decimals) c" "0 < c"
  shows "\<bar>ref - c\<bar> * 10000 < (uint (tolerance_bps cfg) + 1) * c"
  using assms by (auto simp: corroborates_def leg_reads_def)

lemma corroborate_iff_legs:
  "(corroborates env (reflector m) (reflector_decimals_at_init m) now cents
    \<and> (case inst_redstone s of None \<Rightarrow> True
       | Some rs \<Rightarrow> corroborates env (config rs) (decimals_at_init rs) now cents))
    \<longleftrightarrow> (\<forall>(cfg, decimals) \<in> set (market_legs m s). corroborates env cfg decimals now cents)"
  by (auto simp: market_legs_def split: option.splits)

section \<open>The outcome follows every leg\<close>

text \<open>The strike as a bound on the reference, in the arithmetic of the tolerance.\<close>

lemma tolerance_decides:
  fixes ref c t strike :: int
  assumes "\<bar>ref - c\<bar> * 10000 < (t + 1) * c"
  shows "strike * 10000 \<le> (9999 - t) * c \<Longrightarrow> strike \<le> ref"
    and "(10001 + t) * c \<le> strike * 10000 \<Longrightarrow> ref < strike"
proof -
  have "(ref - c) * 10000 < (t + 1) * c" "(c - ref) * 10000 < (t + 1) * c"
    using assms by (auto simp: abs_if split: if_splits)
  then show "strike * 10000 \<le> (9999 - t) * c \<Longrightarrow> strike \<le> ref"
    "(10001 + t) * c \<le> strike * 10000 \<Longrightarrow> ref < strike"
    by (simp_all add: algebra_simps)
qed

text \<open>C5: No settlement goes against an oracle leg.  Whatever update is submitted and whatever the
  verifier accepts, the settled price lies within the tolerance of what each configured leg reads; so a
  market cannot resolve to NO when some leg reads a price that exceeds the strike by more than the
  tolerance (one basis point of slack from rounding included), nor to YES when some leg reads one that
  much below it.\<close>

theorem market_outcome_follows_oracles:
  assumes "market_settle env payload s = Inr (r, t)" "inst_market s = Some m"
    and "leg \<in> set (market_legs m s)" "leg_reads env leg c" "0 < c"
  defines "tol \<equiv> uint (tolerance_bps (fst leg))"
  shows "\<exists>m'. inst_market t = Some m'
    \<and> \<bar>final_price m' - c\<bar> * 10000 < (tol + 1) * c
    \<and> (strike_price m * 10000 \<le> (9999 - tol) * c \<longrightarrow> status m' = ResolvedYes)
    \<and> ((10001 + tol) * c \<le> strike_price m * 10000 \<longrightarrow> status m' = ResolvedNo)"
proof -
  obtain cfg decimals where leg: "leg = (cfg, decimals)" by (cases leg)
  from assms(1) obtain cents where c: "market_corroborate env m (ledger_timestamp env) cents s = Inr ()"
    "inst_market t = Some (m\<lparr>final_price := cents, status := if strike_price m \<le> cents then ResolvedYes else ResolvedNo,
       pool_yes := 0, pool_no := 0\<rparr>)"
    by (rule market_settle_effect) (use assms(2) in simp)
  have "corroborates env cfg decimals (ledger_timestamp env) cents"
    using market_corroborate_sound [OF c(1)] corroborate_iff_legs [of env m "ledger_timestamp env" cents s] assms(3) leg
    by (auto split: option.splits)
  from corroborates_read [OF this, of c] have near: "\<bar>cents - c\<bar> * 10000 < (tol + 1) * c"
    using assms(4,5) leg by (simp add: tol_def)
  show ?thesis
    using c(2) near tolerance_decides [OF near, of "strike_price m"] by auto
qed

lemma sample_settle_run:
  "\<exists>r. market_settle (sample_env 1086400 150000000000000000) [] sample_traded
    = Inr (r, sample_finished ResolvedYes 150000 (SettleEvent ResolvedYes 150000))"
  using sample_settle by (simp add: discard_eq_Inr)

lemma sample_reads: "leg_reads (sample_env 1086400 150000000000000000) (sample_feed, 14) 150000"
  by (simp add: leg_reads_def sample_env_def sample_feed_def reflector_price_to_cents_def i128_pow10_def i128_eval)

lemma market_outcome_follows_oracles_witness:
  "\<exists>m'. inst_market (sample_finished ResolvedYes 150000 (SettleEvent ResolvedYes 150000)) = Some m'
    \<and> \<bar>final_price m' - 150000\<bar> * 10000 < (uint (tolerance_bps sample_feed) + 1) * 150000"
proof -
  obtain r where r: "market_settle (sample_env 1086400 150000000000000000) [] sample_traded
      = Inr (r, sample_finished ResolvedYes 150000 (SettleEvent ResolvedYes 150000))"
    using sample_settle_run by blast
  have m: "inst_market sample_traded = Some (sample_market\<lparr>total_supply := 10300\<rparr>)"
    by (simp add: sample_traded_def)
  have leg: "(sample_feed, 14) \<in> set (market_legs (sample_market\<lparr>total_supply := 10300\<rparr>) sample_traded)"
    by (simp add: market_legs_def sample_market_def)
  from market_outcome_follows_oracles [OF r m leg sample_reads] show ?thesis by auto
qed

section \<open>A good update settles\<close>

text \<open>The update a payload carries: verified, of the market's feed, positive, stamped within 300 seconds
  of the expiry, and worth \<open>cents\<close>.\<close>

definition update_prices :: "'tok Env \<Rightarrow> Market \<Rightarrow> byte list \<Rightarrow> int \<Rightarrow> bool" where
  "update_prices env m payload cents \<longleftrightarrow> (\<exists>upd feed p e.
     lazer_verify_update env (lazer_contract m) payload = Inr upd
   \<and> find (\<lambda>f. lf_feed_id f = feed_id m) (lu_feeds upd) = Some feed
   \<and> lf_price feed = Some p \<and> 0 < sint p \<and> lf_exponent feed = Some e
   \<and> unat (expiry m) \<le> feed_second upd feed + 300 \<and> feed_second upd feed \<le> unat (expiry m) + 300
   \<and> to_cents p e = (Inr cents :: (market_error, int) res))"

lemma settle_price_iff:
  assumes "unat (expiry m) + 300 < 2 ^ 64"
  shows "market_settle_price env m payload = Inr cents \<longleftrightarrow> update_prices env m payload cents"
proof
  assume "market_settle_price env m payload = Inr cents"
  then show "update_prices env m payload cents"
    unfolding update_prices_def by (rule market_settle_price_effect) blast
next
  assume "update_prices env m payload cents"
  then obtain upd feed p e where u: "lazer_verify_update env (lazer_contract m) payload = Inr upd"
    "find (\<lambda>f. lf_feed_id f = feed_id m) (lu_feeds upd) = Some feed"
    "lf_price feed = Some p" "0 < sint p" "lf_exponent feed = Some e"
    "unat (expiry m) \<le> feed_second upd feed + 300" "feed_second upd feed \<le> unat (expiry m) + 300"
    "to_cents p e = (Inr cents :: (market_error, int) res)"
    unfolding update_prices_def by blast
  define ts where "ts = (case lf_feed_update_timestamp feed of None \<Rightarrow> lu_timestamp upd | Some ts \<Rightarrow> ts)
          div 1000000"
  have fs: "feed_second upd feed = unat ts"
    by (simp add: feed_second_def ts_def unat_div split: option.splits)
  have "feed_second upd feed < 2 ^ 64 div 1000000 + 1"
  proof -
    define w where "w = (case lf_feed_update_timestamp feed of None \<Rightarrow> lu_timestamp upd | Some ts \<Rightarrow> ts)"
    have "unat w < 2 ^ LENGTH(64)" by (rule unsigned_less)
    then show ?thesis unfolding feed_second_def w_def [symmetric] by simp
  qed
  then have small: "unat ts + 300 < 2 ^ 64" using fs by simp
  have w: "unat PRICE_FRESHNESS_WINDOW_SECS = 300" by (simp add: PRICE_FRESHNESS_WINDOW_SECS_def)
  have "\<not> ts + PRICE_FRESHNESS_WINDOW_SECS < expiry m" "\<not> expiry m + PRICE_FRESHNESS_WINDOW_SECS < ts"
    using u(6,7) fs small assms unat_word_add [of ts PRICE_FRESHNESS_WINDOW_SECS]
      unat_word_add [of "expiry m" PRICE_FRESHNESS_WINDOW_SECS] by (simp_all add: word_less_nat_alt w)
  then show "market_settle_price env m payload = Inr cents"
    using u small assms by (simp add: market_settle_price_def word_add_def w Let_def flip: ts_def)
qed

lemma corroborate_iff:
  assumes "\<bar>cents\<bar> \<le> 10 ^ 30"
    and "\<forall>(cfg, decimals) \<in> set (market_legs m s). \<forall>pr. sep40_lastprice env (contract cfg) (asset cfg) = Some (Some pr) \<longrightarrow>
      \<bar>price pr\<bar> \<le> 10 ^ 30 \<and> unat (timestamp pr) + unat (max_staleness_secs cfg) < 2 ^ 64"
  shows "market_corroborate env m now cents s = Inr ()
    \<longleftrightarrow> (\<forall>(cfg, decimals) \<in> set (market_legs m s). corroborates env cfg decimals now cents)"
proof
  assume "market_corroborate env m now cents s = Inr ()"
  from market_corroborate_sound [OF this] show "\<forall>(cfg, decimals) \<in> set (market_legs m s).
      corroborates env cfg decimals now cents"
    by (subst corroborate_iff_legs [symmetric]) (auto split: option.splits)
next
  assume ok: "\<forall>(cfg, decimals) \<in> set (market_legs m s). corroborates env cfg decimals now cents"
  have "verify_oracle_corroboration env cfg decimals now cents = Inr ()"
    if leg: "(cfg, decimals) \<in> set (market_legs m s)" for cfg decimals
  proof -
    have c: "corroborates env cfg decimals now cents" using ok leg by auto
    then obtain pr where pr: "sep40_lastprice env (contract cfg) (asset cfg) = Some (Some pr)"
      by (auto simp: corroborates_def)
    have "\<bar>price pr\<bar> \<le> 10 ^ 30" "unat (timestamp pr) + unat (max_staleness_secs cfg) < 2 ^ 64"
      using assms(2) leg pr by auto
    then show ?thesis by (rule passes_when_corroborated [OF c assms(1) pr])
  qed
  then show "market_corroborate env m now cents s = Inr ()"
    by (auto simp: market_corroborate_def market_legs_def load_redstone_oracle_def split: option.split)
qed

text \<open>C6: A settlement goes through exactly when it should.  In a reachable market, at realistic sizes (prices
  of at most \<open>10 ^ 30\<close>, times below \<open>2 ^ 64\<close>, a supply within \<open>i128\<close>), a call of \<open>settle\<close> succeeds if and only if
  the market is open and expired, the payload verifies and carries a positive price of the market's feed
  stamped within 300 seconds of the expiry, and every configured oracle leg corroborates that price; nobody's
  signature is needed.\<close>

theorem market_settles_iff:
  assumes "(market_step chain)\<^sup>*\<^sup>* s0 s" "market_fresh s0" "inst_market s = Some m"
    and "total_supply m \<le> i128_max" "unat (expiry m) + 300 < 2 ^ 64"
    and "\<forall>cents. update_prices env m payload cents \<longrightarrow> \<bar>cents\<bar> \<le> 10 ^ 30"
    and "\<forall>(cfg, decimals) \<in> set (market_legs m s). \<forall>pr. sep40_lastprice env (contract cfg) (asset cfg) = Some (Some pr) \<longrightarrow>
      \<bar>price pr\<bar> \<le> 10 ^ 30 \<and> unat (timestamp pr) + unat (max_staleness_secs cfg) < 2 ^ 64"
  shows "(\<exists>t. market_settle env payload s = Inr ((), t)) \<longleftrightarrow>
    status m = Open \<and> expiry m \<le> ledger_timestamp env
    \<and> (\<exists>cents. update_prices env m payload cents
        \<and> (\<forall>(cfg, decimals) \<in> set (market_legs m s). corroborates env cfg decimals (ledger_timestamp env) cents))"
    (is "?settles \<longleftrightarrow> ?open \<and> ?expired \<and> (\<exists>cents. ?prices cents \<and> ?corroborated cents)")
proof
  assume ?settles
  then obtain t where t: "market_settle env payload s = Inr ((), t)" ..
  then show "?open \<and> ?expired \<and> (\<exists>cents. ?prices cents \<and> ?corroborated cents)"
  proof (rule market_settle_effect)
    fix k cents
    assume k: "inst_market s = Some k" "status k = Open" "expiry k \<le> ledger_timestamp env"
      "market_settle_price env k payload = Inr cents"
      "market_corroborate env k (ledger_timestamp env) cents s = Inr ()"
    have m: "k = m" using k(1) assms(3) by simp
    have prices: "?prices cents" using k(4) unfolding m settle_price_iff [OF assms(5)] .
    then have "?corroborated cents"
      using k(5) corroborate_iff [OF _ assms(7), of cents] assms(6) unfolding m by simp
    then show ?thesis using prices k(2,3) m by blast
  qed
next
  assume R: "?open \<and> ?expired \<and> (\<exists>cents. ?prices cents \<and> ?corroborated cents)"
  then obtain cents where c: "?prices cents" "?corroborated cents" by blast
  have price: "market_settle_price env m payload = Inr cents" using c(1) settle_price_iff [OF assms(5)] by blast
  have legs: "market_corroborate env m (ledger_timestamp env) cents s = Inr ()"
    using c corroborate_iff [OF _ assms(7), of cents] assms(6) by simp
  from R have op: "status m = Open" and ex: "\<not> ledger_timestamp env < expiry m" by (simp_all add: not_less)
  obtain s1 s2 where "market_credit Yes (treasury m) (pool_yes m) s = Inr s1"
    "market_credit No (treasury m) (pool_no m) s1 = Inr s2"
    by (rule treasury_credits [OF assms(1-3) op assms(4)])
  then show ?settles
    using op ex assms(3) price legs by (simp add: market_settle_def load_market_def Let_def)
qed

lemma market_settles_iff_witness:
  "\<exists>t. market_settle (sample_env 1086400 150000000000000000) [] sample_traded = Inr ((), t)"
proof -
  let ?e = "sample_env 1086400 150000000000000000" and ?m = "sample_market\<lparr>total_supply := 10300\<rparr>"
  have m: "inst_market sample_traded = Some ?m" by (simp add: sample_traded_def)
  have cents: "to_cents 150000000000 (- 8) = (Inr 150000 :: (market_error, int) res)"
    by (simp add: to_cents_def i128_eval Let_def)
  have prices: "update_prices ?e ?m [] c \<longleftrightarrow> c = 150000" for c
    by (auto simp: update_prices_def sample_env_def sample_market_def feed_second_def cents)
  have legs: "market_legs ?m sample_traded = [(sample_feed, 14)]"
    by (simp add: market_legs_def sample_market_def sample_traded_def)
  have "corroborates ?e sample_feed 14 1086400 150000"
    unfolding corroborates_def using sample_reads
    by (intro exI [of _ "\<lparr>price = 150000000000000000, timestamp = 1086400\<rparr>"] exI [of _ 150000])
      (auto simp: leg_reads_def sample_env_def sample_feed_def)
  moreover have "status sample_market = Open" "expiry sample_market = 1086400"
    by (simp_all add: sample_market_def)
  moreover have "sep40_lastprice ?e (contract sample_feed) (asset sample_feed)
      = Some (Some \<lparr>price = 150000000000000000, timestamp = 1086400\<rparr>)" "max_staleness_secs sample_feed = 600"
    by (simp_all add: sample_env_def sample_feed_def)
  ultimately show ?thesis
    by (subst market_settles_iff [OF sample_reach_traded sample_fresh_ok m])
      (simp_all add: prices legs i128_max_def sample_env_fields)
qed

end
