(* ===== verification/Perpetual_Checkpoint.thy ===== *)
theory Perpetual_Checkpoint
  imports Perpetual_Errors Market_Outcome
begin

text \<open>
  When a price checkpoint goes through: the counterpart for the perpetual of the settlement theorem of
  theory \<open>Market_Outcome\<close>, whose reading of an update it uses at an expiry of now.
\<close>

text \<open>The update a payload carries: verified, of the configured feed, positive, stamped within 300 seconds
  of the call, and worth \<open>cents\<close>.\<close>

definition checkpoint_prices :: "'tok Env \<Rightarrow> PriceOracleConfig \<Rightarrow> u64 \<Rightarrow> byte list \<Rightarrow> int \<Rightarrow> bool" where
  "checkpoint_prices env orc now payload cents \<longleftrightarrow> (\<exists>upd feed p e.
     lazer_verify_update env (PriceOracleConfig.lazer_contract orc) payload = Inr upd
   \<and> find (\<lambda>f. lf_feed_id f = PriceOracleConfig.feed_id orc) (lu_feeds upd) = Some feed
   \<and> lf_price feed = Some p \<and> 0 < sint p \<and> lf_exponent feed = Some e
   \<and> unat now \<le> checkpoint_second upd feed + 300 \<and> checkpoint_second upd feed \<le> unat now + 300
   \<and> to_cents p e = (Inr cents :: (perp_error, int) res))"

definition perp_legs :: "PriceOracleConfig \<Rightarrow> (OracleFeedConfig \<times> u32) list" where
  "perp_legs orc =
    [(PriceOracleConfig.reflector orc, PriceOracleConfig.reflector_decimals_at_init orc),
     (PriceOracleConfig.redstone orc, PriceOracleConfig.redstone_decimals_at_init orc)]"

lemma to_cents_error_free:
  "to_cents p e = (Inr c :: ('e, int) res) \<longleftrightarrow> to_cents p e = (Inr c :: ('f, int) res)"
  by (auto simp: to_cents_def Let_def res_simps split: if_splits)

lemma checkpoint_price_iff:
  assumes "unat now + 300 < 2 ^ 64"
  shows "perp_checkpoint_price env orc now payload = Inr cents \<longleftrightarrow> checkpoint_prices env orc now payload cents"
proof -
  let ?m = "sample_market\<lparr>Market.lazer_contract := PriceOracleConfig.lazer_contract orc,
    Market.feed_id := PriceOracleConfig.feed_id orc, Market.expiry := now\<rparr>"
  note cents = to_cents_error_free [where 'e = perp_error and 'f = market_error]
  have "perp_checkpoint_price env orc now payload = Inr cents \<longleftrightarrow> market_settle_price env ?m payload = Inr cents"
    unfolding perp_checkpoint_price_def market_settle_price_def
    by (simp add: Let_def res_simps PERP_FRESHNESS_WINDOW_SECS_def PRICE_FRESHNESS_WINDOW_SECS_def cents)
  also have "\<dots> \<longleftrightarrow> update_prices env ?m payload cents" by (rule settle_price_iff) (use assms in simp)
  also have "\<dots> \<longleftrightarrow> checkpoint_prices env orc now payload cents"
    by (simp add: update_prices_def checkpoint_prices_def feed_second_def checkpoint_second_def cents)
  finally show ?thesis .
qed

text \<open>A checkpoint goes through exactly when it should: on an initialised perpetual with a price oracle, when
  the payload verifies and carries a positive price of the configured feed stamped within 300 seconds of
  the call, and both oracle legs corroborate it; nobody's signature is needed, and a terminated perpetual
  accepts it as well.\<close>

theorem perp_checkpoint_accepts_iff:
  assumes "unat (ledger_timestamp env) + 300 < 2 ^ 64"
    and "\<forall>orc cents. perp_store.inst_price_oracle s = Some orc
      \<and> checkpoint_prices env orc (ledger_timestamp env) payload cents \<longrightarrow> \<bar>cents\<bar> \<le> 10 ^ 30"
    and "\<forall>orc. perp_store.inst_price_oracle s = Some orc \<longrightarrow> (\<forall>(cfg, decimals) \<in> set (perp_legs orc). \<forall>pr.
      sep40_lastprice env (contract cfg) (asset cfg) = Some (Some pr) \<longrightarrow>
      \<bar>price pr\<bar> \<le> 10 ^ 30 \<and> unat (timestamp pr) + unat (max_staleness_secs cfg) < 2 ^ 64)"
  shows "(\<exists>t. perp_record_price_checkpoint env payload s = Inr ((), t)) \<longleftrightarrow>
    perp_store.inst_market s \<noteq> None
    \<and> (\<exists>orc cents. perp_store.inst_price_oracle s = Some orc
        \<and> checkpoint_prices env orc (ledger_timestamp env) payload cents
        \<and> (\<forall>(cfg, decimals) \<in> set (perp_legs orc). corroborates env cfg decimals (ledger_timestamp env) cents))"
proof -
  let ?now = "ledger_timestamp env"
  have leg: "verify_oracle_corroboration env cfg decimals ?now cents = Inr () \<longleftrightarrow> corroborates env cfg decimals ?now cents"
    if orc: "perp_store.inst_price_oracle s = Some orc" "checkpoint_prices env orc ?now payload cents"
      and "(cfg, decimals) \<in> set (perp_legs orc)" for orc cents cfg decimals
  proof
    assume c: "corroborates env cfg decimals ?now cents"
    then obtain pr where pr: "sep40_lastprice env (contract cfg) (asset cfg) = Some (Some pr)"
      by (auto simp: corroborates_def)
    have "\<bar>cents\<bar> \<le> 10 ^ 30" "\<bar>price pr\<bar> \<le> 10 ^ 30" "unat (timestamp pr) + unat (max_staleness_secs cfg) < 2 ^ 64"
      using assms(2,3) that pr by fastforce+
    then show "verify_oracle_corroboration env cfg decimals ?now cents = Inr ()"
      using passes_when_corroborated [OF c _ pr] by blast
  qed (rule verify_corroborates)
  have legs: "(\<forall>(cfg, decimals) \<in> set (perp_legs orc). verify_oracle_corroboration env cfg decimals ?now cents = Inr ())
      \<longleftrightarrow> (\<forall>(cfg, decimals) \<in> set (perp_legs orc). corroborates env cfg decimals ?now cents)"
    if "perp_store.inst_price_oracle s = Some orc" "checkpoint_prices env orc ?now payload cents" for orc cents
    using leg [OF that] by fast
  have "(\<exists>t. perp_record_price_checkpoint env payload s = Inr ((), t)) \<longleftrightarrow>
    perp_store.inst_market s \<noteq> None \<and> (\<exists>orc cents. perp_store.inst_price_oracle s = Some orc
        \<and> checkpoint_prices env orc ?now payload cents
        \<and> (\<forall>(cfg, decimals) \<in> set (perp_legs orc). verify_oracle_corroboration env cfg decimals ?now cents = Inr ()))"
    by (auto simp: perp_record_price_checkpoint_def perp_load_market_def load_price_oracle_def res_simps Let_def
        perp_legs_def checkpoint_price_iff [OF assms(1)])
  also have "\<dots> \<longleftrightarrow> perp_store.inst_market s \<noteq> None \<and> (\<exists>orc cents. perp_store.inst_price_oracle s = Some orc
        \<and> checkpoint_prices env orc ?now payload cents
        \<and> (\<forall>(cfg, decimals) \<in> set (perp_legs orc). corroborates env cfg decimals ?now cents))"
    by (intro conj_cong refl ex_cong1 legs)
  finally show ?thesis .
qed

end
