(* ===== verification/Perpetual_Types.thy ===== *)
theory Perpetual_Types
  imports Shared_Runs
begin

text \<open>
  The types of a perpetual's storage.  What it has in common with a market's follows from the market's
  types through the simulation of theory \<open>Shared_Runs\<close>; the last price and the price oracle are its own.
\<close>

section \<open>Well-formed data\<close>

definition perp_record_ok :: "Perpetual \<Rightarrow> bool" where
  "perp_record_ok m \<longleftrightarrow> Perpetual.min_fee_bps m \<le> Perpetual.base_fee_bps m \<and> Perpetual.base_fee_bps m \<le> 1000
     \<and> 0 < Perpetual.initial_liquidity m \<and> in_i128 (Perpetual.initial_liquidity m)
     \<and> in_i128 (Perpetual.pool_yes m) \<and> in_i128 (Perpetual.pool_no m) \<and> in_i128 (Perpetual.total_supply m)
     \<and> (Perpetual.status m = Terminated \<longrightarrow> Perpetual.pool_yes m = 0 \<and> Perpetual.pool_no m = 0)"

definition perp_oracle_ok :: "PriceOracleConfig \<Rightarrow> bool" where
  "perp_oracle_ok orc \<longleftrightarrow> PriceOracleConfig.feed_id orc \<noteq> 0
     \<and> PriceOracleConfig.reflector_decimals_at_init orc \<in> {2..30}
     \<and> PriceOracleConfig.redstone_decimals_at_init orc \<in> {2..30}"

definition perp_store_ok :: "'tok perp_state \<Rightarrow> bool" where
  "perp_store_ok st \<longleftrightarrow> (\<forall>k v. perp_store.balances st k = Some v \<longrightarrow> v \<noteq> 0 \<and> in_i128 v)
     \<and> (\<forall>m. perp_store.inst_market st = Some m \<longrightarrow> perp_record_ok m \<and> in_i128 (Perpetual.last_price_cents m))
     \<and> (\<forall>orc. perp_store.inst_price_oracle st = Some orc \<longrightarrow> perp_oracle_ok orc)"

fun perp_call_typed :: "perp_call \<Rightarrow> bool" where
  "perp_call_typed (perp_call.CallInitialize adm coll base_fee min_fee treas liq price_oracle) \<longleftrightarrow> in_i128 liq"
| "perp_call_typed (perp_call.CallSplit user amount) \<longleftrightarrow> in_i128 amount"
| "perp_call_typed (perp_call.CallMerge user amount) \<longleftrightarrow> in_i128 amount"
| "perp_call_typed (perp_call.CallBuy user p amount min_out) \<longleftrightarrow> in_i128 amount \<and> in_i128 min_out"
| "perp_call_typed (perp_call.CallSell user p shares min_out) \<longleftrightarrow> in_i128 shares \<and> in_i128 min_out"
| "perp_call_typed (perp_call.CallTransfer from to p amount) \<longleftrightarrow> in_i128 amount"
| "perp_call_typed _ \<longleftrightarrow> True"

section \<open>The types of the market it stands for\<close>

lemma as_market_types:
  "market_store_ok (as_market sample_market st) \<longleftrightarrow> (\<forall>k v. perp_store.balances st k = Some v \<longrightarrow> v \<noteq> 0 \<and> in_i128 v)
     \<and> (\<forall>m. perp_store.inst_market st = Some m \<longrightarrow> perp_record_ok m)"
proof -
  have rec: "market_config_ok (as_market_record sample_market m) \<and> market_outcome_ok (as_market_record sample_market m)
      \<and> market_amounts_ok (as_market_record sample_market m) \<longleftrightarrow> perp_record_ok m" (is "?l m \<longleftrightarrow> _") for m
    by (cases "Perpetual.status m")
      (auto simp: record_ok perp_record_ok_def as_market_record_def sample_market_def MAX_FEE_BPS_def i128_bounds)
  have "market_store_ok (as_market sample_market st) \<longleftrightarrow>
      (\<forall>k v. perp_store.balances st k = Some v \<longrightarrow> v \<noteq> 0 \<and> in_i128 v)
     \<and> (\<forall>m. perp_store.inst_market st = Some m \<longrightarrow> ?l m)"
    by (auto simp: market_store_ok_def balances_ok_def as_market_def)
  then show ?thesis unfolding rec .
qed

lemma shared_call_typed: "shared_call c = Some d \<Longrightarrow> call_typed d \<longleftrightarrow> perp_call_typed c"
  by (cases c) auto

lemma types_touch: "market_store_ok (market_touch st) = market_store_ok st"
  by (simp add: market_store_ok_def balances_ok_def market_touch_def)

lemma as_market_keeps_types:
  assumes "perp_exec env c s = Inr t" "perp_call_typed c" "market_store_ok (as_market sample_market s)"
  shows "market_store_ok (as_market sample_market t)"
proof (cases "shared_call c")
  case (Some d)
  show ?thesis
    using call_keeps_types [OF shared_as_market_exec [OF sample_template Some assms(1)] _ assms(3)]
      assms(2) shared_call_typed [OF Some] by simp
next
  case None
  then consider adm coll base_fee min_fee treas liq feeds where
      "c = perp_call.CallInitialize adm coll base_fee min_fee treas liq feeds"
    | payload where "c = CallCheckpoint payload" | adm where "c = CallTerminate adm"
    by (cases c) auto
  then show ?thesis
  proof cases
    case (1 adm coll base_fee min_fee treas liq feeds)
    then obtain r where r: "perp_initialize env adm coll base_fee min_fee treas liq feeds s = Inr (r, t)"
      using assms(1) by (auto simp: discard_eq_Inr)
    have "in_i128 (Market.strike_price sample_market)" by (simp add: sample_market_def i128_bounds)
    then show ?thesis
      using initialize_types [OF perp_initialize_as_market [OF r sample_template] assms(3)] assms(2) 1 by simp
  next
    case (2 payload)
    then show ?thesis using assms(1,3) checkpoint_as_touch [of env payload s t sample_market] by (simp only: types_touch)
  next
    case (3 adm)
    then show ?thesis
      using call_keeps_types [OF terminate_as_market_exec [OF sample_template] _ assms(3)] assms(1) by simp
  qed
qed

section \<open>Every call keeps the types\<close>

text \<open>Only a checkpoint writes the last price, only \<open>initialize\<close> the price oracle.\<close>

lemma last_price_typed:
  assumes "perp_exec env c s = Inr t"
    and "\<forall>m. perp_store.inst_market s = Some m \<longrightarrow> in_i128 (Perpetual.last_price_cents m)"
  shows "\<forall>m. perp_store.inst_market t = Some m \<longrightarrow> in_i128 (Perpetual.last_price_cents m)"
proof -
  have frame: "Perpetual.last_price_cents (perp_set_reserve p v m) = Perpetual.last_price_cents m" for p v m
    by (cases p) simp_all
  have price: "in_i128 cents" if "perp_checkpoint_price env orc now payload = Inr cents" for orc now payload cents
    using that by (auto simp: perp_checkpoint_price_def Let_def res_simps dest!: in_i128_to_cents)
  show ?thesis
    using assms
    by (cases c) (auto simp: res_simps frame elim!: perp_split_effect perp_merge_effect perp_buy_effect
        perp_sell_effect perp_transfer_effect perp_checkpoint_effect perp_terminate_effect perp_redeem_effect
        perp_initialize_effect dest: price)
qed

lemma oracle_typed:
  assumes "perp_exec env c s = Inr t"
    and "\<forall>orc. perp_store.inst_price_oracle s = Some orc \<longrightarrow> perp_oracle_ok orc"
  shows "\<forall>orc. perp_store.inst_price_oracle t = Some orc \<longrightarrow> perp_oracle_ok orc"
proof -
  have pin: "perp_oracle_ok stored" if "pinned env given stored" for given stored
  proof -
    have "PriceOracleConfig.feed_id stored = PriceOracleConfig.feed_id given"
      using that by (metis PriceOracleConfig.select_convs(2) PriceOracleConfig.surjective PriceOracleConfig.update_convs(4,6) pinned_def)
    then show ?thesis using that by (simp add: pinned_def perp_oracle_ok_def)
  qed
  show ?thesis
    using assms
    by (cases c) (auto simp: res_simps elim!: perp_split_effect perp_merge_effect perp_buy_effect
        perp_sell_effect perp_transfer_effect perp_checkpoint_effect perp_terminate_effect perp_redeem_effect
        perp_initialize_effect dest: pin split: option.splits)
qed

text \<open>Every stored number of a perpetual has its type, and its record and its price oracle keep the bounds
  \<open>initialize\<close> has checked: all of this holds again after any successful call with \<open>i128\<close> arguments.\<close>

theorem perp_call_keeps_types:
  assumes "perp_exec env c s = Inr t" "perp_call_typed c" "perp_store_ok s"
  shows "perp_store_ok t"
  using as_market_keeps_types [OF assms(1,2)] last_price_typed [OF assms(1)] oracle_typed [OF assms(1)] assms(3)
  unfolding as_market_types perp_store_ok_def by blast

end
