(* ===== verification/Perpetual_Limits.thy ===== *)
theory Perpetual_Limits
  imports Shared_Runs
begin

text \<open>
  What the market's theorems say of a perpetual, through the simulation of theory \<open>Shared_Runs\<close>:
  once it is terminated its holders can redeem in any order, and while it is open its seed
  liquidity can be taken a unit at a time.
\<close>

section \<open>Redeeming in any order\<close>

fun perp_redeem_all ::
    "('tok Env \<times> Address) list \<Rightarrow> 'tok perp_state \<Rightarrow> (perp_error, int list \<times> 'tok perp_state) res" where
  "perp_redeem_all [] s = Inr ([], s)"
| "perp_redeem_all ((env, user) # rest) s =
     bindr (perp_redeem env user s) (\<lambda>(pay, t).
     bindr (perp_redeem_all rest t) (\<lambda>(pays, u). Inr (pay # pays, u)))"

lemma agree_redeem_all:
  "agree (same_result k) (perp_redeem_all us s) (redeem_all us (as_market k s))"
proof (induction us arbitrary: s)
  case (Cons x us)
  show ?case
    by (cases x) (auto intro!: agree_bind [OF agree_redeem] agree_bind [OF Cons] agree_values)
qed (simp add: agree_values)

lemma agree_same_result_Inr: "agree (same_result k) m (Inr (x, t')) \<Longrightarrow> \<exists>t. m = Inr (x, t) \<and> t' = as_market k t"
  by (cases m) (auto simp: agree_def)

lemma as_market_collateral: "market_collateral chain (as_market k s) = perp_collateral chain s"
  by (cases "perp_store.inst_market s") (simp_all add: market_collateral_def perp_collateral_def)

text \<open>The redemptions of the market a terminated perpetual stands for.\<close>

lemma redeem_all_as_market:
  assumes "(perp_step chain)\<^sup>*\<^sup>* s0 s" "perp_fresh s0" "perp_store.inst_market s = Some m"
    and "Perpetual.status m = Terminated"
    and "2 * Perpetual.total_supply m \<le> i128_max" "distinct (map snd us)"
    and "\<forall>(env, user) \<in> set us. hosted chain env \<and> pays_when_funded env \<and> authorized env user
      \<and> 2 \<le> perp_balance_of s Yes user + perp_balance_of s No user"
  defines "half \<equiv> \<lambda>user. (perp_balance_of s Yes user + perp_balance_of s No user) div 2"
  defines "paid \<equiv> (\<Sum>user\<leftarrow>map snd us. half user)"
  shows "\<exists>t'. redeem_all us (as_market sample_market s) = Inr (map half (map snd us), t')
    \<and> market_store.inst_market t' = Some (as_market_record sample_market m\<lparr>Market.total_supply :=
        Perpetual.total_supply m - paid\<rparr>)
    \<and> market_collateral chain t' = perp_collateral chain s - paid
    \<and> (\<forall>p a. market_balance_of t' p a = (if a \<in> snd ` set us then 0 else perp_balance_of s p a))
    \<and> (market_step chain)\<^sup>*\<^sup>* (as_market sample_market s0) t'"
proof -
  let ?k = sample_market
  let ?pay = "perp_payout m (perp_balance_of s)"
  have pay: "?pay user = half user" if "2 \<le> perp_balance_of s Yes user + perp_balance_of s No user" for user
    using that assms(4) by (simp add: perp_payout_def half_def sdiv_nonneg)
  have same: "map ?pay (map snd us) = map half (map snd us)" using assms(7) pay by auto
  have run: "(market_step chain)\<^sup>*\<^sup>* (as_market ?k s0) (as_market ?k s)"
    by (rule run_as_market_run [OF sample_template assms(1)])
  note fresh = as_market_fresh [OF assms(2), of ?k]
  have worth: "\<forall>(env, user) \<in> set us. hosted chain env \<and> pays_when_funded env \<and> authorized env user
      \<and> 0 < market_payout (as_market_record ?k m) (market_balance_of (as_market ?k s)) user"
  proof (intro ballI, clarify)
    fix env user
    assume "(env, user) \<in> set us"
    then have *: "hosted chain env" "pays_when_funded env" "authorized env user"
      "2 \<le> perp_balance_of s Yes user + perp_balance_of s No user" using assms(7) by auto
    then show "hosted chain env \<and> pays_when_funded env \<and> authorized env user
        \<and> 0 < market_payout (as_market_record ?k m) (market_balance_of (as_market ?k s)) user"
      using pay [OF *(4)] by (simp add: as_market_payout half_def)
  qed
  show ?thesis
    using redeem_all_pays [OF run fresh _ _ _ assms(6) worth] assms(3-5)
    by (simp only: as_market_payout as_market_fields same as_market_collateral paid_def) (simp add: assms(3))
qed

text \<open>C18: Once a perpetual is terminated in whose run no buyer offered to receive a negative number of
  shares, its holders can redeem in any order, given a token that honours funded transfers and a supply of
  at most half the \<open>i128\<close> range: if distinct holders of at
  least two shares redeem one after the other, each in a transaction of its own, every call succeeds and
  pays half of the shares held at the start, rounded down, however many redeemed before; their balances
  are cleared, nobody else's changes, and the supply and the collateral fall by the sum paid, which the
  supply covers.\<close>

theorem perp_redeem_any_order:
  assumes "(perp_step chain)\<^sup>*\<^sup>* s0 s" "perp_fresh s0" "perp_store.inst_market s = Some m"
    and "Perpetual.status m = Terminated"
    and "2 * Perpetual.total_supply m \<le> i128_max" "distinct (map snd us)"
    and "\<forall>(env, user) \<in> set us. hosted chain env \<and> pays_when_funded env \<and> authorized env user
      \<and> 2 \<le> perp_balance_of s Yes user + perp_balance_of s No user"
  defines "half \<equiv> \<lambda>user. (perp_balance_of s Yes user + perp_balance_of s No user) div 2"
  defines "paid \<equiv> (\<Sum>user\<leftarrow>map snd us. half user)"
  shows "\<exists>t m'. perp_redeem_all us s = Inr (map half (map snd us), t)
    \<and> perp_store.inst_market t = Some m' \<and> Perpetual.status m' = Terminated
    \<and> Perpetual.total_supply m' = Perpetual.total_supply m - paid \<and> paid \<le> Perpetual.total_supply m
    \<and> perp_collateral chain t = perp_collateral chain s - paid
    \<and> (\<forall>p a. perp_balance_of t p a = (if a \<in> snd ` set us then 0 else perp_balance_of s p a))"
proof -
  let ?k = sample_market
  note fresh = as_market_fresh [OF assms(2), of ?k]
  obtain t' where t': "redeem_all us (as_market ?k s) = Inr (map half (map snd us), t')"
    "market_store.inst_market t' = Some (as_market_record ?k m\<lparr>Market.total_supply :=
        Perpetual.total_supply m - paid\<rparr>)"
    "market_collateral chain t' = perp_collateral chain s - paid"
    "\<forall>p a. market_balance_of t' p a = (if a \<in> snd ` set us then 0 else perp_balance_of s p a)"
    "(market_step chain)\<^sup>*\<^sup>* (as_market ?k s0) t'"
    using redeem_all_as_market [OF assms(1-7)] unfolding half_def paid_def by blast
  obtain t where t: "perp_redeem_all us s = Inr (map half (map snd us), t)" "t' = as_market ?k t"
    using agree_same_result_Inr [OF agree_redeem_all [of ?k us s, unfolded t'(1)]] by blast
  obtain m' where m': "perp_store.inst_market t = Some m'"
    "as_market_record ?k m' = as_market_record ?k (m\<lparr>Perpetual.total_supply := Perpetual.total_supply m - paid\<rparr>)"
    using t'(2) t(2) by auto
  have "0 \<le> Perpetual.total_supply m - paid"
    using issued_nonneg [OF reach_facts(1) [OF t'(5) fresh t'(2)]] by (simp add: book_view_def)
  moreover have "Perpetual.total_supply m' = Perpetual.total_supply m - paid"
    using arg_cong [OF m'(2), of Market.total_supply] by simp
  moreover have "as_market_status (Perpetual.status m') = Cancelled"
    using arg_cong [OF m'(2), of Market.status] assms(4) by simp
  then have "Perpetual.status m' = Terminated" by (cases "Perpetual.status m'") simp_all
  ultimately show ?thesis using t t'(3,4) m'(1) by (auto simp: as_market_collateral)
qed

lemma perp_redeem_any_order_witness:
  "\<exists>t. perp_redeem_all [(sample_env 2000000 0, 11), (sample_env 2000005 0, 12)] sample_perp_ended
      = Inr ([10000, 300], t) \<and> perp_collateral (sample_env 0 0) t = 0"
proof -
  let ?us = "[(sample_env 2000000 0, 11), (sample_env 2000005 0, 12)]"
  let ?m = "sample_perp\<lparr>Perpetual.total_supply := 10300, Perpetual.pool_yes := 0, Perpetual.pool_no := 0,
        Perpetual.status := Terminated\<rparr>"
  have m: "perp_store.inst_market sample_perp_ended = Some ?m" by (simp add: sample_perp_ended_def)
  have held: "perp_balance_of sample_perp_ended p 11 = 10000" "perp_balance_of sample_perp_ended p 12 = 300" for p
    by (cases p; simp add: sample_perp_ended_def sample_perp_traded_def perp_balance_of_def)+
  have coll: "perp_collateral (sample_env 0 0) sample_perp_ended = 10300"
    by (simp add: perp_collateral_def sample_perp_defs ledger_balance_def)
  show ?thesis
    using perp_redeem_any_order [OF sample_perp_reach_ended sample_perp_fresh_ok m, of ?us]
    by (simp add: held coll sample_hosted sample_pays sample_env_fields i128_max_def) (auto simp: sample_perp_def)
qed

section \<open>Taking the seed liquidity\<close>

fun perp_run ::
    "'tok Env \<Rightarrow> perp_call list \<Rightarrow> 'tok perp_state \<Rightarrow> (perp_error, 'tok perp_state) res" where
  "perp_run env [] s = Inr s"
| "perp_run env (c # cs) s = bindr (perp_exec env c s) (perp_run env cs)"

text \<open>A run of shared calls does the same to a perpetual as to the market it stands for, whatever
  the time.\<close>

lemma agree_run:
  assumes "template_ok k" "map shared_call cs = map Some ds"
  shows "agree (same_state k) (perp_run env cs s) (market_run (staged k 0 env) ds (as_market k s))"
  using assms(2)
proof (induction cs arbitrary: ds s)
  case (Cons c cs)
  then obtain d es where d: "ds = d # es" "shared_call c = Some d" "map shared_call cs = map Some es" by auto
  have "0 < Market.expiry k" using assms(1) by (simp add: template_ok_def word_neq_0_conv)
  then have "agree (same_state k) (perp_exec env c s) (market_exec (staged k 0 env) d (as_market k s))"
    using trades_as_market [OF d(2), of "staged k 0 env" k s] by (simp add: shared_call_staged(1) [OF d(2)])
  then show ?case
    unfolding d(1) perp_run.simps market_run.simps by (rule agree_bind) (simp add: Cons.IH [OF d(3)])
qed (simp add: agree_values)

definition perp_drain_run :: "nat \<Rightarrow> Address \<Rightarrow> perp_call list" where
  "perp_drain_run k user = concat (replicate k [perp_call.CallBuy user Yes 1 1,
     perp_call.CallSell user Yes 1 1, perp_call.CallSell user Yes 1 1])"

lemma perp_drain_shared: "map shared_call (perp_drain_run k user) = map Some (drain_run k user)"
  by (induction k) (simp_all add: perp_drain_run_def drain_cycle_def)

lemma staged_trader: "trader chain env user \<Longrightarrow> trader chain (staged k now env) user"
  by (auto simp: trader_def staged_hosted) (simp_all add: staged_def pays_when_funded_def sep41_at_def)

text \<open>The seed liquidity of a perpetual can be taken as that of a market, and a perpetual has no expiry
  that would end it.\<close>

theorem perp_seed_can_be_drained:
  assumes "(perp_step chain)\<^sup>*\<^sup>* s0 s" "perp_fresh s0" "perp_store.inst_market s = Some m"
    and "Perpetual.status m = PerpetualStatus.Open" "trader chain env user"
    and "Perpetual.pool_yes m = n" "Perpetual.pool_no m = n" "int k + 2 \<le> n"
    and "Perpetual.total_supply m < 2 ^ 60" "Perpetual.initial_liquidity m \<le> 2 ^ 60"
    and "int k < Perpetual.total_supply m + 1"
    and "uint (Perpetual.base_fee_bps m) * Perpetual.initial_liquidity m
      < 10000 * (Perpetual.total_supply m - int k + 1)"
    and "1 \<le> token_balance env (Perpetual.collateral m) user (perp_state.tokens s)"
  shows "\<exists>t. perp_run env (perp_drain_run k user) s = Inr t
    \<and> perp_balance_of t = perp_balance_of s
    \<and> token_balance env (Perpetual.collateral m) user (perp_state.tokens t)
      = token_balance env (Perpetual.collateral m) user (perp_state.tokens s) + int k
    \<and> perp_collateral chain t = perp_collateral chain s - int k"
proof -
  let ?k = sample_market
  let ?e = "staged ?k 0 env"
  have run: "(market_step chain)\<^sup>*\<^sup>* (as_market ?k s0) (as_market ?k s)"
    by (rule run_as_market_run [OF sample_template assms(1)])
  note tr = staged_trader [OF assms(5), of ?k 0]
  have same: "token_balance ?e = token_balance env" by (simp add: staged_def)
  have rec: "market_store.inst_market (as_market ?k s) = Some (as_market_record ?k m)" using assms(3) by simp
  have "0 < Market.expiry ?k" by (simp add: sample_market_def)
  then obtain t' where t': "market_run ?e (drain_run k user) (as_market ?k s) = Inr t'"
    "market_balance_of t' = perp_balance_of s"
    "token_balance env (Perpetual.collateral m) user (market_state.tokens t')
      = token_balance env (Perpetual.collateral m) user (perp_state.tokens s) + int k"
    "market_store.inst_market t' = Some (as_market_record ?k m\<lparr>Market.pool_yes := n - int k,
      Market.pool_no := n - int k, Market.total_supply := Perpetual.total_supply m - int k\<rparr>)"
    using drain_many [OF run as_market_fresh [OF assms(2)] rec _ tr _ _ _ assms(8)] assms(4,6,7,9-13)
    by (auto simp: same fee_bearable_def as_market_record_def)
  obtain t where t: "perp_run env (perp_drain_run k user) s = Inr t" "t' = as_market ?k t"
    using agree_run [OF sample_template perp_drain_shared [of k user], of env s] t'(1)
    by (cases "perp_run env (perp_drain_run k user) s") (auto simp: agree_def)
  have "market_collateral chain t' = market_collateral chain (as_market ?k s) - int k"
    using market_run_funds [OF t'(1) trader_hosted [OF tr] rec] t'(4) by auto
  then show ?thesis using t t'(2,3) by (auto simp: as_market_collateral)
qed

section \<open>What trades can cost the pools\<close>

text \<open>A run of a perpetual with \<open>k\<close> trades among its steps, each of which leaves a supply within \<open>cap\<close>.\<close>

definition perp_supply_within :: "int \<Rightarrow> 'tok perp_state \<Rightarrow> bool" where
  "perp_supply_within cap s \<longleftrightarrow>
     (case perp_store.inst_market s of None \<Rightarrow> True | Some m \<Rightarrow> Perpetual.total_supply m \<le> cap)"

fun perp_is_trade :: "perp_call \<Rightarrow> bool" where
  "perp_is_trade (perp_call.CallBuy user p n min_out) = True"
| "perp_is_trade (perp_call.CallSell user p n min_out) = True"
| "perp_is_trade _ = False"

inductive perp_trades_within :: "'tok Env \<Rightarrow> int \<Rightarrow> 'tok perp_state \<Rightarrow> nat \<Rightarrow> 'tok perp_state \<Rightarrow> bool"
  for chain :: "'tok Env" and cap :: int and s :: "'tok perp_state" where
  start: "perp_trades_within chain cap s 0 s"
| trade: "perp_trades_within chain cap s k t \<Longrightarrow> hosted chain env \<Longrightarrow> perp_careful c \<Longrightarrow> perp_is_trade c \<Longrightarrow>
    perp_exec env c t = Inr u \<Longrightarrow> perp_supply_within cap u \<Longrightarrow> perp_trades_within chain cap s (Suc k) u"
| other_call: "perp_trades_within chain cap s k t \<Longrightarrow> hosted chain env \<Longrightarrow> perp_careful c \<Longrightarrow> \<not> perp_is_trade c \<Longrightarrow>
    perp_exec env c t = Inr u \<Longrightarrow> perp_trades_within chain cap s k u"
| elsewhere: "perp_trades_within chain cap s k t \<Longrightarrow>
    (\<forall>c. token_balance chain c (current_contract_address chain) (perp_state.tokens t)
      \<le> token_balance chain c (current_contract_address chain) tk) \<Longrightarrow>
    perp_trades_within chain cap s k (t\<lparr>perp_state.tokens := tk\<rparr>)"
| ageing: "perp_trades_within chain cap s k t \<Longrightarrow>
    perp_trades_within chain cap s k (t\<lparr>perp_store.inst_ttl := n, perp_store.balance_ttl := f\<rparr>)"

lemma shared_trade: "shared_call c = Some d \<Longrightarrow> is_trade d \<longleftrightarrow> perp_is_trade c"
  by (cases c) auto

lemma trades_within_touch: "trades_within chain cap s k t \<Longrightarrow> trades_within chain cap s k (market_touch t)"
  unfolding touch_as_ageing by (rule trades_within.ageing)

lemma perp_trades_as_trades:
  assumes "perp_trades_within chain cap s k t" "template_ok tm"
  shows "trades_within chain cap (as_market tm s) k (as_market tm t)"
  using assms(1)
proof (induction rule: perp_trades_within.induct)
  case (trade k t env c u)
  then obtain d where d: "shared_call c = Some d" by (cases c) auto
  have "supply_within cap (as_market tm u)"
    using trade.hyps(6) by (simp add: supply_within_def perp_supply_within_def split: option.splits)
  then show ?case
    using trades_within.trade [OF trade.IH staged_hosted [OF trade.hyps(2)] _ _
        shared_as_market_exec [OF assms(2) d trade.hyps(5)]]
      trade.hyps(3,4) shared_call_careful [OF d] shared_trade [OF d] by simp
next
  case (other_call k t env c u)
  show ?case
  proof (cases "shared_call c")
    case (Some d)
    then show ?thesis
      using trades_within.other_call [OF other_call.IH staged_hosted [OF other_call.hyps(2)] _ _
          shared_as_market_exec [OF assms(2) Some other_call.hyps(5)]]
        other_call.hyps(3,4) shared_call_careful [OF Some] shared_trade [OF Some] by simp
  next
    case None
    from own_call_as_market [OF assms(2) other_call.hyps(2) None other_call.hyps(5)] show ?thesis
    proof (elim disjE exE conjE)
      assume "as_market tm u = market_touch (as_market tm t)"
      then show ?thesis using trades_within_touch [OF other_call.IH] by simp
    qed (rule trades_within.other_call [OF other_call.IH])
  qed
next
  case (elsewhere k t tk)
  then show ?case unfolding as_market_elsewhere by (intro trades_within.elsewhere) simp_all
next
  case (ageing k t n f)
  show ?case unfolding as_market_ageing by (rule trades_within.ageing [OF ageing.IH])
qed (rule trades_within.start)

text \<open>What \<open>k\<close> trades can cost the pools of a perpetual, which nothing but its admin ends.\<close>

theorem perp_seed_loss_bounded:
  assumes "(perp_step chain)\<^sup>*\<^sup>* s0 s" "perp_fresh s0" "perp_store.inst_market s = Some m"
    and "perp_trades_within chain cap s k t" "perp_store.inst_market t = Some m'"
    and "Perpetual.status m' = PerpetualStatus.Open"
  shows "Perpetual.pool_yes m * Perpetual.pool_no m - int k * cap \<le> Perpetual.pool_yes m' * Perpetual.pool_no m'"
proof -
  let ?k = sample_market
  have run: "(market_step chain)\<^sup>*\<^sup>* (as_market ?k s0) (as_market ?k s)"
    by (rule run_as_market_run [OF sample_template assms(1)])
  have m: "market_store.inst_market (as_market ?k s) = Some (as_market_record ?k m)" using assms(3) by simp
  show ?thesis
    using trades_loss [OF perp_trades_as_trades [OF assms(4) sample_template] run as_market_fresh [OF assms(2)] m]
      assms(5,6) by (auto simp: pool_product_def)
qed

end
