(* ===== verification/Market_Lifetimes.thy ===== *)
theory Market_Lifetimes
  imports Market_Settlement
begin

text \<open>
  The lifetimes of a market's storage: what each call leaves of the time until an entry has to be
  restored.  The instance storage is extended by every call that writes the record, and a balance by
  every call that writes it; no call extends the balance of somebody it does not concern.
\<close>

text \<open>Between two states every balance entry is as it was, or was removed, or was written with a lifetime
  of at least the bump threshold.\<close>

definition bumped :: "'a market_store_scheme \<Rightarrow> 'a market_store_scheme \<Rightarrow> bool" where
  "bumped s t \<longleftrightarrow> (\<forall>k. balances t k = balances s k \<and> balance_ttl t k = balance_ttl s k
     \<or> balances t k = None \<and> balance_ttl t k = 0 \<or> BUMP_THRESHOLD \<le> balance_ttl t k)"

named_theorems bumps "steps that keep every written entry bumped"

lemma bumped_refl [bumps]: "bumped s s"
  by (simp add: bumped_def)

lemma bumped_set [bumps]: "bumped s t \<Longrightarrow> bumped s (market_set_balance p a v t)"
  by (auto simp: bumped_def market_set_balance_def extend_ttl_ge BUMP_THRESHOLD_def BUMP_TO_def)

lemma bumped_credit [bumps]: "market_credit p a v t = Inr u \<Longrightarrow> bumped s t \<Longrightarrow> bumped s u"
  by (auto simp: market_credit_def res_simps intro: bumped_set)

lemma bumped_debit [bumps]: "market_debit p a v t = Inr u \<Longrightarrow> bumped s t \<Longrightarrow> bumped s u"
  by (auto simp: market_debit_def Let_def res_simps intro: bumped_set)

lemma bumped_clear [bumps]: "bumped s t \<Longrightarrow> bumped s (market_clear_balances a t)"
  by (simp add: market_clear_balances_def bumped_set)

lemma bumped_frame [simp]:
  "bumped s (save_market m t) = bumped s t" "bumped s (market_publish e t) = bumped s t"
  "bumped s' (t'\<lparr>tokens := tk\<rparr>) = bumped s' t'" "bumped s (t\<lparr>inst_redstone := rs\<rparr>) = bumped s t"
  by (simp_all add: bumped_def save_market_def market_touch_def market_publish_def)

text \<open>Every balance a call writes and does not clear has a lifetime of at least the bump threshold
  afterwards, and the entries it does not write keep theirs.\<close>

theorem market_call_bumps_balances:
  assumes "market_exec env c s = Inr t"
  shows "bumped s t"
proof (cases c)
  case CallInitialize
  then show ?thesis using assms
    by (auto simp: res_simps market_initialize_def Let_def bumped_refl split: option.splits if_splits)
next
  case (CallBuy user p n mo)
  then show ?thesis using assms
    by (auto simp: res_simps market_buy_def Let_def case_prod_unfold) (simp add: bumps)
next
  case (CallSell user p n mo)
  then show ?thesis using assms
    by (auto simp: res_simps market_sell_def Let_def case_prod_unfold intro: bumped_debit [OF _ bumped_refl])
next
  case (CallRedeem user)
  then obtain r where r: "market_redeem env user s = Inr (r, t)" using assms by (auto simp: discard_eq_Inr)
  then obtain m where "inst_market s = Some m" by (auto simp: market_redeem_def res_simps)
  with r show ?thesis unfolding market_redeem_def
    by (cases "status m") (auto simp: res_simps Let_def bumped_clear bumped_refl)
next
  case (CallSplit user n)
  then show ?thesis using assms by (auto simp: res_simps market_split_def Let_def) (simp add: bumps)
next
  case (CallMerge user n)
  then show ?thesis using assms by (auto simp: res_simps market_merge_def Let_def) (simp add: bumps)
next
  case (CallTransfer src dst p n)
  then show ?thesis using assms by (auto simp: res_simps market_transfer_def Let_def) (simp add: bumps)
next
  case (CallSettle payload)
  then show ?thesis using assms by (auto simp: res_simps market_settle_def Let_def) (simp_all add: bumps)
next
  case CallCancel
  then show ?thesis using assms by (auto simp: res_simps market_cancel_def Let_def) (simp add: bumps)
qed

end
