(* ===== verification/Perpetual_Lifetimes.thy ===== *)
theory Perpetual_Lifetimes
  imports Shared_Runs Market_Lifetimes
begin

text \<open>
  The lifetimes of a perpetual's balances, taken over from the market it runs as: every balance a call
  writes and does not clear lives at least as long as the bump threshold afterwards.
\<close>

definition perp_bumped :: "'a perp_store_scheme \<Rightarrow> 'a perp_store_scheme \<Rightarrow> bool" where
  "perp_bumped s t \<longleftrightarrow> (\<forall>k.
     perp_store.balances t k = perp_store.balances s k \<and> perp_store.balance_ttl t k = perp_store.balance_ttl s k
   \<or> perp_store.balances t k = None \<and> perp_store.balance_ttl t k = 0
   \<or> PERP_BUMP_THRESHOLD \<le> perp_store.balance_ttl t k)"

lemma bumped_as_market: "bumped (as_market k s) (as_market k t) \<longleftrightarrow> perp_bumped s t"
  by (simp add: bumped_def perp_bumped_def as_market_def BUMP_THRESHOLD_def PERP_BUMP_THRESHOLD_def)

theorem perp_call_bumps_balances:
  assumes "perp_exec env c s = Inr t"
  shows "perp_bumped s t"
proof (cases "shared_call c")
  case (Some d)
  from market_call_bumps_balances [OF shared_as_market_exec [OF sample_template Some assms]]
  show ?thesis by (simp add: bumped_as_market)
next
  case None
  then show ?thesis
  proof (cases rule: own_call_cases)
    case init
    then show ?thesis using assms
      by (auto simp: res_simps perp_initialize_def Let_def perp_bumped_def perp_save_market_def perp_touch_def
          perp_publish_def split: option.splits if_splits)
  next
    case checkpoint
    then show ?thesis using assms
      by (auto simp: res_simps perp_record_price_checkpoint_def Let_def perp_bumped_def perp_save_market_def
          perp_touch_def perp_publish_def)
  next
    case terminate
    from market_call_bumps_balances [OF terminate_as_market_exec [OF sample_template]] assms terminate
    show ?thesis by (metis bumped_as_market)
  qed
qed

end
