(* ===== verification/Vault.thy ===== *)
theory Vault
  imports Perpetual_Properties Market_Properties
begin

text \<open>
  The capital vault of \<open>contracts/vault/src/lib.rs\<close>.  Its one cross-contract call,
  \<open>redeem_from_market\<close>, runs the \<open>redeem\<close> of the contract at the called address, a market of
  \<open>Market\<close> or a perpetual of \<open>Perpetual\<close> (both export it with the same signature), on that
  contract's own state and with the authorisation a direct call gives the vault's address.
\<close>

section \<open>Data\<close>

datatype vault_error = AlreadyInitialized | NotInitialized | InvalidAmount | Unauthorized

datatype vault_event =
    DepositEvent Address int
  | WithdrawEvent Address int
  | MarketRedeemEvent Address int

text \<open>The instance storage (\<open>admin\<close>, \<open>collat\<close>, \<open>deposit\<close>) and the events; then what the vault's calls
  reach: the market and perpetual contracts by address, and the token contracts.\<close>

record vault_store =
  vault_admin :: "Address option"
  vault_collateral :: "Address option"
  total_deposited :: "int option"
  vault_events :: "vault_event list"

record 'tok vault_state = vault_store +
  markets :: "Address \<rightharpoonup> market_store"
  perps :: "Address \<rightharpoonup> perp_store"
  vault_tokens :: 'tok

section \<open>Operations\<close>

definition vault_initialize ::
    "'tok Env \<Rightarrow> Address \<Rightarrow> Address \<Rightarrow> 'tok vault_state \<Rightarrow> (vault_error, unit \<times> 'tok vault_state) res" where
  "vault_initialize env adm coll st =
     bindr (require_auth env adm) (\<lambda>_.
     if vault_admin st \<noteq> None then Inl (Err AlreadyInitialized) else
     Inr ((), st\<lparr>vault_admin := Some adm, vault_collateral := Some coll, total_deposited := Some 0\<rparr>))"

definition vault_require_admin ::
    "'tok Env \<Rightarrow> Address \<Rightarrow> 'tok vault_state \<Rightarrow> (vault_error, unit) res" where
  "vault_require_admin env adm st =
     bindr (ok_or NotInitialized (vault_admin st)) (\<lambda>stored.
     if stored \<noteq> adm then Inl (Err Unauthorized) else require_auth env adm)"

definition vault_require_collateral :: "'tok vault_state \<Rightarrow> (vault_error, Address) res" where
  "vault_require_collateral st = ok_or NotInitialized (vault_collateral st)"

definition vault_deposit ::
    "'tok Env \<Rightarrow> Address \<Rightarrow> int \<Rightarrow> 'tok vault_state \<Rightarrow> (vault_error, unit \<times> 'tok vault_state) res" where
  "vault_deposit env from amount st =
     bindr (require_auth env from) (\<lambda>_.
     if amount \<le> 0 then Inl (Err InvalidAmount) else
     bindr (vault_require_collateral st) (\<lambda>coll.
     bindr (sub_call (token_transfer env coll from (current_contract_address env) amount
       (vault_tokens st))) (\<lambda>tk.
     let st = st\<lparr>vault_tokens := tk\<rparr>;
         total = (case total_deposited st of None \<Rightarrow> 0 | Some t \<Rightarrow> t) in
     bindr (i128_add total amount) (\<lambda>sum.
     Inr ((), st\<lparr>total_deposited := Some sum,
       vault_events := vault_events st @ [DepositEvent from amount]\<rparr>)))))"

definition vault_withdraw ::
    "'tok Env \<Rightarrow> Address \<Rightarrow> Address \<Rightarrow> int \<Rightarrow> 'tok vault_state \<Rightarrow>
      (vault_error, unit \<times> 'tok vault_state) res" where
  "vault_withdraw env adm to amount st =
     bindr (vault_require_admin env adm st) (\<lambda>_.
     if amount \<le> 0 then Inl (Err InvalidAmount) else
     bindr (vault_require_collateral st) (\<lambda>coll.
     bindr (sub_call (token_transfer env coll (current_contract_address env) to amount
       (vault_tokens st))) (\<lambda>tk.
     Inr ((), st\<lparr>vault_tokens := tk, vault_events := vault_events st @ [WithdrawEvent to amount]\<rparr>))))"

text \<open>The environment a called market sees: its own address, and the direct caller authorised.\<close>

definition callee_env :: "'tok Env \<Rightarrow> Address \<Rightarrow> 'tok Env" where
  "callee_env env callee = env\<lparr>current_contract_address := callee,
     authorized := (authorized env)(current_contract_address env := True)\<rparr>"

text \<open>\<open>market.redeem(user)\<close> through the client: the call reaches whatever contract lives at the address,
  and a failure of the callee traps.\<close>

definition client_redeem ::
    "'tok Env \<Rightarrow> Address \<Rightarrow> Address \<Rightarrow> 'tok vault_state \<Rightarrow> (vault_error, int \<times> 'tok vault_state) res" where
  "client_redeem env callee user st =
     (case markets st callee of
        Some ms \<Rightarrow>
          bindr (call_client (market_redeem (callee_env env callee) user
            (market_store.extend ms (market_state.fields (vault_tokens st))))) (\<lambda>(payout, ms').
          Inr (payout, st\<lparr>markets := (markets st)(callee \<mapsto> market_store.truncate ms'),
            vault_tokens := market_state.tokens ms'\<rparr>))
      | None \<Rightarrow>
          bindr (sub_call (perps st callee)) (\<lambda>ps.
          bindr (call_client (perp_redeem (callee_env env callee) user
            (perp_store.extend ps (perp_state.fields (vault_tokens st))))) (\<lambda>(payout, ps').
          Inr (payout, st\<lparr>perps := (perps st)(callee \<mapsto> perp_store.truncate ps'),
            vault_tokens := perp_state.tokens ps'\<rparr>))))"

definition vault_redeem_from_market ::
    "'tok Env \<Rightarrow> Address \<Rightarrow> Address \<Rightarrow> 'tok vault_state \<Rightarrow> (vault_error, int \<times> 'tok vault_state) res" where
  "vault_redeem_from_market env adm market_id st =
     bindr (vault_require_admin env adm st) (\<lambda>_.
     bindr (client_redeem env market_id (current_contract_address env) st) (\<lambda>(payout, st).
     Inr (payout, st\<lparr>vault_events := vault_events st @ [MarketRedeemEvent market_id payout]\<rparr>)))"

definition vault_get_balance :: "'tok Env \<Rightarrow> 'tok vault_state \<Rightarrow> (vault_error, int) res" where
  "vault_get_balance env st =
     bindr (vault_require_collateral st) (\<lambda>coll.
     Inr (token_balance env coll (current_contract_address env) (vault_tokens st)))"

definition vault_get_total_deposited :: "'tok vault_state \<Rightarrow> (vault_error, int) res" where
  "vault_get_total_deposited st = ok_or NotInitialized (total_deposited st)"

datatype vault_call =
    CallVaultInitialize Address Address
  | CallDeposit Address int
  | CallWithdraw Address Address int
  | CallRedeemFromMarket Address Address

fun vault_exec ::
    "'tok Env \<Rightarrow> vault_call \<Rightarrow> 'tok vault_state \<Rightarrow> (vault_error, 'tok vault_state) res" where
  "vault_exec env (CallVaultInitialize adm coll) st = discard (vault_initialize env adm coll st)"
| "vault_exec env (CallDeposit from amount) st = discard (vault_deposit env from amount st)"
| "vault_exec env (CallWithdraw adm to amount) st = discard (vault_withdraw env adm to amount st)"
| "vault_exec env (CallRedeemFromMarket adm market_id) st =
     discard (vault_redeem_from_market env adm market_id st)"

section \<open>Effects\<close>

lemma vault_require_admin_Inr [res_simps]:
  "vault_require_admin env adm st = Inr u \<longleftrightarrow> vault_admin st = Some adm \<and> authorized env adm"
  by (auto simp: vault_require_admin_def res_simps)

lemma vault_require_collateral_Inr [res_simps]:
  "vault_require_collateral st = Inr c \<longleftrightarrow> vault_collateral st = Some c"
  by (simp add: vault_require_collateral_def res_simps)

lemma market_store_tokens [simp]:
  "inst_market (market_store.extend ms x) = inst_market ms"
  "market_balance_of (market_store.extend ms x) = market_balance_of ms"
  "tokens (market_store.extend ms (market_state.fields tk)) = tk"
  by (simp_all add: market_store.defs market_state.defs market_balance_of_def fun_eq_iff)

lemma market_store_truncate [simp]:
  "inst_market (market_store.truncate ms) = inst_market ms"
  "market_balance_of (market_store.truncate ms) = market_balance_of ms"
  by (simp_all add: market_store.defs market_balance_of_def fun_eq_iff)

lemma perp_store_tokens [simp]:
  "perp_store.inst_market (perp_store.extend ps x) = perp_store.inst_market ps"
  "perp_balance_of (perp_store.extend ps x) = perp_balance_of ps"
  "perp_state.tokens (perp_store.extend ps (perp_state.fields tk)) = tk"
  by (simp_all add: perp_store.defs perp_state.defs perp_balance_of_def fun_eq_iff)

lemma perp_store_truncate [simp]:
  "perp_store.inst_market (perp_store.truncate ps) = perp_store.inst_market ps"
  "perp_balance_of (perp_store.truncate ps) = perp_balance_of ps"
  by (simp_all add: perp_store.defs perp_balance_of_def fun_eq_iff)

text \<open>What a collection does whatever contract it reaches: one payment from the callee.\<close>

lemma client_redeem_effect:
  assumes "client_redeem env callee user st = Inr (payout, st')"
  obtains coll where
    "0 < payout" "authorized (callee_env env callee) user"
    "token_transfer env coll callee user payout (vault_tokens st) = Some (vault_tokens st')"
    "vault_store.truncate st' = vault_store.truncate st"
    "\<forall>a. a \<noteq> callee \<longrightarrow> markets st' a = markets st a \<and> perps st' a = perps st a"
proof (cases "markets st callee")
  case (Some ms)
  with assms obtain ms' where
    r: "market_redeem (callee_env env callee) user
      (market_store.extend ms (market_state.fields (vault_tokens st))) = Inr (payout, ms')"
    and st': "st' = st\<lparr>markets := (markets st)(callee \<mapsto> market_store.truncate ms'),
      vault_tokens := market_state.tokens ms'\<rparr>"
    by (auto simp: client_redeem_def res_simps)
  from r show thesis
    by (rule market_redeem_effect) (auto simp: st' callee_env_def vault_store.defs intro!: that)
next
  case None
  with assms obtain ps ps' where
    r: "perp_redeem (callee_env env callee) user
      (perp_store.extend ps (perp_state.fields (vault_tokens st))) = Inr (payout, ps')"
    and st': "st' = st\<lparr>perps := (perps st)(callee \<mapsto> perp_store.truncate ps'),
      vault_tokens := perp_state.tokens ps'\<rparr>"
    by (auto simp: client_redeem_def res_simps)
  from r show thesis
    by (rule perp_redeem_effect) (auto simp: st' callee_env_def vault_store.defs intro!: that)
qed

lemma vault_truncate_eq:
  "vault_store.truncate st' = vault_store.truncate st \<longleftrightarrow> vault_admin st' = vault_admin st
    \<and> vault_collateral st' = vault_collateral st \<and> total_deposited st' = total_deposited st
    \<and> vault_events st' = vault_events st"
  by (simp add: vault_store.defs)

lemma vault_redeem_pays:
  assumes "vault_redeem_from_market env adm market_id st = Inr (payout, st')"
  obtains coll where
    "vault_admin st = Some adm" "authorized env adm" "0 < payout"
    "token_transfer env coll market_id (current_contract_address env) payout
      (vault_tokens st) = Some (vault_tokens st')"
    "vault_admin st' = vault_admin st" "vault_collateral st' = vault_collateral st"
    "total_deposited st' = total_deposited st"
proof -
  from assms obtain u where a: "vault_admin st = Some adm" "authorized env adm"
    and u: "client_redeem env market_id (current_contract_address env) st = Inr (payout, u)"
    and st': "st' = u\<lparr>vault_events := vault_events u @ [MarketRedeemEvent market_id payout]\<rparr>"
    by (auto simp: vault_redeem_from_market_def res_simps)
  from u show thesis
    by (rule client_redeem_effect) (use a st' in \<open>auto simp: vault_truncate_eq intro!: that\<close>)
qed

text \<open>The same, with what it leaves of the market it reached.\<close>

lemma vault_redeem_effect:
  assumes "vault_redeem_from_market env adm market_id st = Inr (payout, st')"
    and "markets st market_id = Some ms"
  obtains m ms' where
    "vault_admin st = Some adm" "authorized env adm"
    "inst_market ms = Some m" "status m \<noteq> Open"
    "payout = market_payout m (market_balance_of ms) (current_contract_address env)" "0 < payout"
    "token_transfer env (collateral m) market_id (current_contract_address env) payout
      (vault_tokens st) = Some (vault_tokens st')"
    "markets st' = (markets st)(market_id \<mapsto> ms')"
    "market_balance_of ms' = drop_shares (market_balance_of ms) (current_contract_address env)"
    "vault_admin st' = vault_admin st" "vault_collateral st' = vault_collateral st"
    "total_deposited st' = total_deposited st"
proof -
  from assms obtain out where
    a: "vault_admin st = Some adm" "authorized env adm"
    and r: "market_redeem (callee_env env market_id) (current_contract_address env)
       (market_store.extend ms (market_state.fields (vault_tokens st))) = Inr (payout, out)"
    and st': "st' = st\<lparr>markets := (markets st)(market_id \<mapsto> market_store.truncate out),
       vault_tokens := tokens out,
       vault_events := vault_events st @ [MarketRedeemEvent market_id payout]\<rparr>"
    by (auto simp: vault_redeem_from_market_def client_redeem_def res_simps)
  from r show thesis
    by (rule market_redeem_effect)
      (use a st' in \<open>auto simp: callee_env_def intro!: that [where ms' = "market_store.truncate out"]\<close>)
qed

section \<open>Properties\<close>

text \<open>Only the admin moves capital out: when a call lowers the vault's balance of any token, it
  is a withdrawal of the vault's own collateral, signed by the stored admin, by exactly its
  amount.\<close>

theorem vault_outflow_needs_admin:
  assumes "vault_exec env c st = Inr st'" "sep41_at env (current_contract_address env)"
    and "\<not> authorized env (current_contract_address env)"
    and "token_balance env tok (current_contract_address env) (vault_tokens st')
      < token_balance env tok (current_contract_address env) (vault_tokens st)"
  shows "\<exists>adm to n. c = CallWithdraw adm to n \<and> vault_admin st = Some adm \<and> authorized env adm
    \<and> vault_collateral st = Some tok \<and> 0 < n
    \<and> token_balance env tok (current_contract_address env) (vault_tokens st')
      = token_balance env tok (current_contract_address env) (vault_tokens st) - n"
proof -
  let ?self = "current_contract_address env"
  have move: "token_balance env tok ?self t' = token_balance env tok ?self t
      - (if tok = coll \<and> ?self = src then n else 0) + (if tok = coll \<and> ?self = dst then n else 0)"
    if "token_transfer env coll src dst n t = Some t'" for coll src dst n t t'
    using that assms(2) by (cases "tok = coll") (auto simp: sep41_at_def)
  show ?thesis
  proof (cases c)
    case (CallVaultInitialize adm coll)
    then show ?thesis using assms(1,4) by (auto simp: res_simps vault_initialize_def)
  next
    case (CallDeposit src n)
    then obtain coll where "authorized env src" "0 < n"
      "token_transfer env coll src ?self n (vault_tokens st) = Some (vault_tokens st')"
      using assms(1) by (auto simp: res_simps vault_deposit_def Let_def)
    then show ?thesis using move assms(3,4) by (auto split: if_splits)
  next
    case (CallWithdraw adm dst n)
    then obtain coll where w: "vault_admin st = Some adm" "authorized env adm" "0 < n"
      "vault_collateral st = Some coll"
      "token_transfer env coll ?self dst n (vault_tokens st) = Some (vault_tokens st')"
      using assms(1) by (auto simp: res_simps vault_withdraw_def)
    from move [OF w(5)] assms(4) have "tok = coll" "?self \<noteq> dst" by (auto split: if_splits)
    then show ?thesis using w CallWithdraw move [OF w(5)] by simp
  next
    case (CallRedeemFromMarket adm market_id)
    then obtain payout where "vault_redeem_from_market env adm market_id st = Inr (payout, st')"
      using assms(1) by (auto simp: res_simps)
    then obtain coll where "0 < payout"
      "token_transfer env coll market_id ?self payout (vault_tokens st) = Some (vault_tokens st')"
      by (rule vault_redeem_pays)
    then show ?thesis using move assms(4) by (fastforce split: if_splits)
  qed
qed

definition sample_vault :: "ledger vault_state" where
  "sample_vault = \<lparr>vault_admin = Some 10, vault_collateral = Some 5, total_deposited = Some 700,
     vault_events = [], markets = [2 \<mapsto> market_store.truncate (sample_finished Cancelled 0 CancelEvent)
       \<lparr>balances := [(Yes, 1) \<mapsto> 10000, (No, 1) \<mapsto> 10000]\<rparr>], perps = Map.empty,
     vault_tokens = (\<lambda>_ _. 0)(5 := (\<lambda>_. 0)(1 := 700, 2 := 10300))\<rparr>"

lemma sample_withdraw:
  "\<exists>st'. vault_exec (sample_env 0 0) (CallWithdraw 10 12 200) sample_vault = Inr st'
    \<and> vault_tokens st' 5 1 = 500"
  by (simp add: vault_withdraw_def vault_require_admin_def vault_require_collateral_def
      require_auth_def discard_def sample_env_def sample_vault_def ledger_transfer_def Let_def)

lemma vault_outflow_needs_admin_witness:
  "\<exists>adm to n. CallWithdraw 10 12 200 = CallWithdraw adm to n \<and> vault_admin sample_vault = Some adm
    \<and> authorized (sample_env 0 0) adm \<and> vault_collateral sample_vault = Some 5 \<and> 0 < n"
proof -
  obtain st' where st': "vault_exec (sample_env 0 0) (CallWithdraw 10 12 200) sample_vault = Inr st'"
      "vault_tokens st' 5 1 = 500"
    using sample_withdraw by blast
  have "sep41_at (sample_env 0 0) 1" by (rule ledger_sep41) (simp_all add: sample_env_def)
  then show ?thesis
    using vault_outflow_needs_admin [OF st'(1), of 5] st'(2)
    by (simp add: sample_env_def ledger_balance_def sample_vault_def)
qed

text \<open>Collecting from a market pays the vault exactly the value of its own position there, in
  that market's collateral, clears that position and no other holder's, and touches neither the
  vault's settings nor its count of deposits; only the admin can ask for it.\<close>

theorem vault_collects_its_position:
  assumes "vault_redeem_from_market env adm market_id st = Inr (payout, st')"
    and "markets st market_id = Some ms"
    and "sep41_at env (current_contract_address env)" "market_id \<noteq> current_contract_address env"
  shows "\<exists>m ms'. vault_admin st = Some adm \<and> authorized env adm
    \<and> inst_market ms = Some m \<and> status m \<noteq> Open
    \<and> payout = market_payout m (market_balance_of ms) (current_contract_address env)
    \<and> token_balance env (collateral m) (current_contract_address env) (vault_tokens st')
      = token_balance env (collateral m) (current_contract_address env) (vault_tokens st) + payout
    \<and> markets st' = (markets st)(market_id \<mapsto> ms')
    \<and> market_balance_of ms' = drop_shares (market_balance_of ms) (current_contract_address env)
    \<and> vault_admin st' = vault_admin st \<and> vault_collateral st' = vault_collateral st
    \<and> total_deposited st' = total_deposited st"
  using assms(1,2)
proof (rule vault_redeem_effect)
  fix m ms'
  assume *: "vault_admin st = Some adm" "authorized env adm"
    "inst_market ms = Some m" "status m \<noteq> Open"
    "payout = market_payout m (market_balance_of ms) (current_contract_address env)"
    "token_transfer env (collateral m) market_id (current_contract_address env) payout
      (vault_tokens st) = Some (vault_tokens st')"
    "markets st' = (markets st)(market_id \<mapsto> ms')"
    "market_balance_of ms' = drop_shares (market_balance_of ms) (current_contract_address env)"
    "vault_admin st' = vault_admin st" "vault_collateral st' = vault_collateral st"
    "total_deposited st' = total_deposited st"
  then show ?thesis using sep41_pay_in [OF assms(3) *(6) assms(4)] by blast
qed

lemma sample_collect:
  "\<exists>st'. vault_redeem_from_market (sample_env 0 0) 10 2 sample_vault = Inr (10000, st')"
  by (simp add: vault_redeem_from_market_def client_redeem_def vault_require_admin_def require_auth_def sample_env_def
      sample_vault_def callee_env_def market_redeem_def market_clear_balances_def market_eval
      market_store.defs market_state.defs sample_finished_def sample_market_def i128_eval)

lemma vault_collects_its_position_witness:
  "\<exists>(st' :: ledger vault_state) ms m. markets sample_vault 2 = Some ms \<and> inst_market ms = Some m
    \<and> 10000 = market_payout m (market_balance_of ms) 1
    \<and> ledger_balance (collateral m) 1 (vault_tokens st')
      = ledger_balance (collateral m) 1 (vault_tokens sample_vault) + 10000"
proof -
  obtain st' where st': "vault_redeem_from_market (sample_env 0 0) 10 2 sample_vault = Inr (10000, st')"
    using sample_collect by blast
  have "sep41_at (sample_env 0 0) 1" by (rule ledger_sep41) (simp_all add: sample_env_def)
  moreover obtain ms where ms: "markets sample_vault 2 = Some ms" by (simp add: sample_vault_def)
  ultimately show ?thesis
    using vault_collects_its_position [OF st' ms] by (fastforce simp: sample_env_def)
qed

text \<open>Deposits are counted exactly: a successful deposit, which only its payer's signature
  allows, raises the vault's balance of its collateral and \<open>total_deposited\<close> by the same positive
  amount; withdrawals and collections leave the count alone.\<close>

theorem vault_deposit_is_counted:
  assumes "vault_deposit env from n st = Inr (r, st')" "sep41_at env (current_contract_address env)"
    and "from \<noteq> current_contract_address env" "total_deposited st = Some before"
  shows "\<exists>coll. vault_collateral st = Some coll \<and> authorized env from \<and> 0 < n
    \<and> total_deposited st' = Some (before + n)
    \<and> token_balance env coll (current_contract_address env) (vault_tokens st')
      = token_balance env coll (current_contract_address env) (vault_tokens st) + n"
proof -
  from assms(1,4) obtain coll where *: "vault_collateral st = Some coll" "authorized env from" "0 < n"
    "token_transfer env coll from (current_contract_address env) n (vault_tokens st) = Some (vault_tokens st')"
    "total_deposited st' = Some (before + n)"
    by (auto simp: vault_deposit_def res_simps Let_def)
  then show ?thesis using sep41_pay_in [OF assms(2) *(4) assms(3)] by blast
qed

lemma sample_deposit: "\<exists>r st'. vault_deposit (sample_env 0 0) 2 300 sample_vault = Inr (r, st')"
  by (simp add: vault_deposit_def vault_require_collateral_def require_auth_def sample_env_def
      sample_vault_def ledger_transfer_def Let_def i128_eval)

lemma vault_deposit_is_counted_witness:
  "\<exists>st' :: ledger vault_state. total_deposited st' = Some (700 + 300)"
proof -
  obtain r st' where "vault_deposit (sample_env 0 0) 2 300 sample_vault = Inr (r, st')"
    using sample_deposit by blast
  from vault_deposit_is_counted [OF this, of 700] show ?thesis
    using ledger_sep41 [of "sample_env 0 0" 1] by (auto simp: sample_env_def sample_vault_def)
qed

end
