(* ===== verification/Vault_Liquidity.thy ===== *)
theory Vault_Liquidity
  imports Vault Market_Settlement
begin

text \<open>
  The vault as the treasury of a market: the liquidity a market was seeded with goes back to the vault
  through the end of the market (\<open>settle\<close> or \<open>cancel\<close>, which hand the pools to the treasury) and the
  vault's own \<open>redeem_from_market\<close>.  The two contracts run on one ledger of tokens.
\<close>

section \<open>The two contracts on one ledger\<close>

text \<open>The state of the market at \<open>market_id\<close>, as its own calls see it.\<close>

definition market_at :: "'tok vault_state \<Rightarrow> Address \<Rightarrow> 'tok market_state \<Rightarrow> bool" where
  "market_at st market_id s \<longleftrightarrow> markets st market_id = Some (market_store.truncate s)
     \<and> vault_tokens st = tokens s"

lemma market_store_rebuild [simp]:
  "market_store.extend (market_store.truncate s) (market_state.fields (tokens s)) = s"
  by (simp add: market_store.defs market_state.defs)

text \<open>What a treasury's position is worth when the market ends: the pools, and the shares it held.\<close>

fun ended_value :: "MarketStatus \<Rightarrow> Market \<Rightarrow> (Prediction \<Rightarrow> Address \<Rightarrow> int) \<Rightarrow> int" where
  "ended_value ResolvedYes m h = pool_yes m + h Yes (treasury m)"
| "ended_value ResolvedNo m h = pool_no m + h No (treasury m)"
| "ended_value _ m h = (pool_yes m + h Yes (treasury m) + (pool_no m + h No (treasury m))) div 2"

text \<open>Both ends of a market hand the pools over.\<close>

lemma market_end_effect:
  assumes "market_exec env c s = Inr s'" "c = CallCancel \<or> c = CallSettle payload" "inst_market s = Some m"
  obtains m' where "inst_market s' = Some m'" "status m' \<noteq> Open" "status m = Open"
    "collateral m' = collateral m" "total_supply m' = total_supply m" "tokens s' = tokens s"
    "market_balance_of s' = add_shares (add_shares (market_balance_of s) Yes (treasury m) (pool_yes m))
      No (treasury m) (pool_no m)"
  using assms(2)
proof
  assume "c = CallCancel"
  then obtain r where "market_cancel env s = Inr (r, s')" using assms(1) by (auto simp: res_simps)
  from this show thesis by (rule market_cancel_effect) (use assms(3) in \<open>auto intro!: that\<close>)
next
  assume "c = CallSettle payload"
  then obtain r where "market_settle env payload s = Inr (r, s')" using assms(1) by (auto simp: res_simps)
  from this show thesis by (rule market_settle_effect) (use assms(3) in \<open>auto intro!: that split: if_splits\<close>)
qed

text \<open>C35: The vault gets its liquidity back.  When a market whose treasury is the vault ends, by settlement
  or cancellation, out of any state reached without a buyer who offers to receive a negative number of
  shares, the vault's admin can collect at once, given a token that honours funded transfers and a supply
  of at most half the \<open>i128\<close> range: the cross-contract call succeeds, pays the vault what the pool of the winning side (half of both pools, if cancelled) and
  the vault's own shares are worth, which is at least one unit, raises the vault's token balance by
  exactly that, and leaves its bookkeeping of deposits alone.\<close>

theorem vault_recovers_liquidity:
  assumes "(market_step chain)\<^sup>*\<^sup>* s0 s" "market_fresh s0" "inst_market s = Some m"
    and "treasury m = current_contract_address env"
    and "hosted chain menv" "market_exec menv c s = Inr s'" "c = CallCancel \<or> c = CallSettle payload"
    and "market_at st market_id s'" "vault_admin st = Some adm" "authorized env adm"
    and "hosted chain (callee_env env market_id)" "pays_when_funded (callee_env env market_id)"
      "sep41_at env (current_contract_address env)" "2 * total_supply m \<le> i128_max"
  shows "\<exists>m' st'. inst_market s' = Some m' \<and> 0 < ended_value (status m') m (market_balance_of s)
    \<and> vault_redeem_from_market env adm market_id st
        = Inr (ended_value (status m') m (market_balance_of s), st')
    \<and> token_balance env (collateral m) (current_contract_address env) (vault_tokens st')
        = token_balance env (collateral m) (current_contract_address env) (vault_tokens st)
          + ended_value (status m') m (market_balance_of s)
    \<and> total_deposited st' = total_deposited st"
proof -
  let ?self = "current_contract_address env" and ?h = "market_balance_of s"
  obtain m' where m': "inst_market s' = Some m'" "status m' \<noteq> Open" "status m = Open"
    "collateral m' = collateral m" "total_supply m' = total_supply m"
    "market_balance_of s' = add_shares (add_shares ?h Yes ?self (pool_yes m)) No ?self (pool_no m)"
    using market_end_effect [OF assms(6,7,3)] assms(4) by metis
  let ?v = "ended_value (status m') m ?h"
  have nn: "0 \<le> ?h p a" for p a
    using reach_facts(1) [OF assms(1-3)] by (simp add: book_ok_def book_view_def)
  have pools: "0 < pool_yes m" "0 < pool_no m"
    using open_book [OF reach_facts(1) [OF assms(1-3)] m'(3)] by simp_all
  have pay: "market_payout m' (market_balance_of s') ?self = ?v" and pos: "0 < ?v"
    using m'(2,6) assms(4) pools nn [of Yes ?self] nn [of No ?self]
    by (cases "status m'"; simp add: market_payout_def add_shares_apply sdiv_nonneg)+
  have careful: "careful c" using assms(7) by auto
  have reach: "(market_step chain)\<^sup>*\<^sup>* s0 s'"
    using assms(1) market_step.called [OF assms(5) careful assms(6)] by (rule rtranclp.rtrancl_into_rtrancl)
  have auth: "authorized (callee_env env market_id) ?self" by (simp add: callee_env_def)
  obtain u where "market_redeem (callee_env env market_id) ?self s' = Inr (?v, u)"
    using market_redeem_pays [OF reach assms(2) m'(1,2) assms(11,12) auth] assms(14) pos m'(5)
    unfolding pay by auto
  then have "\<exists>st'. vault_redeem_from_market env adm market_id st = Inr (?v, st')"
    using assms(8-10) by (simp add: vault_redeem_from_market_def client_redeem_def vault_require_admin_def require_auth_def market_at_def)
  then obtain st' where st': "vault_redeem_from_market env adm market_id st = Inr (?v, st')" ..
  have at: "markets st market_id = Some (market_store.truncate s')"
    using assms(8) by (simp add: market_at_def)
  have other: "market_id \<noteq> ?self"
    using hosted_facts(5) [OF assms(11) auth] by (simp add: callee_env_def)
  show ?thesis
    using st' at
  proof (rule vault_redeem_effect)
    fix k
    assume "inst_market (market_store.truncate s') = Some k"
      "token_transfer env (collateral k) market_id ?self ?v (vault_tokens st) = Some (vault_tokens st')"
      "total_deposited st' = total_deposited st"
    moreover from this have "collateral k = collateral m" using m'(1,4) by simp
    ultimately show ?thesis
      using sep41_pay_in [OF assms(13) _ other] m'(1) pos st' by auto
  qed
qed

text \<open>The sample market, whose treasury 11 is the vault.\<close>

definition vault_env :: "ledger Env" where
  "vault_env = (sample_env 2000000 0)\<lparr>current_contract_address := 11, authorized := (\<lambda>a. a \<noteq> 1 \<and> a \<noteq> 11)\<rparr>"

definition sample_treasury :: "ledger vault_state" where
  "sample_treasury = \<lparr>vault_admin = Some 10, vault_collateral = Some 5, total_deposited = Some 10000,
     vault_events = [], markets = [1 \<mapsto> market_store.truncate (sample_finished Cancelled 0 CancelEvent)],
     perps = Map.empty,
     vault_tokens = tokens (sample_finished Cancelled 0 CancelEvent)\<rparr>"

lemma vault_recovers_liquidity_witness:
  "\<exists>st'. vault_redeem_from_market vault_env 10 1 sample_treasury = Inr (10000, st')
    \<and> token_balance vault_env 5 11 (vault_tokens st') = token_balance vault_env 5 11 (vault_tokens sample_treasury) + 10000
    \<and> total_deposited st' = Some 10000"
proof -
  let ?m = "sample_market\<lparr>total_supply := 10300\<rparr>"
  have callee: "hosted (sample_env 0 0) (callee_env vault_env 1)" "pays_when_funded (callee_env vault_env 1)"
    using sample_pays [of 2000000 0]
    by (auto simp: hosted_def callee_env_def vault_env_def sample_env_def ledger_sep41 pays_when_funded_def)
  have "\<exists>m' st'. inst_market (sample_finished Cancelled 0 CancelEvent) = Some m'
    \<and> 0 < ended_value (status m') ?m (market_balance_of sample_traded)
    \<and> vault_redeem_from_market vault_env 10 1 sample_treasury
        = Inr (ended_value (status m') ?m (market_balance_of sample_traded), st')
    \<and> token_balance vault_env (collateral ?m) (current_contract_address vault_env) (vault_tokens st')
        = token_balance vault_env (collateral ?m) (current_contract_address vault_env) (vault_tokens sample_treasury)
          + ended_value (status m') ?m (market_balance_of sample_traded)
    \<and> total_deposited st' = total_deposited sample_treasury"
    by (rule vault_recovers_liquidity [OF sample_reach_traded sample_fresh_ok _ _ sample_hosted sample_cancel _ _ _ _ callee])
      (simp_all add: sample_traded_def sample_market_def vault_env_def market_at_def sample_treasury_def
        sample_env_fields ledger_sep41 i128_max_def)
  then show ?thesis
    by (auto simp: sample_finished_def sample_market_def market_balance_of_def sample_traded_def vault_env_def sample_treasury_def)
qed

end
