(* ===== verification/Polaris_System.thy ===== *)
theory Polaris_System
  imports Vault_Liquidity
begin

text \<open>
  The contracts together: any number of markets, perpetuals and vaults at their own addresses, which
  share the token contracts and one ledger.  A step of the system is a transaction with one contract
  (a vault's may go on to call a market or a perpetual), the deployment of a contract, a movement of
  tokens elsewhere, or the ageing of storage.  What one contract sees of the others is only the tokens,
  so every run of the system is, for each contract in it, a run of that contract's own state machine;
  the interface \<open>tenant\<close> states what this needs of a contract.
\<close>

section \<open>Payments\<close>

text \<open>What a call may do to the tokens: nothing, or one positive payment, out of the pocket of somebody
  who signed or of the called contract itself.\<close>

definition one_payment :: "'tok Env \<Rightarrow> 'tok \<Rightarrow> 'tok \<Rightarrow> bool" where
  "one_payment env t t' \<longleftrightarrow> t' = t \<or> (\<exists>c src dst n. 0 < n
     \<and> (authorized env src \<or> src = current_contract_address env)
     \<and> token_transfer env c src dst n t = Some t')"

lemma one_payment_same [simp]: "one_payment env t t"
  by (simp add: one_payment_def)

lemma one_paymentI:
  "token_transfer env c src dst n t = Some t' \<Longrightarrow> 0 < n \<Longrightarrow>
    authorized env src \<or> src = current_contract_address env \<Longrightarrow> one_payment env t t'"
  unfolding one_payment_def by blast

text \<open>A bystander, which neither signed nor was called, loses nothing.\<close>

lemma bystander_keeps:
  assumes "one_payment env t t'" "sep41_at env b" "\<not> authorized env b" "b \<noteq> current_contract_address env"
  shows "token_balance env c b t \<le> token_balance env c b t'"
proof (cases "t' = t")
  case False
  then obtain d src dst n where *: "0 < n" "authorized env src \<or> src = current_contract_address env"
    "token_transfer env d src dst n t = Some t'"
    using assms(1) unfolding one_payment_def by blast
  then have "b \<noteq> src" using assms(3,4) by auto
  with * assms(2) show ?thesis
    unfolding sep41_at_def by (cases "d = c") (fastforce split: if_splits)+
qed simp

lemma market_exec_pays:
  assumes "market_exec env c s = Inr t"
  shows "one_payment env (market_state.tokens s) (market_state.tokens t)"
  using assms
  by (cases c) (auto simp: res_simps elim!: market_initialize_effect market_split_effect market_merge_effect
      market_buy_effect market_sell_effect market_transfer_effect market_settle_effect
      market_cancel_effect market_redeem_effect intro: one_paymentI)

lemma perp_exec_pays:
  assumes "perp_exec env c s = Inr t"
  shows "one_payment env (perp_state.tokens s) (perp_state.tokens t)"
  using assms
  by (cases c) (auto simp: res_simps elim!: perp_initialize_effect perp_split_effect perp_merge_effect
      perp_buy_effect perp_sell_effect perp_transfer_effect perp_checkpoint_effect
      perp_terminate_effect perp_redeem_effect intro: one_paymentI)

section \<open>The interface of a contract in the system\<close>

text \<open>The environment at an address, and the states a machine reaches from a fresh one.\<close>

definition at_address :: "'tok Env \<Rightarrow> Address \<Rightarrow> 'tok Env" where
  "at_address net a = net\<lparr>current_contract_address := a, authorized := (\<lambda>_. False)\<rparr>"

lemma at_address_fields [simp]:
  "current_contract_address (at_address net a) = a" "authorized (at_address net a) b = False"
  "token_balance (at_address net a) = token_balance net"
  "token_transfer (at_address net a) = token_transfer net"
  by (simp_all add: at_address_def)

definition runs :: "('s \<Rightarrow> bool) \<Rightarrow> ('s \<Rightarrow> 's \<Rightarrow> bool) \<Rightarrow> 's \<Rightarrow> bool" where
  "runs fresh step s \<longleftrightarrow> (\<exists>s0. fresh s0 \<and> step\<^sup>*\<^sup>* s0 s)"

lemma runs_fresh: "fresh s \<Longrightarrow> runs fresh step s"
  unfolding runs_def by blast

lemma runs_step: "runs fresh step s \<Longrightarrow> step s t \<Longrightarrow> runs fresh step t"
  unfolding runs_def by (blast intro: rtranclp.rtrancl_into_rtrancl)

text \<open>A contract that can live beside others: its machine takes its calls and, as steps of the rest of
  the world, whatever lowers none of its balances, and a call pays once.\<close>

locale tenant =
  fixes step :: "'tok Env \<Rightarrow> 's \<Rightarrow> 's \<Rightarrow> bool"
    and exec :: "'tok Env \<Rightarrow> 'c \<Rightarrow> 's \<Rightarrow> ('e, 's) res" and polite :: "'c \<Rightarrow> bool"
    and purse :: "'s \<Rightarrow> 'tok" and repurse :: "'tok \<Rightarrow> 's \<Rightarrow> 's"
  assumes step_called: "hosted chain env \<Longrightarrow> polite c \<Longrightarrow> exec env c s = Inr t \<Longrightarrow> step chain s t"
    and step_elsewhere: "\<forall>c. token_balance chain c (current_contract_address chain) (purse s)
        \<le> token_balance chain c (current_contract_address chain) tk \<Longrightarrow> step chain s (repurse tk s)"
    and exec_pays: "exec env c s = Inr t \<Longrightarrow> one_payment env (purse s) (purse t)"
begin

lemma called_runs:
  assumes "runs fresh (step (at_address net a)) s" "hosted (at_address net a) env" "polite c"
    "exec env c s = Inr t"
  shows "runs fresh (step (at_address net a)) t"
  by (rule runs_step [OF assms(1) step_called [OF assms(2-4)]])

text \<open>A call of another contract is a step of the rest of the world.\<close>

lemma bystander_runs:
  assumes "runs fresh (step (at_address net a)) s"
    and "\<forall>c. token_balance net c a (purse s) \<le> token_balance net c a tk"
  shows "runs fresh (step (at_address net a)) (repurse tk s)"
  by (rule runs_step [OF assms(1) step_elsewhere]) (use assms(2) in simp)

lemma exec_spares:
  assumes "exec env c s = Inr t" "sep41_at env b" "\<not> authorized env b" "b \<noteq> current_contract_address env"
  shows "token_balance env d b (purse s) \<le> token_balance env d b (purse t)"
  by (rule bystander_keeps [OF exec_pays [OF assms(1)] assms(2-4)])

end

interpretation market_tenant: tenant market_step market_exec careful market_state.tokens
    "\<lambda>tk s. s\<lparr>market_state.tokens := tk\<rparr>"
  by unfold_locales (auto intro: market_step.intros market_exec_pays)

interpretation perp_tenant: tenant perp_step perp_exec perp_careful perp_state.tokens
    "\<lambda>tk s. s\<lparr>perp_state.tokens := tk\<rparr>"
  by unfold_locales (auto intro: perp_step.intros perp_exec_pays)

section \<open>The system\<close>

record 'tok polaris =
  sys_markets :: "Address \<rightharpoonup> market_store"
  sys_perps :: "Address \<rightharpoonup> perp_store"
  sys_vaults :: "Address \<rightharpoonup> vault_store"
  sys_tokens :: 'tok

definition genesis :: "'tok \<Rightarrow> 'tok polaris" where
  "genesis tk = \<lparr>sys_markets = Map.empty, sys_perps = Map.empty, sys_vaults = Map.empty, sys_tokens = tk\<rparr>"

definition deployed :: "'tok polaris \<Rightarrow> Address \<Rightarrow> bool" where
  "deployed w a \<longleftrightarrow> sys_markets w a \<noteq> None \<or> sys_perps w a \<noteq> None \<or> sys_vaults w a \<noteq> None"

text \<open>The storage of a contract that has been deployed and not yet initialised.\<close>

definition new_market :: market_store where
  "new_market = \<lparr>market_store.inst_market = None, market_store.inst_redstone = None,
     market_store.balances = Map.empty, market_store.inst_ttl = 0, market_store.balance_ttl = (\<lambda>_. 0),
     market_store.events = []\<rparr>"

definition new_perp :: perp_store where
  "new_perp = \<lparr>perp_store.inst_market = None, perp_store.inst_price_oracle = None,
     perp_store.balances = Map.empty, perp_store.inst_ttl = 0, perp_store.balance_ttl = (\<lambda>_. 0),
     perp_store.events = []\<rparr>"

definition new_vault :: vault_store where
  "new_vault = \<lparr>vault_admin = None, vault_collateral = None, total_deposited = None, vault_events = []\<rparr>"

text \<open>The state each contract's own calls see, and what the system keeps of the state they leave.\<close>

definition market_of :: "'tok polaris \<Rightarrow> market_store \<Rightarrow> 'tok market_state" where
  "market_of w ms = market_store.extend ms (market_state.fields (sys_tokens w))"

definition perp_of :: "'tok polaris \<Rightarrow> perp_store \<Rightarrow> 'tok perp_state" where
  "perp_of w ps = perp_store.extend ps (perp_state.fields (sys_tokens w))"

definition vault_of :: "'tok polaris \<Rightarrow> vault_store \<Rightarrow> 'tok vault_state" where
  "vault_of w vs = vault_store.extend vs (vault_state.fields (sys_markets w) (sys_perps w) (sys_tokens w))"

definition put_market :: "Address \<Rightarrow> 'tok market_state \<Rightarrow> 'tok polaris \<Rightarrow> 'tok polaris" where
  "put_market a s w = w\<lparr>sys_markets := (sys_markets w)(a \<mapsto> market_store.truncate s),
     sys_tokens := market_state.tokens s\<rparr>"

definition put_perp :: "Address \<Rightarrow> 'tok perp_state \<Rightarrow> 'tok polaris \<Rightarrow> 'tok polaris" where
  "put_perp a s w = w\<lparr>sys_perps := (sys_perps w)(a \<mapsto> perp_store.truncate s),
     sys_tokens := perp_state.tokens s\<rparr>"

definition put_vault :: "Address \<Rightarrow> 'tok vault_state \<Rightarrow> 'tok polaris \<Rightarrow> 'tok polaris" where
  "put_vault a v w = w\<lparr>sys_markets := markets v, sys_perps := perps v,
     sys_vaults := (sys_vaults w)(a \<mapsto> vault_store.truncate v), sys_tokens := vault_tokens v\<rparr>"

text \<open>A transaction with the contract at \<open>a\<close>: no deployed contract has a signer.\<close>

definition transacts :: "'tok Env \<Rightarrow> 'tok polaris \<Rightarrow> Address \<Rightarrow> 'tok Env \<Rightarrow> bool" where
  "transacts net w a env \<longleftrightarrow> current_contract_address env = a
     \<and> token_transfer env = token_transfer net \<and> token_balance env = token_balance net
     \<and> (\<forall>b. deployed w b \<longrightarrow> \<not> authorized env b)"

inductive polaris_step :: "'tok Env \<Rightarrow> 'tok polaris \<Rightarrow> 'tok polaris \<Rightarrow> bool" for net :: "'tok Env" where
  deploy_market: "\<not> deployed w a \<Longrightarrow>
    polaris_step net w (w\<lparr>sys_markets := (sys_markets w)(a \<mapsto> new_market)\<rparr>)"
| deploy_perp: "\<not> deployed w a \<Longrightarrow>
    polaris_step net w (w\<lparr>sys_perps := (sys_perps w)(a \<mapsto> new_perp)\<rparr>)"
| deploy_vault: "\<not> deployed w a \<Longrightarrow>
    polaris_step net w (w\<lparr>sys_vaults := (sys_vaults w)(a \<mapsto> new_vault)\<rparr>)"
| market_called: "sys_markets w a = Some ms \<Longrightarrow> transacts net w a env \<Longrightarrow> careful c \<Longrightarrow>
    market_exec env c (market_of w ms) = Inr s \<Longrightarrow> polaris_step net w (put_market a s w)"
| perp_called: "sys_perps w a = Some ps \<Longrightarrow> transacts net w a env \<Longrightarrow> perp_careful pc \<Longrightarrow>
    perp_exec env pc (perp_of w ps) = Inr p \<Longrightarrow> polaris_step net w (put_perp a p w)"
| vault_called: "sys_vaults w a = Some vs \<Longrightarrow> transacts net w a env \<Longrightarrow>
    vault_exec env vc (vault_of w vs) = Inr v \<Longrightarrow> polaris_step net w (put_vault a v w)"
| elsewhere: "\<forall>a c. deployed w a \<longrightarrow> token_balance net c a (sys_tokens w) \<le> token_balance net c a tk \<Longrightarrow>
    polaris_step net w (w\<lparr>sys_tokens := tk\<rparr>)"
| market_ageing: "sys_markets w a = Some ms \<Longrightarrow> polaris_step net w
    (w\<lparr>sys_markets := (sys_markets w)(a \<mapsto> ms\<lparr>market_store.inst_ttl := n, market_store.balance_ttl := f\<rparr>)\<rparr>)"
| perp_ageing: "sys_perps w a = Some ps \<Longrightarrow> polaris_step net w
    (w\<lparr>sys_perps := (sys_perps w)(a \<mapsto> ps\<lparr>perp_store.inst_ttl := n, perp_store.balance_ttl := f\<rparr>)\<rparr>)"

section \<open>Every contract runs its own machine\<close>

lemma market_of_simps [simp]:
  "market_state.tokens (market_of w ms) = sys_tokens w"
  "market_store.inst_market (market_of w ms) = market_store.inst_market ms"
  "market_store.truncate (market_of w ms) = ms"
  "market_of (put_market a s w) (market_store.truncate s) = s"
  by (simp_all add: market_of_def put_market_def market_store.defs market_state.defs)

lemma perp_of_simps [simp]:
  "perp_state.tokens (perp_of w ps) = sys_tokens w"
  "perp_store.inst_market (perp_of w ps) = perp_store.inst_market ps"
  "perp_store.truncate (perp_of w ps) = ps"
  "perp_of (put_perp a p w) (perp_store.truncate p) = p"
  by (simp_all add: perp_of_def put_perp_def perp_store.defs perp_state.defs)

lemma put_fields [simp]:
  "sys_markets (put_market a s w) = (sys_markets w)(a \<mapsto> market_store.truncate s)"
  "sys_perps (put_market a s w) = sys_perps w" "sys_vaults (put_market a s w) = sys_vaults w"
  "sys_tokens (put_market a s w) = market_state.tokens s"
  "sys_markets (put_perp a p w) = sys_markets w" "sys_vaults (put_perp a p w) = sys_vaults w"
  "sys_perps (put_perp a p w) = (sys_perps w)(a \<mapsto> perp_store.truncate p)"
  "sys_tokens (put_perp a p w) = perp_state.tokens p"
  "sys_markets (put_vault a v w) = markets v" "sys_perps (put_vault a v w) = perps v"
  "sys_vaults (put_vault a v w) = (sys_vaults w)(a \<mapsto> vault_store.truncate v)"
  "sys_tokens (put_vault a v w) = vault_tokens v"
  by (simp_all add: put_market_def put_perp_def put_vault_def)

lemma vault_of_simps [simp]:
  "markets (vault_of w vs) = sys_markets w" "perps (vault_of w vs) = sys_perps w"
  "vault_tokens (vault_of w vs) = sys_tokens w"
  "vault_admin (vault_of w vs) = vault_admin vs" "vault_collateral (vault_of w vs) = vault_collateral vs"
  "total_deposited (vault_of w vs) = total_deposited vs"
  by (simp_all add: vault_of_def vault_store.defs vault_state.defs)

text \<open>Another contract's state differs by the tokens only.\<close>

lemma market_of_elsewhere: "market_of w' ms = (market_of w ms)\<lparr>market_state.tokens := sys_tokens w'\<rparr>"
  by (simp add: market_of_def market_store.defs market_state.defs)

lemma perp_of_elsewhere: "perp_of w' ps = (perp_of w ps)\<lparr>perp_state.tokens := sys_tokens w'\<rparr>"
  by (simp add: perp_of_def perp_store.defs perp_state.defs)

definition polaris_ok :: "'tok Env \<Rightarrow> 'tok polaris \<Rightarrow> bool" where
  "polaris_ok net w \<longleftrightarrow>
     (\<forall>a ms. sys_markets w a = Some ms \<longrightarrow>
        runs market_fresh (market_step (at_address net a)) (market_of w ms))
   \<and> (\<forall>a ps. sys_perps w a = Some ps \<longrightarrow>
        runs perp_fresh (perp_step (at_address net a)) (perp_of w ps))
   \<and> (\<forall>a. sys_markets w a \<noteq> None \<longrightarrow> sys_perps w a = None \<and> sys_vaults w a = None)
   \<and> (\<forall>a. sys_perps w a \<noteq> None \<longrightarrow> sys_vaults w a = None)"

lemma polaris_okD:
  assumes "polaris_ok net w"
  shows "sys_markets w a = Some ms \<Longrightarrow> runs market_fresh (market_step (at_address net a)) (market_of w ms)"
    and "sys_perps w a = Some ps \<Longrightarrow> runs perp_fresh (perp_step (at_address net a)) (perp_of w ps)"
    and "sys_markets w a = Some ms \<Longrightarrow> sys_perps w a = None"
    and "sys_vaults w a = Some vs \<Longrightarrow> sys_markets w a = None \<and> sys_perps w a = None"
  using assms unfolding polaris_ok_def by (auto dest: spec [of _ a])

text \<open>A change of the tokens that lowers the balance of no market and no perpetual.\<close>

lemma polaris_ok_tokens:
  assumes "polaris_ok net w"
    and "\<forall>a c. sys_markets w a \<noteq> None \<or> sys_perps w a \<noteq> None \<longrightarrow>
      token_balance net c a (sys_tokens w) \<le> token_balance net c a tk"
  shows "polaris_ok net (w\<lparr>sys_tokens := tk\<rparr>)"
  using assms market_tenant.bystander_runs [of market_fresh net _ "market_of w _" tk]
    perp_tenant.bystander_runs [of perp_fresh net _ "perp_of w _" tk]
    market_of_elsewhere [of "w\<lparr>sys_tokens := tk\<rparr>" _ w] perp_of_elsewhere [of "w\<lparr>sys_tokens := tk\<rparr>" _ w]
  unfolding polaris_ok_def by simp

text \<open>A call of the market or the perpetual at \<open>a\<close>, in which no other of them signs.\<close>

lemma put_market_ok:
  assumes ok: "polaris_ok net w" and ms: "sys_markets w a = Some ms"
    and run: "hosted (at_address net a) env" "careful c" "market_exec env c (market_of w ms) = Inr s"
    and sep: "\<forall>b. sep41_at env b"
    and unsigned: "\<forall>b. sys_markets w b \<noteq> None \<or> sys_perps w b \<noteq> None \<longrightarrow> \<not> authorized env b"
  shows "polaris_ok net (put_market a s w)"
proof -
  have env: "current_contract_address env = a" "token_balance env = token_balance net"
    using run(1) by (simp_all add: hosted_def)
  have mine: "runs market_fresh (market_step (at_address net a)) s"
    using polaris_okD(1) [OF ok ms] run by (rule market_tenant.called_runs)
  have rest: "token_balance net d b (sys_tokens w) \<le> token_balance net d b (market_state.tokens s)"
    if "b \<noteq> a" "sys_markets w b \<noteq> None \<or> sys_perps w b \<noteq> None" for b d
    using market_tenant.exec_spares [OF run(3), of b d] that sep unsigned env by auto
  have "runs market_fresh (market_step (at_address net b)) (market_of (put_market a s w) k)"
    if "sys_markets w b = Some k" "b \<noteq> a" for b k
    using market_tenant.bystander_runs [OF polaris_okD(1) [OF ok that(1)]] rest that
    unfolding market_of_elsewhere [of "put_market a s w" k w] by simp
  moreover have "runs perp_fresh (perp_step (at_address net b)) (perp_of (put_market a s w) k)"
    if "sys_perps w b = Some k" for b k
    using perp_tenant.bystander_runs [OF polaris_okD(2) [OF ok that(1)]] rest [of b] that
      polaris_okD(3) [OF ok ms]
    unfolding perp_of_elsewhere [of "put_market a s w" k w] by (cases "b = a") simp_all
  ultimately show ?thesis
    using mine ok ms unfolding polaris_ok_def by (auto split: if_splits)
qed

lemma put_perp_ok:
  assumes ok: "polaris_ok net w" and ps: "sys_perps w a = Some ps"
    and run: "hosted (at_address net a) env" "perp_careful c" "perp_exec env c (perp_of w ps) = Inr s"
    and sep: "\<forall>b. sep41_at env b"
    and unsigned: "\<forall>b. sys_markets w b \<noteq> None \<or> sys_perps w b \<noteq> None \<longrightarrow> \<not> authorized env b"
  shows "polaris_ok net (put_perp a s w)"
proof -
  have env: "current_contract_address env = a" "token_balance env = token_balance net"
    using run(1) by (simp_all add: hosted_def)
  have mine: "runs perp_fresh (perp_step (at_address net a)) s"
    using polaris_okD(2) [OF ok ps] run by (rule perp_tenant.called_runs)
  have rest: "token_balance net d b (sys_tokens w) \<le> token_balance net d b (perp_state.tokens s)"
    if "b \<noteq> a" "sys_markets w b \<noteq> None \<or> sys_perps w b \<noteq> None" for b d
    using perp_tenant.exec_spares [OF run(3), of b d] that sep unsigned env by auto
  have "runs perp_fresh (perp_step (at_address net b)) (perp_of (put_perp a s w) k)"
    if "sys_perps w b = Some k" "b \<noteq> a" for b k
    using perp_tenant.bystander_runs [OF polaris_okD(2) [OF ok that(1)]] rest that
    unfolding perp_of_elsewhere [of "put_perp a s w" k w] by simp
  moreover have "runs market_fresh (market_step (at_address net b)) (market_of (put_perp a s w) k)"
    if "sys_markets w b = Some k" for b k
    using market_tenant.bystander_runs [OF polaris_okD(1) [OF ok that(1)]] rest [of b] that
      polaris_okD(3) [OF ok that] ps
    unfolding market_of_elsewhere [of "put_perp a s w" k w] by (cases "b = a") simp_all
  ultimately show ?thesis
    using mine ok ps unfolding polaris_ok_def by (auto split: if_splits)
qed

text \<open>A vault's call pays once and leaves the other contracts alone, or is a redemption at one of them,
  in which the vault signs.\<close>

lemma client_redeem_cases:
  assumes "client_redeem env b user v = Inr (payout, v')"
  obtains
    (market) ms s where "markets v b = Some ms" "vault_tokens v' = market_state.tokens s"
      "market_exec (callee_env env b) (market_call.CallRedeem user)
        (market_store.extend ms (market_state.fields (vault_tokens v))) = Inr s"
      "markets v' = (markets v)(b \<mapsto> market_store.truncate s)" "perps v' = perps v"
  | (perp) ps s where "perps v b = Some ps" "vault_tokens v' = perp_state.tokens s"
      "perp_exec (callee_env env b) (perp_call.CallRedeem user)
        (perp_store.extend ps (perp_state.fields (vault_tokens v))) = Inr s"
      "perps v' = (perps v)(b \<mapsto> perp_store.truncate s)" "markets v' = markets v"
  using assms by (auto simp: client_redeem_def res_simps split: option.splits)

lemma vault_exec_cases:
  assumes "vault_exec env c v = Inr v'"
  obtains
    (own) "markets v' = markets v" "perps v' = perps v"
      "one_payment env (vault_tokens v) (vault_tokens v')"
  | (redeem) adm b payout u where "c = CallRedeemFromMarket adm b"
      "client_redeem env b (current_contract_address env) v = Inr (payout, u)"
      "v' = u\<lparr>vault_events := vault_events u @ [MarketRedeemEvent b payout]\<rparr>"
proof -
  have "(markets v' = markets v \<and> perps v' = perps v \<and> one_payment env (vault_tokens v) (vault_tokens v'))
    \<or> (\<exists>adm b payout u. c = CallRedeemFromMarket adm b
      \<and> client_redeem env b (current_contract_address env) v = Inr (payout, u)
      \<and> v' = u\<lparr>vault_events := vault_events u @ [MarketRedeemEvent b payout]\<rparr>)"
    using assms
    by (cases c) (auto simp: res_simps Let_def not_le vault_initialize_def vault_deposit_def
        vault_withdraw_def vault_redeem_from_market_def intro: one_paymentI)
  then show thesis using own redeem by blast
qed

lemma transacts_hosted:
  assumes "transacts net w a env" "deployed w a" "\<forall>b. sep41_at net b"
  shows "hosted (at_address net a) env" "sep41_at env b"
  using assms by (simp_all add: transacts_def hosted_def sep41_at_def)

text \<open>In the call a vault at \<open>v\<close> makes, the vault signs and nothing else does.\<close>

lemma callee_hosted:
  assumes "transacts net w v env" "deployed w b" "\<forall>b. sep41_at net b" "b \<noteq> v"
  shows "hosted (at_address net b) (callee_env env b)" "sep41_at (callee_env env b) d"
    "deployed w d \<Longrightarrow> d \<noteq> v \<Longrightarrow> \<not> authorized (callee_env env b) d"
  using assms by (simp_all add: transacts_def hosted_def sep41_at_def callee_env_def)

text \<open>The vaults hold no shares and no supply: only where they stand matters.\<close>

lemma polaris_ok_vaults:
  assumes "polaris_ok net w" "sys_markets w' = sys_markets w" "sys_perps w' = sys_perps w"
    "sys_tokens w' = sys_tokens w" "dom (sys_vaults w') = dom (sys_vaults w)"
  shows "polaris_ok net w'"
proof -
  have "sys_vaults w' a = None \<longleftrightarrow> sys_vaults w a = None" for a using assms(5) by (metis domIff)
  then show ?thesis using assms by (simp add: polaris_ok_def market_of_def perp_of_def)
qed

lemma payment_ok:
  assumes ok: "polaris_ok net w" and vs: "sys_vaults w a = Some vs" and env: "transacts net w a env"
    and pay: "one_payment env (sys_tokens w) tk" and sep: "\<forall>b. sep41_at net b"
  shows "polaris_ok net (w\<lparr>sys_tokens := tk\<rparr>)"
proof (intro polaris_ok_tokens [OF ok] allI impI)
  fix b d assume at: "sys_markets w b \<noteq> None \<or> sys_perps w b \<noteq> None"
  have "deployed w a" using vs by (simp add: deployed_def)
  note spared = bystander_keeps [OF pay transacts_hosted(2) [OF env this sep], of b d]
  have "b \<noteq> a" "deployed w b" using at polaris_okD(4) [OF ok vs] by (auto simp: deployed_def)
  then show "token_balance net d b (sys_tokens w) \<le> token_balance net d b tk"
    using spared env by (simp add: transacts_def)
qed

text \<open>A collection by the vault at \<open>a\<close> is a call of the market or perpetual at \<open>b\<close>.\<close>

lemma collection_ok:
  assumes ok: "polaris_ok net w" and vs: "sys_vaults w a = Some vs" and env: "transacts net w a env"
    and run: "client_redeem env b a (vault_of w vs) = Inr (payout, v)" and sep: "\<forall>b. sep41_at net b"
  shows "polaris_ok net (w\<lparr>sys_markets := markets v, sys_perps := perps v, sys_tokens := vault_tokens v\<rparr>)"
proof -
  note apart = polaris_okD(4) [OF ok vs]
  have quiet: "\<forall>d. sys_markets w d \<noteq> None \<or> sys_perps w d \<noteq> None \<longrightarrow> \<not> authorized (callee_env env b) d"
    if "deployed w b" "b \<noteq> a"
  proof (intro allI impI)
    fix d assume "sys_markets w d \<noteq> None \<or> sys_perps w d \<noteq> None"
    then have "deployed w d" "d \<noteq> a" using apart by (auto simp: deployed_def)
    then show "\<not> authorized (callee_env env b) d"
      by (rule callee_hosted(3) [OF env that(1) sep that(2)])
  qed
  from run show ?thesis
  proof (cases rule: client_redeem_cases)
    case (market ms s)
    then have b: "sys_markets w b = Some ms" "deployed w b" "b \<noteq> a"
      using apart by (auto simp: deployed_def)
    note callee = callee_hosted [OF env b(2) sep b(3)]
    have "market_exec (callee_env env b) (market_call.CallRedeem a) (market_of w ms) = Inr s"
      using market(3) by (simp add: market_of_def)
    from put_market_ok [OF ok b(1) callee(1) _ this] have "polaris_ok net (put_market b s w)"
      using callee(2) quiet [OF b(2,3)] by simp
    then show ?thesis by (rule polaris_ok_vaults) (use market in simp_all)
  next
    case (perp ps s)
    then have b: "sys_perps w b = Some ps" "deployed w b" "b \<noteq> a"
      using apart by (auto simp: deployed_def)
    note callee = callee_hosted [OF env b(2) sep b(3)]
    have "perp_exec (callee_env env b) (perp_call.CallRedeem a) (perp_of w ps) = Inr s"
      using perp(3) by (simp add: perp_of_def)
    from put_perp_ok [OF ok b(1) callee(1) _ this] have "polaris_ok net (put_perp b s w)"
      using callee(2) quiet [OF b(2,3)] by simp
    then show ?thesis by (rule polaris_ok_vaults) (use perp in simp_all)
  qed
qed

lemma put_vault_ok:
  assumes ok: "polaris_ok net w" and vs: "sys_vaults w a = Some vs" and env: "transacts net w a env"
    and run: "vault_exec env c (vault_of w vs) = Inr v" and sep: "\<forall>b. sep41_at net b"
  shows "polaris_ok net (put_vault a v w)"
proof -
  have dom: "dom ((sys_vaults w)(a \<mapsto> vault_store.truncate v)) = dom (sys_vaults w)"
    using vs by auto
  have self: "current_contract_address env = a" using env by (simp add: transacts_def)
  from run show ?thesis
  proof (cases rule: vault_exec_cases)
    case own
    then have "polaris_ok net (w\<lparr>sys_tokens := vault_tokens v\<rparr>)"
      using payment_ok [OF ok vs env _ sep] by simp
    then show ?thesis by (rule polaris_ok_vaults) (use own dom in simp_all)
  next
    case (redeem adm b payout u)
    from redeem(2)[unfolded self] have "polaris_ok net
        (w\<lparr>sys_markets := markets u, sys_perps := perps u, sys_tokens := vault_tokens u\<rparr>)"
      by (rule collection_ok [OF ok vs env _ sep])
    then show ?thesis by (rule polaris_ok_vaults) (use redeem(3) dom in simp_all)
  qed
qed

lemma new_fresh: "market_fresh (market_of w new_market)" "perp_fresh (perp_of w new_perp)"
  by (simp_all add: market_fresh_def perp_fresh_def market_of_def perp_of_def new_market_def new_perp_def
      market_balance_of_def perp_balance_of_def market_store.defs perp_store.defs)

lemma aged_of:
  "market_of w (ms\<lparr>market_store.inst_ttl := n, market_store.balance_ttl := f\<rparr>)
    = (market_of w ms)\<lparr>market_store.inst_ttl := n, market_store.balance_ttl := f\<rparr>"
  "perp_of w (ps\<lparr>perp_store.inst_ttl := n, perp_store.balance_ttl := f\<rparr>)
    = (perp_of w ps)\<lparr>perp_store.inst_ttl := n, perp_store.balance_ttl := f\<rparr>"
  by (simp_all add: market_of_def perp_of_def market_store.defs perp_store.defs)

lemma of_same_tokens [simp]:
  "market_of (w\<lparr>sys_markets := M\<rparr>) = market_of w" "perp_of (w\<lparr>sys_markets := M\<rparr>) = perp_of w"
  "market_of (w\<lparr>sys_perps := P\<rparr>) = market_of w" "perp_of (w\<lparr>sys_perps := P\<rparr>) = perp_of w"
  "market_of (w\<lparr>sys_vaults := V\<rparr>) = market_of w" "perp_of (w\<lparr>sys_vaults := V\<rparr>) = perp_of w"
  by (simp_all add: market_of_def perp_of_def fun_eq_iff)

lemma deploy_ok:
  assumes "polaris_ok net w" "\<not> deployed w a"
  shows "polaris_ok net (w\<lparr>sys_markets := (sys_markets w)(a \<mapsto> new_market)\<rparr>)"
    and "polaris_ok net (w\<lparr>sys_perps := (sys_perps w)(a \<mapsto> new_perp)\<rparr>)"
    and "polaris_ok net (w\<lparr>sys_vaults := (sys_vaults w)(a \<mapsto> new_vault)\<rparr>)"
  using assms runs_fresh [of market_fresh, OF new_fresh(1)] runs_fresh [of perp_fresh, OF new_fresh(2)]
  unfolding polaris_ok_def deployed_def by auto

lemma ageing_ok:
  assumes "polaris_ok net w"
  shows "sys_markets w a = Some ms \<Longrightarrow> polaris_ok net (w\<lparr>sys_markets := (sys_markets w)
      (a \<mapsto> ms\<lparr>market_store.inst_ttl := n, market_store.balance_ttl := f\<rparr>)\<rparr>)"
    and "sys_perps w a = Some ps \<Longrightarrow> polaris_ok net (w\<lparr>sys_perps := (sys_perps w)
      (a \<mapsto> ps\<lparr>perp_store.inst_ttl := n, perp_store.balance_ttl := f\<rparr>)\<rparr>)"
  using assms runs_step [OF polaris_okD(1) [OF assms] market_step.ageing]
    runs_step [OF polaris_okD(2) [OF assms] perp_step.ageing]
  unfolding polaris_ok_def by (auto simp: aged_of)

lemma polaris_step_ok:
  assumes "polaris_step net w w'" "polaris_ok net w" and sep: "\<forall>a. sep41_at net a"
  shows "polaris_ok net w'"
  using assms(1)
proof cases
  case (market_called a ms env c s)
  have dep: "deployed w a" using market_called by (simp add: deployed_def)
  show ?thesis
    unfolding market_called(1)
    using transacts_hosted [OF market_called(3) dep sep] market_called
    by (intro put_market_ok [OF assms(2) market_called(2) _ market_called(4,5)])
      (auto simp: transacts_def deployed_def sep41_at_def)
next
  case (perp_called a ps env c s)
  have dep: "deployed w a" using perp_called by (simp add: deployed_def)
  show ?thesis
    unfolding perp_called(1)
    using transacts_hosted [OF perp_called(3) dep sep] perp_called
    by (intro put_perp_ok [OF assms(2) perp_called(2) _ perp_called(4,5)])
      (auto simp: transacts_def deployed_def sep41_at_def)
next
  case (vault_called a vs env c v)
  show ?thesis
    unfolding vault_called(1) by (rule put_vault_ok [OF assms(2) vault_called(2-4) sep])
next
  case (elsewhere tk)
  then show ?thesis using assms(2) by (auto simp: deployed_def intro: polaris_ok_tokens)
qed (use deploy_ok [OF assms(2)] ageing_ok [OF assms(2)] in simp_all)

lemma genesis_ok: "polaris_ok net (genesis tk)"
  by (simp add: polaris_ok_def genesis_def)

lemma reachable_ok:
  assumes "(polaris_step net)\<^sup>*\<^sup>* (genesis tk) w" "\<forall>a. sep41_at net a"
  shows "polaris_ok net w"
  using assms(1) by induction (auto intro: genesis_ok polaris_step_ok [OF _ _ assms(2)])

end
