(* ===== verification/Polaris_Custody.thy ===== *)
theory Polaris_Custody
  imports Polaris_System
begin

text \<open>
  What the whole system guarantees, as long as no buyer offers to receive a negative number of shares
  (the condition \<open>careful\<close> of every step): every market and every perpetual stays fully backed in the company
  of the others, whoever is owed something by an ended contract can collect it, directly or through the
  vault that holds it, and the capital of a vault leaves it by its admin's order alone.
\<close>

section \<open>Transactions with one signer\<close>

definition signed_by :: "'tok Env \<Rightarrow> Address \<Rightarrow> Address \<Rightarrow> 'tok Env" where
  "signed_by net a signer = (at_address net a)\<lparr>authorized := (\<lambda>x. x = signer)\<rparr>"

lemma signed_by_fields [simp]:
  "current_contract_address (signed_by net a x) = a" "authorized (signed_by net a x) y \<longleftrightarrow> y = x"
  "token_balance (signed_by net a x) = token_balance net"
  "token_transfer (signed_by net a x) = token_transfer net"
  by (simp_all add: signed_by_def)

lemma signed_transacts: "\<not> deployed w x \<Longrightarrow> transacts net w a (signed_by net a x)"
  by (auto simp: transacts_def)

section \<open>A sample system\<close>

text \<open>The cancelled market of the samples at address 1, whose treasury 11 is a vault with 700 units of
  user 12's money, and beside it an open perpetual at address 2.\<close>

definition sample_perp_store :: perp_store where
  "sample_perp_store = \<lparr>perp_store.inst_market = Some (sample_perp\<lparr>Perpetual.admin := 12,
       Perpetual.treasury := 13, Perpetual.pool_yes := 20000, Perpetual.pool_no := 20000,
       Perpetual.total_supply := 20000, Perpetual.initial_liquidity := 20000\<rparr>),
     perp_store.inst_price_oracle = None, perp_store.balances = Map.empty, perp_store.inst_ttl = 535680,
     perp_store.balance_ttl = (\<lambda>_. 0), perp_store.events = [perp_event.InitEvent 20000]\<rparr>"

definition sample_vault_store :: vault_store where
  "sample_vault_store = \<lparr>vault_admin = Some 10, vault_collateral = Some 5, total_deposited = Some 700,
     vault_events = [DepositEvent 12 700]\<rparr>"

definition sample_system :: "ledger polaris" where
  "sample_system = \<lparr>sys_markets = [1 \<mapsto> market_store.truncate (sample_finished Cancelled 0 CancelEvent)],
     sys_perps = [2 \<mapsto> sample_perp_store], sys_vaults = [11 \<mapsto> sample_vault_store],
     sys_tokens = (\<lambda>_ _. 0)(5 := (\<lambda>_. 0)(10 := 990000, 1 := 10300, 2 := 20000, 12 := 29000, 11 := 700))\<rparr>"

abbreviation sample_net :: "ledger Env" where
  "sample_net \<equiv> sample_env 0 0"

abbreviation sample_runs_to :: "ledger polaris \<Rightarrow> bool" where
  "sample_runs_to \<equiv> (polaris_step sample_net)\<^sup>*\<^sup>* (genesis sample_tokens)"

lemma sample_market_call:
  assumes "sample_runs_to w" "\<forall>b. deployed w b \<longrightarrow> b = 1" "sys_markets w 1 = Some ms" "market_of w ms = s"
    "market_exec (sample_env now px) c s = Inr t" "careful c"
  shows "sample_runs_to (put_market 1 t w)" "\<forall>b. deployed (put_market 1 t w) b \<longrightarrow> b = 1"
proof -
  have "transacts sample_net w 1 (sample_env now px)"
    using assms(2) by (auto simp: transacts_def sample_env_fields)
  from polaris_step.market_called [OF assms(3) this assms(6)] assms(1,4,5)
  show "sample_runs_to (put_market 1 t w)" by (auto intro: rtranclp.rtrancl_into_rtrancl)
  show "\<forall>b. deployed (put_market 1 t w) b \<longrightarrow> b = 1" using assms(2) by (auto simp: deployed_def)
qed

definition sample_ended_world :: "ledger polaris" where
  "sample_ended_world = (genesis (tokens sample_traded))
     \<lparr>sys_markets := [1 \<mapsto> market_store.truncate (sample_finished Cancelled 0 CancelEvent)]\<rparr>"

lemma sample_ended_reach: "sample_runs_to sample_ended_world"
proof -
  let ?w = "(genesis sample_tokens)\<lparr>sys_markets := [1 \<mapsto> new_market]\<rparr>"
  have "polaris_step sample_net (genesis sample_tokens) ?w"
    using polaris_step.deploy_market [of "genesis sample_tokens" 1 sample_net]
    by (simp add: genesis_def deployed_def)
  then have start: "sample_runs_to ?w" by (rule r_into_rtranclp)
  have only: "\<forall>b. deployed ?w b \<longrightarrow> b = 1" by (simp add: genesis_def deployed_def)
  have "market_of ?w new_market = sample_fresh"
    by (simp add: market_of_def new_market_def sample_fresh_def genesis_def market_store.defs market_state.defs)
  note a = sample_market_call [OF start only _ this sample_initialised]
  note b = sample_market_call [OF a _ market_of_simps(4) sample_split]
  note c = sample_market_call [OF b _ market_of_simps(4) sample_cancel]
  have "sample_runs_to (put_market 1 (sample_finished Cancelled 0 CancelEvent)
      (put_market 1 sample_traded (put_market 1 sample_open ?w)))"
    by (rule c(1)) (simp_all add: sample_init_def)
  moreover have "put_market 1 (sample_finished Cancelled 0 CancelEvent)
      (put_market 1 sample_traded (put_market 1 sample_open ?w)) = sample_ended_world"
    by (simp add: put_market_def sample_ended_world_def genesis_def sample_finished_def)
  ultimately show ?thesis by simp
qed

lemma sample_system_reach: "sample_runs_to sample_system"
proof -
  let ?e = sample_ended_world
  let ?p = "?e\<lparr>sys_perps := [2 \<mapsto> new_perp]\<rparr>"
  let ?q = "?e\<lparr>sys_perps := [2 \<mapsto> sample_perp_store], sys_tokens :=
    (\<lambda>_ _. 0)(5 := (\<lambda>_. 0)(10 := 990000, 12 := 29700, 1 := 10300, 2 := 20000))\<rparr>"
  let ?v = "?q\<lparr>sys_vaults := [11 \<mapsto> new_vault]\<rparr>"
  let ?d = "\<lparr>vault_admin = Some 10, vault_collateral = Some 5, total_deposited = Some 0, vault_events = []\<rparr>"
  let ?i = "?q\<lparr>sys_vaults := [11 \<mapsto> ?d]\<rparr>"
  note defs = sample_ended_world_def genesis_def deployed_def sample_traded_def
  have "polaris_step sample_net ?e ?p"
    using polaris_step.deploy_perp [of ?e 2 sample_net] by (simp add: defs)
  moreover have "polaris_step sample_net ?p ?q"
  proof -
    let ?s = "perp_store.extend sample_perp_store (perp_state.fields (sys_tokens ?q))"
    have "perp_exec (signed_by sample_net 2 12) (perp_call.CallInitialize 12 5 100 20 13 20000 None)
        (perp_of ?p new_perp) = Inr ?s"
      by (simp add: defs perp_initialize_def perp_eval perp_of_def new_perp_def sample_perp_store_def
          sample_perp_def perp_store.defs perp_state.defs sample_env_fields fun_eq_iff)
    from polaris_step.perp_called [OF _ signed_transacts _ this] show ?thesis
      by (simp add: put_perp_def perp_store.defs perp_state.defs defs sample_perp_store_def)
  qed
  moreover have "polaris_step sample_net ?q ?v"
    using polaris_step.deploy_vault [of ?q 11 sample_net] by (simp add: defs)
  moreover have "polaris_step sample_net ?v ?i"
    using polaris_step.vault_called [OF _ signed_transacts, of ?v 11 new_vault 10 sample_net "CallVaultInitialize 10 5"]
    by (simp add: defs vault_initialize_def require_auth_def vault_of_def put_vault_def new_vault_def
        vault_store.defs vault_state.defs discard_def)
  moreover have "polaris_step sample_net ?i sample_system"
    using polaris_step.vault_called [OF _ signed_transacts, of ?i 11 ?d 12 sample_net "CallDeposit 12 700"]
    by (simp add: defs vault_deposit_def vault_require_collateral_def require_auth_def vault_of_def
        put_vault_def sample_system_def sample_vault_store_def sample_env_fields ledger_transfer_def
        vault_store.defs vault_state.defs discard_def i128_eval Let_def)
  ultimately show ?thesis
    using sample_ended_reach by (meson rtranclp.rtrancl_into_rtrancl)
qed

lemma sample_sep41: "\<forall>a. sep41_at sample_net a"
  by (simp add: ledger_sep41 sample_env_fields)

section \<open>Every contract stays backed\<close>

lemma at_address_market:
  assumes "polaris_ok net w" "sys_markets w a = Some ms"
  obtains s0 where "market_fresh s0" "(market_step (at_address net a))\<^sup>*\<^sup>* s0 (market_of w ms)"
  using polaris_okD(1) [OF assms] unfolding runs_def by blast

lemma at_address_perp:
  assumes "polaris_ok net w" "sys_perps w a = Some ps"
  obtains s0 where "perp_fresh s0" "(perp_step (at_address net a))\<^sup>*\<^sup>* s0 (perp_of w ps)"
  using polaris_okD(2) [OF assms] unfolding runs_def by blast

lemma balance_of_simps [simp]:
  "market_balance_of (market_of w ms) = market_balance_of ms"
  "perp_balance_of (perp_of w ps) = perp_balance_of ps"
  by (simp_all add: market_of_def perp_of_def)

lemma market_backed:
  assumes "polaris_ok net w" "sys_markets w a = Some ms" "market_store.inst_market ms = Some m"
  shows "book_ok (book_view m (market_balance_of ms))"
    and "Market.total_supply m \<le> token_balance net (Market.collateral m) a (sys_tokens w)"
    and "0 \<le> market_balance_of ms p u"
    and "fsum (market_payout m (market_balance_of ms)) \<le> Market.total_supply m"
proof -
  obtain s0 where run: "market_fresh s0" "(market_step (at_address net a))\<^sup>*\<^sup>* s0 (market_of w ms)"
    using at_address_market [OF assms(1,2)] by blast
  have "market_store.inst_market (market_of w ms) = Some m" using assms(3) by simp
  from reach_facts [OF run(2,1) this] this
  show ok: "book_ok (book_view m (market_balance_of ms))"
    and "Market.total_supply m \<le> token_balance net (Market.collateral m) a (sys_tokens w)"
    and "fsum (market_payout m (market_balance_of ms)) \<le> Market.total_supply m"
    by (simp_all add: market_collateral_def)
  show "0 \<le> market_balance_of ms p u" using ok by (simp add: book_ok_def book_view_def)
qed

lemma perp_backed:
  assumes "polaris_ok net w" "sys_perps w a = Some ps" "perp_store.inst_market ps = Some m"
  shows "book_ok (perp_book_view m (perp_balance_of ps))"
    and "Perpetual.total_supply m \<le> token_balance net (Perpetual.collateral m) a (sys_tokens w)"
    and "0 \<le> perp_balance_of ps p u"
    and "fsum (perp_payout m (perp_balance_of ps)) \<le> Perpetual.total_supply m"
proof -
  obtain s0 where run: "perp_fresh s0" "(perp_step (at_address net a))\<^sup>*\<^sup>* s0 (perp_of w ps)"
    using at_address_perp [OF assms(1,2)] by blast
  have "perp_store.inst_market (perp_of w ps) = Some m" using assms(3) by simp
  from perp_reach_facts [OF run(2,1) this] this
  show ok: "book_ok (perp_book_view m (perp_balance_of ps))"
    and "Perpetual.total_supply m \<le> token_balance net (Perpetual.collateral m) a (sys_tokens w)"
    and "fsum (perp_payout m (perp_balance_of ps)) \<le> Perpetual.total_supply m"
    by (simp_all add: perp_collateral_def)
  show "0 \<le> perp_balance_of ps p u" using ok by (simp add: book_ok_def perp_book_view_def)
qed

text \<open>C3: However many markets, perpetuals and vaults share a ledger, and however their transactions
  interleave (calls of any contract by anybody, a vault's calls of other contracts, deployments, token
  movements elsewhere, ageing storage; the one condition is that no buyer offers to receive a negative
  number of shares), every initialised market and every initialised perpetual stays solvent at the same
  time: no balance is negative, and what its holders can redeem together is at most its supply, which
  its own token balance covers.\<close>

theorem polaris_solvent:
  assumes "(polaris_step net)\<^sup>*\<^sup>* (genesis tk) w" "\<forall>a. sep41_at net a"
  shows "(\<forall>a ms m. sys_markets w a = Some ms \<and> market_store.inst_market ms = Some m \<longrightarrow>
      (\<forall>p u. 0 \<le> market_balance_of ms p u)
      \<and> fsum (market_payout m (market_balance_of ms)) \<le> Market.total_supply m
      \<and> Market.total_supply m \<le> token_balance net (Market.collateral m) a (sys_tokens w))
    \<and> (\<forall>a ps m. sys_perps w a = Some ps \<and> perp_store.inst_market ps = Some m \<longrightarrow>
      (\<forall>p u. 0 \<le> perp_balance_of ps p u)
      \<and> fsum (perp_payout m (perp_balance_of ps)) \<le> Perpetual.total_supply m
      \<and> Perpetual.total_supply m \<le> token_balance net (Perpetual.collateral m) a (sys_tokens w))"
  by (intro conjI allI impI; elim conjE)
    (auto intro: market_backed [OF reachable_ok [OF assms]] perp_backed [OF reachable_ok [OF assms]])

lemma polaris_solvent_witness:
  "(10300 :: int) \<le> ledger_balance 5 1 (sys_tokens sample_system)
    \<and> (20000 :: int) \<le> ledger_balance 5 2 (sys_tokens sample_system)
    \<and> fsum (market_payout (sample_market\<lparr>Market.total_supply := 10300, Market.pool_yes := 0,
        Market.pool_no := 0, Market.status := Cancelled, final_price := 0\<rparr>)
      (market_balance_of (sample_finished Cancelled 0 CancelEvent))) \<le> 10300"
proof -
  have "sys_markets sample_system 1 = Some (market_store.truncate (sample_finished Cancelled 0 CancelEvent))"
    "sys_perps sample_system 2 = Some sample_perp_store"
    by (simp_all add: sample_system_def)
  with polaris_solvent [OF sample_system_reach sample_sep41] show ?thesis
    by (fastforce simp: sample_finished_def sample_perp_store_def sample_market_def sample_perp_def sample_env_fields)
qed

section \<open>Whoever is owed can collect\<close>

text \<open>What the contract at \<open>a\<close> owes \<open>user\<close>, in which token; nothing while it is open.\<close>

definition owed :: "'tok polaris \<Rightarrow> Address \<Rightarrow> Address \<Rightarrow> (Address \<times> int) option" where
  "owed w a user = (case sys_markets w a of
      Some ms \<Rightarrow> map_option (\<lambda>m. (Market.collateral m, market_payout m (market_balance_of ms) user))
        (market_store.inst_market ms)
    | None \<Rightarrow> (case sys_perps w a of
        Some ps \<Rightarrow> map_option (\<lambda>m. (Perpetual.collateral m, perp_payout m (perp_balance_of ps) user))
          (perp_store.inst_market ps)
      | None \<Rightarrow> None))"

definition supply_at :: "'tok polaris \<Rightarrow> Address \<Rightarrow> int" where
  "supply_at w a = (case sys_markets w a of
      Some ms \<Rightarrow> (case market_store.inst_market ms of None \<Rightarrow> 0 | Some m \<Rightarrow> Market.total_supply m)
    | None \<Rightarrow> (case sys_perps w a of
        Some ps \<Rightarrow> (case perp_store.inst_market ps of None \<Rightarrow> 0 | Some m \<Rightarrow> Perpetual.total_supply m)
      | None \<Rightarrow> 0))"

text \<open>Who can ask for a redemption: an account, by signing, or a vault, by its admin's signature.\<close>

definition can_claim :: "'tok polaris \<Rightarrow> Address \<Rightarrow> bool" where
  "can_claim w user \<longleftrightarrow> \<not> deployed w user \<or> (\<exists>vs adm. sys_vaults w user = Some vs
     \<and> vault_admin vs = Some adm \<and> \<not> deployed w adm)"

lemma claim_route:
  assumes at: "deployed w a" "sys_vaults w a = None" and claim: "can_claim w user"
    and sep: "\<forall>a. sep41_at net a"
  obtains
    (direct) env where "transacts net w a env" "hosted (at_address net a) env" "authorized env user"
  | (vault) vs adm env where "sys_vaults w user = Some vs" "vault_admin vs = Some adm"
      "transacts net w user env" "authorized env adm" "hosted (at_address net a) (callee_env env a)"
      "authorized (callee_env env a) user" "current_contract_address env = user"
proof (cases "deployed w user")
  case False
  note tx = signed_transacts [OF False, of net a]
  show thesis by (rule direct [OF tx transacts_hosted(1) [OF tx at(1) sep]]) simp
next
  case True
  then obtain vs adm where v: "sys_vaults w user = Some vs" "vault_admin vs = Some adm" "\<not> deployed w adm"
    using claim by (auto simp: can_claim_def)
  then have "a \<noteq> user" using at(2) by auto
  note tx = signed_transacts [OF v(3), of net user]
  show thesis
    by (rule vault [OF v(1,2) tx _ callee_hosted(1) [OF tx at(1) sep \<open>a \<noteq> user\<close>]])
      (simp_all add: callee_env_def)
qed

text \<open>A redemption that succeeds in every environment its holder signs is a step of the system.\<close>

lemma market_collect_step:
  assumes ok: "polaris_ok net w" and ms: "sys_markets w a = Some ms" and claim: "can_claim w user"
    and sep: "\<forall>a. sep41_at net a"
    and run: "\<And>env. hosted (at_address net a) env \<Longrightarrow> authorized env user \<Longrightarrow>
      \<exists>s. market_redeem env user (market_of w ms) = Inr (pay, s)"
  obtains w' env s where "polaris_step net w w'" "hosted (at_address net a) env" "authorized env user"
    "market_redeem env user (market_of w ms) = Inr (pay, s)"
    "sys_markets w' = (sys_markets w)(a \<mapsto> market_store.truncate s)" "sys_perps w' = sys_perps w"
    "sys_tokens w' = market_state.tokens s"
proof -
  have at: "deployed w a" "sys_vaults w a = None"
    using ms ok by (auto simp: deployed_def polaris_ok_def)
  show thesis
    using at claim sep
  proof (cases rule: claim_route)
    case (direct env)
    obtain s where s: "market_redeem env user (market_of w ms) = Inr (pay, s)"
      using run [OF direct(2,3)] by blast
    then have "polaris_step net w (put_market a s w)"
      by (intro polaris_step.market_called [OF ms direct(1), where c = "market_call.CallRedeem user"])
        (simp_all add: discard_def)
    from that [OF this direct(2,3) s] show thesis by simp
  next
    case (vault vs adm env)
    obtain s where s: "market_redeem (callee_env env a) user (market_of w ms) = Inr (pay, s)"
      using run [OF vault(5,6)] by blast
    then have "\<exists>v. vault_exec env (CallRedeemFromMarket adm a) (vault_of w vs) = Inr v
        \<and> markets v = (sys_markets w)(a \<mapsto> market_store.truncate s) \<and> perps v = sys_perps w
        \<and> vault_tokens v = market_state.tokens s"
      using vault ms by (simp add: vault_redeem_from_market_def client_redeem_def vault_require_admin_def
          require_auth_def market_of_def discard_def)
    then obtain v where v: "vault_exec env (CallRedeemFromMarket adm a) (vault_of w vs) = Inr v"
      "markets v = (sys_markets w)(a \<mapsto> market_store.truncate s)" "perps v = sys_perps w"
      "vault_tokens v = market_state.tokens s" by blast
    from that [OF polaris_step.vault_called [OF vault(1,3) v(1)] vault(5,6) s] v show thesis by simp
  qed
qed

lemma perp_collect_step:
  assumes ok: "polaris_ok net w" and ps: "sys_perps w a = Some ps" and claim: "can_claim w user"
    and sep: "\<forall>a. sep41_at net a"
    and run: "\<And>env. hosted (at_address net a) env \<Longrightarrow> authorized env user \<Longrightarrow>
      \<exists>s. perp_redeem env user (perp_of w ps) = Inr (pay, s)"
  obtains w' env s where "polaris_step net w w'" "hosted (at_address net a) env" "authorized env user"
    "perp_redeem env user (perp_of w ps) = Inr (pay, s)"
    "sys_perps w' = (sys_perps w)(a \<mapsto> perp_store.truncate s)" "sys_markets w' = sys_markets w"
    "sys_tokens w' = perp_state.tokens s"
proof -
  have at: "deployed w a" "sys_vaults w a = None" and no_market: "sys_markets w a = None"
    using ps ok by (auto simp: deployed_def polaris_ok_def)
  show thesis
    using at claim sep
  proof (cases rule: claim_route)
    case (direct env)
    obtain s where s: "perp_redeem env user (perp_of w ps) = Inr (pay, s)"
      using run [OF direct(2,3)] by blast
    then have "polaris_step net w (put_perp a s w)"
      by (intro polaris_step.perp_called [OF ps direct(1), where pc = "perp_call.CallRedeem user"])
        (simp_all add: discard_def)
    from that [OF this direct(2,3) s] show thesis by simp
  next
    case (vault vs adm env)
    obtain s where s: "perp_redeem (callee_env env a) user (perp_of w ps) = Inr (pay, s)"
      using run [OF vault(5,6)] by blast
    then have "\<exists>v. vault_exec env (CallRedeemFromMarket adm a) (vault_of w vs) = Inr v
        \<and> perps v = (sys_perps w)(a \<mapsto> perp_store.truncate s) \<and> markets v = sys_markets w
        \<and> vault_tokens v = perp_state.tokens s"
      using vault ps no_market by (simp add: vault_redeem_from_market_def client_redeem_def
          vault_require_admin_def require_auth_def perp_of_def discard_def)
    then obtain v where v: "vault_exec env (CallRedeemFromMarket adm a) (vault_of w vs) = Inr v"
      "perps v = (sys_perps w)(a \<mapsto> perp_store.truncate s)" "markets v = sys_markets w"
      "vault_tokens v = perp_state.tokens s" by blast
    from that [OF polaris_step.vault_called [OF vault(1,3) v(1)] vault(5,6) s] v show thesis by simp
  qed
qed

lemma payout_dropped:
  "market_payout (m\<lparr>Market.total_supply := n\<rparr>) (drop_shares h user) u
    = (if u = user then 0 else market_payout m h u)"
  "perp_payout (k\<lparr>Perpetual.total_supply := n\<rparr>) (drop_shares h user) u
    = (if u = user then 0 else perp_payout k h u)"
  by (cases "Market.status m"; simp add: market_payout_def drop_shares_apply)
    (cases "Perpetual.status k"; simp add: perp_payout_def drop_shares_apply)

lemma hosted_paid:
  assumes "hosted (at_address net a) env" "authorized env user" "\<forall>a. sep41_at net a"
    "token_transfer env c a user n t = Some t'"
  shows "token_balance net c user t' = token_balance net c user t + n"
  using sep41_pay_in [of net user c a n t t'] hosted_facts(2,4,5) [OF assms(1)] assms by auto

lemma pays_when_funded_hosted:
  "pays_when_funded net \<Longrightarrow> hosted (at_address net a) env \<Longrightarrow> pays_when_funded env"
  by (simp add: pays_when_funded_def hosted_def)

lemma market_pays_holder:
  assumes ok: "polaris_ok net w" and ms: "sys_markets w a = Some ms" "market_store.inst_market ms = Some m"
    and owes: "0 < market_payout m (market_balance_of ms) user" "2 * Market.total_supply m \<le> i128_max"
    and net: "can_claim w user" "\<forall>a. sep41_at net a" "pays_when_funded net"
  shows "\<exists>w'. polaris_step net w w' \<and> owed w' a user = Some (Market.collateral m, 0)
    \<and> (\<forall>b u. (b, u) \<noteq> (a, user) \<longrightarrow> owed w' b u = owed w b u)
    \<and> token_balance net (Market.collateral m) user (sys_tokens w')
      = token_balance net (Market.collateral m) user (sys_tokens w)
        + market_payout m (market_balance_of ms) user"
proof -
  let ?h = "market_balance_of ms"
  obtain s0 where run: "market_fresh s0" "(market_step (at_address net a))\<^sup>*\<^sup>* s0 (market_of w ms)"
    using at_address_market [OF ok ms(1)] by blast
  have "Market.status m \<noteq> MarketStatus.Open" using owes(1) by (auto simp: market_payout_def)
  then have "\<exists>s. market_redeem env user (market_of w ms) = Inr (market_payout m ?h user, s)"
    if "hosted (at_address net a) env" "authorized env user" for env
    using market_redeem_pays [OF run(2,1) _ _ that(1) pays_when_funded_hosted [OF net(3) that(1)] that(2)]
      ms(2) owes by simp
  then obtain w' env s where w': "polaris_step net w w'" "hosted (at_address net a) env" "authorized env user"
    "market_redeem env user (market_of w ms) = Inr (market_payout m ?h user, s)"
    "sys_markets w' = (sys_markets w)(a \<mapsto> market_store.truncate s)" "sys_perps w' = sys_perps w"
    "sys_tokens w' = market_state.tokens s"
    by (rule market_collect_step [OF ok ms(1) net(1,2)]) blast+
  from w'(4) obtain tk where s: "market_store.inst_market s =
      Some (m\<lparr>Market.total_supply := Market.total_supply m - market_payout m ?h user\<rparr>)"
    "market_balance_of s = drop_shares ?h user" "market_state.tokens s = tk"
    "token_transfer env (Market.collateral m) (current_contract_address env) user
      (market_payout m ?h user) (sys_tokens w) = Some tk"
    by (rule market_redeem_effect) (use ms(2) in auto)
  have "current_contract_address env = a" using w'(2) by (simp add: hosted_def)
  then have "token_balance net (Market.collateral m) user (sys_tokens w')
      = token_balance net (Market.collateral m) user (sys_tokens w) + market_payout m ?h user"
    using hosted_paid [OF w'(2,3) net(2), of "Market.collateral m"] s(3,4) w'(7) by simp
  moreover have "owed w' a user = Some (Market.collateral m, 0)"
    using s by (simp add: owed_def w'(5) payout_dropped)
  moreover have "owed w' b u = owed w b u" if "(b, u) \<noteq> (a, user)" for b u
    using s that ms by (auto simp: owed_def w'(5,6) payout_dropped split: option.splits)
  ultimately show ?thesis using w'(1) by blast
qed

lemma perp_pays_holder:
  assumes ok: "polaris_ok net w" and ps: "sys_perps w a = Some ps" "perp_store.inst_market ps = Some m"
    and owes: "0 < perp_payout m (perp_balance_of ps) user" "2 * Perpetual.total_supply m \<le> i128_max"
    and net: "can_claim w user" "\<forall>a. sep41_at net a" "pays_when_funded net"
  shows "\<exists>w'. polaris_step net w w' \<and> owed w' a user = Some (Perpetual.collateral m, 0)
    \<and> (\<forall>b u. (b, u) \<noteq> (a, user) \<longrightarrow> owed w' b u = owed w b u)
    \<and> token_balance net (Perpetual.collateral m) user (sys_tokens w')
      = token_balance net (Perpetual.collateral m) user (sys_tokens w)
        + perp_payout m (perp_balance_of ps) user"
proof -
  let ?h = "perp_balance_of ps"
  have no_market: "sys_markets w a = None" using ok ps(1) by (auto simp: polaris_ok_def)
  obtain s0 where run: "perp_fresh s0" "(perp_step (at_address net a))\<^sup>*\<^sup>* s0 (perp_of w ps)"
    using at_address_perp [OF ok ps(1)] by blast
  have ended: "Perpetual.status m = Terminated"
    using owes(1) by (cases "Perpetual.status m") (simp_all add: perp_payout_def)
  have "0 \<le> ?h p user" for p by (rule perp_backed(3) [OF ok ps])
  from this [of Yes] this [of No] have half: "perp_payout m ?h user = (?h Yes user + ?h No user) div 2"
    using ended by (simp add: perp_payout_def sdiv_nonneg)
  then have "2 \<le> ?h Yes user + ?h No user" using owes(1) by linarith
  then have "\<exists>s. perp_redeem env user (perp_of w ps) = Inr (perp_payout m ?h user, s)"
    if "hosted (at_address net a) env" "authorized env user" for env
    using perp_redeem_pays [OF run(2,1) _ ended that(1) pays_when_funded_hosted [OF net(3) that(1)] that(2)]
      ps(2) owes(2) half by auto
  then obtain w' env s where w': "polaris_step net w w'" "hosted (at_address net a) env" "authorized env user"
    "perp_redeem env user (perp_of w ps) = Inr (perp_payout m ?h user, s)"
    "sys_perps w' = (sys_perps w)(a \<mapsto> perp_store.truncate s)" "sys_markets w' = sys_markets w"
    "sys_tokens w' = perp_state.tokens s"
    by (rule perp_collect_step [OF ok ps(1) net(1,2)]) blast+
  from w'(4) obtain tk where s: "perp_store.inst_market s =
      Some (m\<lparr>Perpetual.total_supply := Perpetual.total_supply m - perp_payout m ?h user\<rparr>)"
    "perp_balance_of s = drop_shares ?h user" "perp_state.tokens s = tk"
    "token_transfer env (Perpetual.collateral m) (current_contract_address env) user
      (perp_payout m ?h user) (sys_tokens w) = Some tk"
    by (rule perp_redeem_effect) (use ps(2) in auto)
  have "current_contract_address env = a" using w'(2) by (simp add: hosted_def)
  then have "token_balance net (Perpetual.collateral m) user (sys_tokens w')
      = token_balance net (Perpetual.collateral m) user (sys_tokens w) + perp_payout m ?h user"
    using hosted_paid [OF w'(2,3) net(2), of "Perpetual.collateral m"] s(3,4) w'(7) by simp
  moreover have "owed w' a user = Some (Perpetual.collateral m, 0)"
    using s no_market by (simp add: owed_def w'(5,6) payout_dropped)
  moreover have "owed w' b u = owed w b u" if "(b, u) \<noteq> (a, user)" for b u
    using s that ps no_market by (auto simp: owed_def w'(5,6) payout_dropped split: option.splits)
  ultimately show ?thesis using w'(1) by blast
qed

text \<open>C7: In every system reached by transactions in which no buyer offers to receive a negative number
  of shares, and in which the token honours funded transfers, whoever an ended contract owes something can have it in one more
  step, whatever the other contracts and holders did before: an account by redeeming itself, a vault by
  its admin's \<open>redeem_from_market\<close>, be the contract a market or a perpetual.  The step pays exactly what
  is owed, in the contract's collateral, settles that claim, and changes no other claim on any contract;
  so all claims of such a system can be collected, in any order, as long as twice the supply of the
  contract fits an \<open>i128\<close> and the claimant is an account or a vault whose admin is one.\<close>

theorem polaris_pays_every_holder:
  assumes "(polaris_step net)\<^sup>*\<^sup>* (genesis tk) w" "\<forall>a. sep41_at net a" "pays_when_funded net"
    and "owed w a user = Some (coll, pay)" "0 < pay" "2 * supply_at w a \<le> i128_max" "can_claim w user"
  shows "\<exists>w'. polaris_step net w w' \<and> owed w' a user = Some (coll, 0)
    \<and> (\<forall>b u. (b, u) \<noteq> (a, user) \<longrightarrow> owed w' b u = owed w b u)
    \<and> token_balance net coll user (sys_tokens w') = token_balance net coll user (sys_tokens w) + pay"
proof (cases "sys_markets w a")
  case (Some ms)
  with assms(4) obtain m where "market_store.inst_market ms = Some m" "coll = Market.collateral m"
    "pay = market_payout m (market_balance_of ms) user"
    by (auto simp: owed_def)
  then show ?thesis
    using market_pays_holder [OF reachable_ok [OF assms(1,2)] Some _ _ _ assms(7,2,3)] assms(5,6) Some
    by (simp add: supply_at_def)
next
  case None
  with assms(4) obtain ps m where ps: "sys_perps w a = Some ps" "perp_store.inst_market ps = Some m"
    "coll = Perpetual.collateral m" "pay = perp_payout m (perp_balance_of ps) user"
    by (auto simp: owed_def split: option.splits)
  then show ?thesis
    using perp_pays_holder [OF reachable_ok [OF assms(1,2)] ps(1) _ _ _ assms(7,2,3)] assms(5,6) None
    by (simp add: supply_at_def)
qed

text \<open>The vault at 11 collects the pools of the market at 1.\<close>

lemma polaris_pays_every_holder_witness:
  "\<exists>w'. polaris_step sample_net sample_system w' \<and> owed w' 1 11 = Some (5, 0)
    \<and> (\<forall>b u. (b, u) \<noteq> (1, 11) \<longrightarrow> owed w' b u = owed sample_system b u)
    \<and> token_balance sample_net 5 11 (sys_tokens w') = token_balance sample_net 5 11 (sys_tokens sample_system) + 10000"
proof (rule polaris_pays_every_holder [OF sample_system_reach sample_sep41 sample_pays])
  show "owed sample_system 1 11 = Some (5, 10000)" "2 * supply_at sample_system 1 \<le> i128_max"
    by (simp_all add: owed_def supply_at_def sample_system_def sample_finished_def sample_market_def
        market_payout_def market_balance_of_def i128_max_def)
  show "can_claim sample_system 11"
    by (simp add: can_claim_def deployed_def sample_system_def sample_vault_store_def)
qed simp

section \<open>The capital of a vault\<close>

lemma client_redeem_pays:
  assumes "client_redeem env b user v = Inr (payout, v')"
  shows "one_payment (callee_env env b) (vault_tokens v) (vault_tokens v')"
    and "markets v b \<noteq> None \<or> perps v b \<noteq> None"
proof -
  from assms show "one_payment (callee_env env b) (vault_tokens v) (vault_tokens v')"
    by (rule client_redeem_effect) (rule one_paymentI, auto simp: callee_env_def)
  from assms show "markets v b \<noteq> None \<or> perps v b \<noteq> None"
    by (rule client_redeem_cases) simp_all
qed

text \<open>No other contract's transaction lowers the tokens of a vault.\<close>

lemma other_call_spares:
  assumes "transacts net w b env" "deployed w a" "a \<noteq> b" "\<forall>a. sep41_at net a" "one_payment env t t'"
  shows "token_balance net c a t \<le> token_balance net c a t'"
  using bystander_keeps [OF assms(5), of a c] assms(1-4) by (simp add: transacts_def sep41_at_def)

lemma other_vault_spares:
  assumes "transacts net w b env" "vault_exec env vc (vault_of w vs) = Inr v" "sys_vaults w b = Some vs"
    and "sys_vaults w a = Some us" "a \<noteq> b" "polaris_ok net w" "\<forall>a. sep41_at net a"
  shows "token_balance net c a (sys_tokens w) \<le> token_balance net c a (vault_tokens v)"
proof -
  have dep: "deployed w a" "deployed w b" using assms(3,4) by (simp_all add: deployed_def)
  have env: "current_contract_address env = b" "\<not> authorized env a" "token_balance env = token_balance net"
    using assms(1) dep by (simp_all add: transacts_def)
  from assms(2) show ?thesis
  proof (cases rule: vault_exec_cases)
    case own
    then show ?thesis
      using bystander_keeps [OF own(3) transacts_hosted(2) [OF assms(1) dep(2) assms(7)]] env assms(5) by simp
  next
    case (redeem adm d payout u)
    have d: "d \<noteq> a" "d \<noteq> b" "deployed w d"
      using client_redeem_pays(2) [OF redeem(2)] polaris_okD(4) [OF assms(6)] assms(3,4)
      by (auto simp: deployed_def)
    note callee = callee_hosted [OF assms(1) d(3) assms(7) d(2)]
    show ?thesis
      using bystander_keeps [OF client_redeem_pays(1) [OF redeem(2)] callee(2)
          callee(3) [OF dep(1) assms(5)], of c] env(3) d(1) redeem(3)
      by (simp add: callee_env_def)
  qed
qed

text \<open>C33: Across the whole system, the capital of a vault moves at its admin's order alone: when any step
  (a call of any contract that is not a buy with a negative minimum, a call another vault makes, a deployment, a token movement elsewhere, ageing)
  lowers a vault's balance of some token, that step is the vault's own \<open>withdraw\<close>, signed by the admin
  it stores, of its own collateral, and the balance falls by exactly the amount.\<close>

theorem polaris_vault_capital:
  assumes "(polaris_step net)\<^sup>*\<^sup>* (genesis tk) w" "\<forall>a. sep41_at net a"
    and "polaris_step net w w'" "sys_vaults w a = Some vs"
    and "token_balance net c a (sys_tokens w') < token_balance net c a (sys_tokens w)"
  shows "\<exists>env adm dst n v. transacts net w a env \<and> vault_admin vs = Some adm \<and> authorized env adm
    \<and> vault_collateral vs = Some c \<and> 0 < n
    \<and> vault_exec env (CallWithdraw adm dst n) (vault_of w vs) = Inr v \<and> w' = put_vault a v w
    \<and> token_balance net c a (sys_tokens w') = token_balance net c a (sys_tokens w) - n"
proof -
  have ok: "polaris_ok net w" by (rule reachable_ok [OF assms(1,2)])
  have dep: "deployed w a" using assms(4) by (simp add: deployed_def)
  note apart = polaris_okD(4) [OF ok assms(4)]
  from assms(3) show ?thesis
  proof cases
    case (market_called b ms env k s)
    then have "a \<noteq> b" using apart by auto
    from other_call_spares [OF market_called(3) dep this assms(2) market_exec_pays [OF market_called(5)], of c]
    show ?thesis using market_called(1) assms(5) by simp
  next
    case (perp_called b ps env k s)
    then have "a \<noteq> b" using apart by auto
    from other_call_spares [OF perp_called(3) dep this assms(2) perp_exec_pays [OF perp_called(5)], of c]
    show ?thesis using perp_called(1) assms(5) by simp
  next
    case (vault_called b us env k v)
    then have "b = a" using other_vault_spares [OF _ _ _ assms(4) _ ok assms(2), of b env k us v c] assms(5)
      by fastforce
    then have "us = vs" using vault_called(2) assms(4) by simp
    have env: "current_contract_address env = a" "token_balance env = token_balance net"
      "\<not> authorized env a" "sep41_at env a"
      using vault_called(3) \<open>b = a\<close> dep assms(2) by (simp_all add: transacts_def sep41_at_def)
    obtain adm dst n where "k = CallWithdraw adm dst n" "vault_admin vs = Some adm" "authorized env adm"
      "vault_collateral vs = Some c" "0 < n"
      "token_balance net c a (vault_tokens v) = token_balance net c a (sys_tokens w) - n"
      using vault_outflow_needs_admin [OF vault_called(4), of c] env assms(5) vault_called(1) \<open>us = vs\<close> by auto
    then show ?thesis using vault_called \<open>b = a\<close> \<open>us = vs\<close> by fastforce
  next
    case (elsewhere tk)
    then have "token_balance net c a (sys_tokens w) \<le> token_balance net c a tk" using dep by blast
    then show ?thesis using elsewhere(1) assms(5) by simp
  qed (use assms(5) in simp_all)
qed

lemma polaris_vault_capital_witness:
  "\<exists>w' env adm dst n v. transacts sample_net sample_system 11 env \<and> vault_admin sample_vault_store = Some adm
    \<and> authorized env adm \<and> vault_collateral sample_vault_store = Some 5 \<and> 0 < n
    \<and> vault_exec env (CallWithdraw adm dst n) (vault_of sample_system sample_vault_store) = Inr v
    \<and> w' = put_vault 11 v sample_system
    \<and> token_balance sample_net 5 11 (sys_tokens w')
      = token_balance sample_net 5 11 (sys_tokens sample_system) - n"
proof -
  let ?env = "signed_by sample_net 11 10"
  have vs: "sys_vaults sample_system 11 = Some sample_vault_store" by (simp add: sample_system_def)
  have "\<exists>v. vault_exec ?env (CallWithdraw 10 12 200) (vault_of sample_system sample_vault_store) = Inr v
      \<and> vault_tokens v 5 11 = 500"
    by (simp add: vault_withdraw_def vault_require_admin_def vault_require_collateral_def require_auth_def
        vault_of_def sample_system_def sample_vault_store_def sample_env_fields ledger_transfer_def
        vault_store.defs vault_state.defs discard_def Let_def)
  then obtain v where v: "vault_exec ?env (CallWithdraw 10 12 200) (vault_of sample_system sample_vault_store) = Inr v"
    "vault_tokens v 5 11 = 500" by blast
  have step: "polaris_step sample_net sample_system (put_vault 11 v sample_system)"
    by (rule polaris_step.vault_called [OF vs signed_transacts v(1)]) (simp add: deployed_def sample_system_def)
  have "token_balance sample_net 5 11 (sys_tokens (put_vault 11 v sample_system))
      < token_balance sample_net 5 11 (sys_tokens sample_system)"
    using v(2) by (simp add: sample_env_fields ledger_balance_def sample_system_def)
  from polaris_vault_capital [OF sample_system_reach sample_sep41 step vs this] show ?thesis by blast
qed

end
