(* ===== verification/Polaris_Ownership.thy ===== *)
theory Polaris_Ownership
  imports Polaris_Custody Market_Trading
begin

text \<open>
  Who can take shares from whom, in the whole system: outcome shares leave an address by that address's
  own signature, and a vault's by the order of its admin.
\<close>

section \<open>Shares\<close>

text \<open>The shares of outcome \<open>p\<close> that \<open>u\<close> holds at the contract at \<open>a\<close>.\<close>

definition shares_at :: "'tok polaris \<Rightarrow> Address \<Rightarrow> Prediction \<Rightarrow> Address \<Rightarrow> int" where
  "shares_at w a p u = (case sys_markets w a of
      Some ms \<Rightarrow> market_balance_of ms p u
    | None \<Rightarrow> (case sys_perps w a of Some ps \<Rightarrow> perp_balance_of ps p u | None \<Rightarrow> 0))"

lemma shares_elsewhere:
  "sys_markets w' a = sys_markets w a \<Longrightarrow> sys_perps w' a = sys_perps w a \<Longrightarrow> shares_at w' a = shares_at w a"
  by (simp add: shares_at_def fun_eq_iff split: option.splits)

lemma shares_at_market [simp]: "sys_markets w a = Some ms \<Longrightarrow> shares_at w a = market_balance_of ms"
  by (simp add: shares_at_def fun_eq_iff)

lemma shares_at_perp: "sys_markets w a = None \<Longrightarrow> sys_perps w a = Some ps \<Longrightarrow> shares_at w a = perp_balance_of ps"
  by (simp add: shares_at_def fun_eq_iff)

lemma shares_undeployed: "\<not> deployed w a \<Longrightarrow> shares_at w a p u = 0"
  by (simp add: shares_at_def deployed_def)

lemma new_balances [simp]: "market_balance_of new_market p u = 0" "perp_balance_of new_perp p u = 0"
  by (simp_all add: new_market_def new_perp_def market_balance_of_def perp_balance_of_def)

lemma aged_balances [simp]:
  "market_balance_of (ms\<lparr>market_store.inst_ttl := n, market_store.balance_ttl := f\<rparr>) = market_balance_of ms"
  "perp_balance_of (ps\<lparr>perp_store.inst_ttl := n, perp_store.balance_ttl := f\<rparr>) = perp_balance_of ps"
  by (simp_all add: market_balance_of_def perp_balance_of_def fun_eq_iff)

text \<open>A deployment creates no shares and touches none.\<close>

lemma deployed_shares:
  "\<not> deployed w b \<Longrightarrow> shares_at (w\<lparr>sys_markets := (sys_markets w)(b \<mapsto> new_market)\<rparr>) a p u = shares_at w a p u"
  "\<not> deployed w b \<Longrightarrow> shares_at (w\<lparr>sys_perps := (sys_perps w)(b \<mapsto> new_perp)\<rparr>) a p u = shares_at w a p u"
  by (auto simp: shares_at_def deployed_def split: option.splits)

lemma market_run_loss:
  assumes "polaris_ok net w" "sys_markets w a = Some ms" "market_exec env c (market_of w ms) = Inr s"
    and "market_balance_of s p u < market_balance_of ms p u"
  shows "authorized env u"
proof -
  obtain s0 where "market_fresh s0" "(market_step (at_address net a))\<^sup>*\<^sup>* s0 (market_of w ms)"
    using at_address_market [OF assms(1,2)] by blast
  from loss_is_authorised [OF this(2,1) assms(3)] assms(4) show ?thesis by simp
qed

lemma perp_run_loss:
  assumes "polaris_ok net w" "sys_perps w a = Some ps" "perp_exec env c (perp_of w ps) = Inr s"
    and "perp_balance_of s p u < perp_balance_of ps p u"
  shows "authorized env u"
proof -
  obtain s0 where "perp_fresh s0" "(perp_step (at_address net a))\<^sup>*\<^sup>* s0 (perp_of w ps)"
    using at_address_perp [OF assms(1,2)] by blast
  from perp_loss_authorised [OF this(2,1) assms(3)] assms(4) show ?thesis by simp
qed

text \<open>A collection takes the caller's shares alone, at the contract it names alone.\<close>

lemma client_redeem_takes:
  assumes "client_redeem env b user (vault_of w vs) = Inr (payout, v)"
    and "shares_at (put_vault x v w) a p u < shares_at w a p u" "polaris_ok net w"
  shows "a = b \<and> u = user"
  using assms(1)
proof (cases rule: client_redeem_cases)
  case (market ms s)
  then obtain r where "market_redeem (callee_env env b) user (market_of w ms) = Inr (r, s)"
    by (auto simp: res_simps market_of_def)
  then have "market_balance_of s = drop_shares (market_balance_of ms) user"
    by (rule market_redeem_effect) simp
  then show ?thesis
    using market assms(2) shares_elsewhere [of "put_vault x v w" a w]
    by (cases "a = b") (auto simp: drop_shares_apply split: if_splits)
next
  case (perp ps s)
  then obtain r where "perp_redeem (callee_env env b) user (perp_of w ps) = Inr (r, s)"
    by (auto simp: res_simps perp_of_def)
  then have "perp_balance_of s = drop_shares (perp_balance_of ps) user"
    by (rule perp_redeem_effect) simp
  moreover have "sys_markets w b = None" using assms(3) perp(1) by (auto simp: polaris_ok_def)
  ultimately show ?thesis
    using perp assms(2) shares_elsewhere [of "put_vault x v w" a w]
      shares_at_perp [of "put_vault x v w" b] shares_at_perp [of w b]
    by (cases "a = b") (auto simp: drop_shares_apply split: if_splits)
qed

text \<open>C34: In the whole system shares leave an address at the will of that address alone: when any step
  (no buy with a negative minimum among them) lowers what an address holds at any market or perpetual, the step is a transaction with that very
  contract which the address signed, or the address is a vault and the step is its own
  \<open>redeem_from_market\<close> there, signed by the admin it stores.  No vault, no other market and no
  deployment can reach into a holder's position.\<close>

theorem polaris_loss_is_authorised:
  assumes "(polaris_step net)\<^sup>*\<^sup>* (genesis tk) w" "\<forall>a. sep41_at net a"
    and "polaris_step net w w'" "shares_at w' a p u < shares_at w a p u"
  shows "\<exists>env. (transacts net w a env \<and> authorized env u)
    \<or> (\<exists>vs adm v. sys_vaults w u = Some vs \<and> vault_admin vs = Some adm \<and> transacts net w u env
        \<and> authorized env adm \<and> vault_exec env (CallRedeemFromMarket adm a) (vault_of w vs) = Inr v
        \<and> w' = put_vault u v w)"
proof -
  have ok: "polaris_ok net w" by (rule reachable_ok [OF assms(1,2)])
  have same: "shares_at w' a = shares_at w a \<Longrightarrow> False" using assms(4) by simp
  from assms(3) show ?thesis
  proof cases
    case (market_called b ms env c s)
    have "a = b" using same shares_elsewhere [of w' a w] market_called(1) by (cases "a = b") auto
    then have "authorized env u"
      using market_run_loss [OF ok market_called(2,5)] assms(4) market_called(1,2) by simp
    then show ?thesis using market_called(3) \<open>a = b\<close> by blast
  next
    case (perp_called b ps env c s)
    have "a = b" using same shares_elsewhere [of w' a w] perp_called(1) by (cases "a = b") auto
    moreover have "sys_markets w b = None" using ok perp_called(2) by (auto simp: polaris_ok_def)
    ultimately have "authorized env u"
      using perp_run_loss [OF ok perp_called(2,5)] assms(4) perp_called(1,2)
        shares_at_perp [of w b ps] shares_at_perp [of w' b] by simp
    then show ?thesis using perp_called(3) \<open>a = b\<close> by blast
  next
    case (vault_called b vs env c v)
    note self = vault_called(3) [unfolded transacts_def, THEN conjunct1]
    from vault_called(4) show ?thesis
    proof (cases rule: vault_exec_cases)
      case own
      then show ?thesis using same shares_elsewhere [of w' a w] vault_called(1) by simp
    next
      case (redeem adm d payout x)
      have "shares_at (put_vault b x w) a p u < shares_at w a p u"
        using assms(4) vault_called(1) redeem(3) shares_elsewhere [of w' a "put_vault b x w"] by simp
      from client_redeem_takes [OF redeem(2) this ok] have "a = d" "u = b" using self by simp_all
      moreover have "vault_admin vs = Some adm" "authorized env adm"
        using vault_called(4) redeem(1) by (auto simp: vault_redeem_from_market_def res_simps)
      ultimately show ?thesis using vault_called redeem(1) by blast
    qed
  next
    case (market_ageing b ms n f)
    then show ?thesis using same shares_elsewhere [of w' a w] by (cases "a = b") auto
  next
    case (perp_ageing b ps n f)
    then have "shares_at w' a = shares_at w a"
      using ok by (cases "a = b") (auto simp: shares_at_def fun_eq_iff split: option.splits)
    then show ?thesis using same by simp
  qed (use assms(4) deployed_shares [of w] shares_elsewhere [of w' a w] in auto)
qed

text \<open>User 12 gives 100 of its shares of the cancelled market to user 13.\<close>

lemma polaris_loss_is_authorised_witness:
  "\<exists>env. transacts sample_net sample_system 1 env \<and> authorized env 12"
proof -
  let ?ms = "market_store.truncate (sample_finished Cancelled 0 CancelEvent)"
  let ?env = "signed_by sample_net 1 12"
  have ms: "sys_markets sample_system 1 = Some ?ms" by (simp add: sample_system_def)
  have "\<exists>s. market_exec ?env (market_call.CallTransfer 12 13 Yes 100) (market_of sample_system ?ms) = Inr s
      \<and> market_balance_of s Yes 12 = 200"
    by (simp add: market_transfer_def market_eval market_of_def sample_finished_def sample_market_def
        market_store.defs market_state.defs i128_eval)
  then obtain s where s: "market_exec ?env (market_call.CallTransfer 12 13 Yes 100)
      (market_of sample_system ?ms) = Inr s" "market_balance_of s Yes 12 = 200" by blast
  have "polaris_step sample_net sample_system (put_market 1 s sample_system)"
    by (rule polaris_step.market_called [OF ms signed_transacts _ s(1)])
      (simp_all add: deployed_def sample_system_def)
  moreover have "shares_at (put_market 1 s sample_system) 1 Yes 12 < shares_at sample_system 1 Yes 12"
    using s(2) ms by (simp add: sample_finished_def market_balance_of_def)
  ultimately show ?thesis
    using polaris_loss_is_authorised [OF sample_system_reach sample_sep41]
    by (fastforce simp: sample_system_def)
qed

end
