(* ===== verification/Base64_Url.thy ===== *)
theory Base64_Url
  imports Polaris_Prelude
begin

text \<open>
  The unpadded base64url encoder of \<open>contracts/smart-wallet/src/base64_url.rs\<close>, which writes into
  a destination buffer of the caller's choice: its loop over whole triples, its one- or two-byte
  remainder, and the panic of a buffer that is too short.  The reference definition
  \<open>base64\<close> gives the text it must write, and \<open>unbase64\<close> reads it back.
\<close>

unbundle bit_operations_syntax

section \<open>Definitions\<close>

definition ALPHABET :: "byte list" where
  "ALPHABET = map of_char
     ''ABCDEFGHIJKLMNOPQRSTUVWXYZabcdefghijklmnopqrstuvwxyz0123456789-_''"

text \<open>\<open>dst[i] = c\<close> panics out of range.\<close>

definition put :: "nat \<Rightarrow> byte \<Rightarrow> byte list \<Rightarrow> ('e, byte list) res" where
  "put i c dst = (if i < length dst then Inr (dst[i := c]) else Inl Trap)"

text \<open>\<open>ALPHABET[val >> k & 0x3F]\<close>; every \<open>val\<close> has at most 24 bits, so a \<open>usize\<close> holds it.\<close>

definition sextet :: "nat \<Rightarrow> nat \<Rightarrow> byte" where
  "sextet val k = ALPHABET ! (drop_bit k val AND 0x3F)"

text \<open>The \<open>while si < n\<close> loop; its variables are \<open>si\<close>, \<open>di\<close> and the buffer.\<close>

function encode_loop :: "nat \<Rightarrow> byte list \<Rightarrow> nat \<Rightarrow> nat \<Rightarrow> byte list \<Rightarrow> ('e, nat \<times> nat \<times> byte list) res" where
  "encode_loop n src si di dst =
     (if si < n then
        let val = push_bit 16 (unat (src ! si)) OR push_bit 8 (unat (src ! (si + 1)))
                  OR unat (src ! (si + 2)) in
        bindr (put di (sextet val 18) dst) (\<lambda>dst.
        bindr (put (di + 1) (sextet val 12) dst) (\<lambda>dst.
        bindr (put (di + 2) (sextet val 6) dst) (\<lambda>dst.
        bindr (put (di + 3) (sextet val 0) dst) (\<lambda>dst.
        encode_loop n src (si + 3) (di + 4) dst))))
      else Inr (si, di, dst))"
  by pat_completeness auto
termination by (relation "measure (\<lambda>(n, src, si, di, dst). n - si)") auto

declare encode_loop.simps [simp del]

definition encode :: "byte list \<Rightarrow> byte list \<Rightarrow> ('e, byte list) res" where
  "encode dst src =
     bindr (encode_loop (length src div 3 * 3) src 0 0 dst) (\<lambda>(si, di, dst).
     let remain = length src - si in
     if remain = 0 then Inr dst else
     let val = push_bit 16 (unat (src ! si));
         val = (if remain = 2 then val OR push_bit 8 (unat (src ! (si + 1))) else val) in
     bindr (put di (sextet val 18) dst) (\<lambda>dst.
     bindr (put (di + 1) (sextet val 12) dst) (\<lambda>dst.
     if remain = 2 then put (di + 2) (sextet val 6) dst else Inr dst)))"

section \<open>The reference encoding\<close>

text \<open>A triple of bytes as one number, and the digits of a number in the alphabet.\<close>

definition digit :: "nat \<Rightarrow> byte" where
  "digit k = ALPHABET ! (k mod 64)"

definition triple :: "byte \<Rightarrow> byte \<Rightarrow> byte \<Rightarrow> nat" where
  "triple a b c = unat a * 65536 + unat b * 256 + unat c"

fun base64 :: "byte list \<Rightarrow> byte list" where
  "base64 (a # b # c # rest) =
     (let v = triple a b c in
      [digit (v div 262144), digit (v div 4096), digit (v div 64), digit v] @ base64 rest)"
| "base64 [a, b] = (let v = triple a b 0 in [digit (v div 262144), digit (v div 4096), digit (v div 64)])"
| "base64 [a] = (let v = triple a 0 0 in [digit (v div 262144), digit (v div 4096)])"
| "base64 [] = []"

definition undigit :: "byte \<Rightarrow> nat" where
  "undigit c = length (takeWhile (\<lambda>x. x \<noteq> c) ALPHABET)"

fun unbase64 :: "byte list \<Rightarrow> byte list" where
  "unbase64 (p # q # r # s # rest) =
     (let v = undigit p * 262144 + undigit q * 4096 + undigit r * 64 + undigit s in
      [of_nat (v div 65536), of_nat (v div 256), of_nat v] @ unbase64 rest)"
| "unbase64 [p, q, r] =
     (let v = undigit p * 262144 + undigit q * 4096 + undigit r * 64 in
      [of_nat (v div 65536), of_nat (v div 256)])"
| "unbase64 [p, q] = [of_nat ((undigit p * 262144 + undigit q * 4096) div 65536)]"
| "unbase64 _ = []"

section \<open>Digits\<close>

lemma length_ALPHABET [simp]: "length ALPHABET = 64"
  by (simp add: ALPHABET_def)

lemma distinct_ALPHABET: "distinct ALPHABET"
  by (simp add: ALPHABET_def)

lemma takeWhile_distinct:
  "distinct xs \<Longrightarrow> i < length xs \<Longrightarrow> length (takeWhile (\<lambda>x. x \<noteq> xs ! i) xs) = i"
proof (induction xs arbitrary: i)
  case (Cons x xs)
  then show ?case by (cases i) (auto simp: nth_mem)
qed simp

lemma undigit_digit [simp]: "undigit (digit k) = k mod 64"
  unfolding undigit_def digit_def by (rule takeWhile_distinct [OF distinct_ALPHABET]) simp

lemma unat_byte: "unat (a :: byte) < 256"
  using unsigned_less [of a] by simp

lemma of_nat_byte: "of_nat (k * 256 + unat a) = (a :: byte)"
proof -
  have "unat (of_nat n :: byte) = n mod 256" for n by (simp add: unsigned_of_nat take_bit_eq_mod)
  from this [of "k * 256 + unat a"] show ?thesis
    using unat_byte [of a] unfolding word_unat_eq_iff by simp
qed

lemma of_nat_byte_mod: "v mod 256 = unat a \<Longrightarrow> of_nat v = (a :: byte)"
  by (metis of_nat_byte mod_div_mult_eq add.commute)

text \<open>Reading a triple back from its digits.\<close>

lemma digits_of_24_bits:
  fixes v :: nat
  assumes "v < 16777216"
  shows "v div 262144 mod 64 * 262144 + v div 4096 mod 64 * 4096 + v div 64 mod 64 * 64 + v mod 64 = v"
proof -
  define w x y where "w = v div 64" and "x = w div 64" and "y = x div 64"
  define p q r where "p = v mod 64" and "q = w mod 64" and "r = x mod 64"
  have "v = w * 64 + p" "w = x * 64 + q" "x = y * 64 + r"
    by (simp_all add: w_def x_def y_def p_def q_def r_def)
  then have sum: "y * 262144 + r * 4096 + q * 64 + p = v" by linarith
  have d: "v div 4096 = x" "v div 262144 = y"
    by (simp_all add: w_def x_def y_def div_mult2_eq [symmetric])
  have "y mod 64 = y" using assms by (simp add: y_def x_def w_def div_mult2_eq [symmetric])
  then show ?thesis using sum unfolding d p_def q_def r_def by (simp only: w_def)
qed

lemma triple_bytes:
  "triple a b c div 65536 = unat a" "triple a b c div 256 mod 256 = unat b"
  "triple a b c mod 256 = unat c" "triple a b c < 16777216"
proof -
  define k where "k = unat a * 256 + unat b"
  have t: "triple a b c = k * 256 + unat c" by (simp add: triple_def k_def)
  have lt: "unat a < 256" "unat b < 256" "unat c < 256" by (rule unat_byte)+
  have "triple a b c div 256 = k" unfolding t using lt(3) by simp
  then show "triple a b c div 256 mod 256 = unat b" using lt by (simp add: k_def)
  have "triple a b c div 65536 = triple a b c div 256 div 256" by (simp add: div_mult2_eq [symmetric])
  then show "triple a b c div 65536 = unat a"
    using \<open>triple a b c div 256 = k\<close> lt(2) by (simp add: k_def)
  show "triple a b c mod 256 = unat c" unfolding t using lt(3) by simp
  show "triple a b c < 16777216" using lt by (simp add: triple_def)
qed

lemma triple_zero:
  "triple a b 0 mod 64 = 0" "triple a 0 0 mod 64 = 0" "triple a 0 0 div 64 mod 64 = 0"
proof -
  have "triple a b 0 = 64 * (unat a * 1024 + unat b * 4)" "triple a 0 0 = 64 * (64 * (unat a * 16))"
    by (simp_all add: triple_def)
  then show "triple a b 0 mod 64 = 0" "triple a 0 0 mod 64 = 0" "triple a 0 0 div 64 mod 64 = 0"
    by simp_all
qed

lemma unbase64_base64: "unbase64 (base64 xs) = xs"
proof (induction xs rule: base64.induct)
  case (1 a b c rest)
  note t = triple_bytes [of a b c]
  show ?case
    using 1 t digits_of_24_bits [OF t(4)] by (simp add: Let_def of_nat_byte_mod)
next
  case (2 a b)
  note t = triple_bytes [of a b 0]
  show ?case
    using triple_zero t digits_of_24_bits [OF t(4)] by (simp add: Let_def of_nat_byte_mod)
next
  case (3 a)
  note t = triple_bytes [of a 0 0]
  show ?case
    using triple_zero t digits_of_24_bits [OF t(4)] by (simp add: Let_def of_nat_byte_mod)
qed simp

section \<open>The encoder writes the reference encoding\<close>

lemma high_bits_clear: "x < 2 ^ k \<Longrightarrow> k \<le> n \<Longrightarrow> \<not> bit (x :: nat) n"
  using bit_take_bit_iff [of k x n] by (simp add: take_bit_nat_eq_self)

lemma or_shifted: "y < 2 ^ k \<Longrightarrow> push_bit k x OR y = x * 2 ^ k + (y :: nat)"
proof -
  assume "y < 2 ^ k"
  then have "push_bit k x OR y = push_bit k x + y"
    by (intro disjunctive_add [symmetric]) (auto simp: bit_push_bit_iff dest: high_bits_clear)
  then show ?thesis by (simp add: push_bit_eq_mult)
qed

lemma or_bytes:
  fixes x y z :: nat
  assumes "y < 256" "z < 256"
  shows "push_bit 16 x OR push_bit 8 y OR z = x * 65536 + y * 256 + z"
  using assms or_shifted [of z 8 y] or_shifted [of "y * 256 + z" 16 x] by simp

lemma sextet_digit: "sextet v k = digit (v div 2 ^ k)"
proof -
  have "drop_bit k v AND 63 = take_bit 6 (drop_bit k v)" by (simp add: take_bit_eq_mask mask_eq_exp_minus_1)
  then show ?thesis by (simp add: sextet_def digit_def drop_bit_eq_div take_bit_eq_mod)
qed

lemma put_prefix:
  "i = length xs \<Longrightarrow> put i c (xs @ y # ys) = (Inr ((xs @ [c]) @ ys) :: ('e, byte list) res)"
  by (simp add: put_def)

lemma base64_append:
  "3 dvd length xs \<Longrightarrow> base64 (xs @ ys) = base64 xs @ base64 ys"
proof (induction xs rule: base64.induct)
  case (1 a b c rest)
  have "3 dvd length rest" using 1(2) by simp presburger
  then show ?case using 1(1) by (simp add: Let_def)
qed (simp_all, presburger)

lemma length_base64: "length (base64 xs) = (length xs * 4 + 2) div 3"
  by (induction xs rule: base64.induct) (simp_all add: Let_def)

text \<open>The loop from any point: \<open>pre\<close> has been written, \<open>post\<close> not yet.\<close>

lemma encode_loop_writes:
  assumes "n = si + 3 * k" "n \<le> length src" "di = length pre" "4 * k \<le> length post"
  shows "encode_loop n src si di (pre @ post) = (Inr (n, di + 4 * k,
    pre @ base64 (take (3 * k) (drop si src)) @ drop (4 * k) post) :: ('e, nat \<times> nat \<times> byte list) res)"
  using assms
proof (induction k arbitrary: si di pre post)
  case 0
  then show ?case by (simp add: encode_loop.simps)
next
  case (Suc k)
  let ?a = "src ! si" and ?b = "src ! Suc si" and ?c = "src ! Suc (Suc si)"
  obtain w x y z post' where post: "post = w # x # y # z # post'"
    using Suc.prems(4) by (cases post rule: unbase64.cases) auto
  have val: "push_bit 16 (unat ?a) OR push_bit 8 (unat ?b) OR unat ?c = triple ?a ?b ?c"
    unfolding triple_def by (rule or_bytes) (rule unat_byte)+
  let ?new = "[digit (triple ?a ?b ?c div 262144), digit (triple ?a ?b ?c div 4096),
    digit (triple ?a ?b ?c div 64), digit (triple ?a ?b ?c)]"
  have step: "encode_loop n src si di (pre @ post)
      = (encode_loop n src (si + 3) (di + 4) ((pre @ ?new) @ post') :: ('e, nat \<times> nat \<times> byte list) res)"
    using Suc.prems(1,3) unfolding post
    by (subst encode_loop.simps) (simp add: Let_def val sextet_digit put_def list_update_append
        nth_append)
  have drop: "drop si src = ?a # ?b # ?c # drop (si + 3) src"
    using Suc.prems(1,2) by (simp add: Cons_nth_drop_Suc [symmetric] numeral_eq_Suc)
  have "encode_loop n src (si + 3) (di + 4) ((pre @ ?new) @ post') = (Inr (n, di + 4 + 4 * k,
      (pre @ ?new) @ base64 (take (3 * k) (drop (si + 3) src)) @ drop (4 * k) post')
      :: ('e, nat \<times> nat \<times> byte list) res)"
    using Suc.prems post by (intro Suc.IH) auto
  moreover have "3 * Suc k = Suc (Suc (Suc (3 * k)))" "4 * Suc k = Suc (Suc (Suc (Suc (4 * k))))"
    by simp_all
  ultimately show ?case unfolding step by (simp only: drop post) (simp add: Let_def)
qed

lemma two_items: "2 \<le> length xs \<Longrightarrow> (\<And>x y ys. xs = x # y # ys \<Longrightarrow> thesis) \<Longrightarrow> thesis"
  by (cases xs; cases "tl xs") auto

lemma three_items: "3 \<le> length xs \<Longrightarrow> (\<And>x y z ys. xs = x # y # z # ys \<Longrightarrow> thesis) \<Longrightarrow> thesis"
  by (cases xs; cases "tl xs"; cases "tl (tl xs)") auto

text \<open>The remainder's two unconditional writes, and the numbers it writes them from.\<close>

lemma put_two:
  assumes "i = length pre"
  shows "bindr (put i c (pre @ x # y # ys)) (\<lambda>d. bindr (put (Suc i) c' d) k)
    = (k (pre @ c # c' # ys) :: ('e, byte list) res)"
  using assms by (simp add: put_def list_update_append nth_append)

lemma triple_first: "push_bit 16 (unat a) = triple a 0 0"
  by (simp add: triple_def push_bit_eq_mult)

lemma triple_second: "push_bit 16 (unat a) OR push_bit 8 (unat b) = triple a b 0"
  using or_bytes [of "unat b" 0 "unat a"] by (simp add: triple_def unat_byte)

text \<open>The source as \<open>k\<close> whole triples and a remainder of at most two bytes: what the loop writes of the
  first, and what follows it for each remainder.\<close>

lemma base64_triples:
  assumes "length body = 3 * k"
  shows "length (base64 body) = 4 * k" "base64 (body @ rest) = base64 body @ base64 rest"
  using assms by (simp_all add: length_base64 base64_append)

lemma encode_loop_body:
  assumes "length body = 3 * k" "length rest < 3" "4 * k \<le> length dst"
  shows "encode_loop (length (body @ rest) div 3 * 3) (body @ rest) 0 0 dst
    = (Inr (3 * k, 4 * k, base64 body @ drop (4 * k) dst) :: ('e, nat \<times> nat \<times> byte list) res)"
proof -
  have "length (body @ rest) div 3 * 3 = 3 * k" using assms(1,2) by simp
  then show ?thesis
    using encode_loop_writes [where 'e = 'e, of "3 * k" 0 k "body @ rest" 0 "[]" dst] assms
    by (simp add: mult.commute)
qed

lemma encode_one_left:
  assumes "length body = 3 * k" "4 * k + 2 \<le> length dst"
  shows "encode dst (body @ [a])
    = (Inr (base64 (body @ [a]) @ drop (length (base64 (body @ [a]))) dst) :: ('e, byte list) res)"
proof -
  note body = base64_triples [OF assms(1)]
  have loop: "encode_loop (length (body @ [a]) div 3 * 3) (body @ [a]) 0 0 dst
      = (Inr (3 * k, 4 * k, base64 body @ drop (4 * k) dst) :: ('e, nat \<times> nat \<times> byte list) res)"
    using assms by (intro encode_loop_body) simp_all
  have si: "length (body @ [a]) - 3 * k = 1" "(body @ [a]) ! (3 * k) = a"
    using assms(1) by (simp_all add: nth_append)
  have "2 \<le> length (drop (4 * k) dst)" using assms(2) by simp
  then obtain x y post where dst: "drop (4 * k) dst = x # y # post" by (rule two_items)
  have "drop (length (base64 (body @ [a]))) dst = drop 2 (drop (4 * k) dst)" by (simp add: body Let_def)
  then have post: "drop (length (base64 (body @ [a]))) dst = post" by (simp add: dst)
  show ?thesis
    unfolding encode_def loop bindr_Inr prod.case Let_def post
    using put_two [of "4 * k" "base64 body"] body(1)
    by (simp add: dst si sextet_digit triple_first body(2) Let_def assms(1))
qed

lemma encode_two_left:
  assumes "length body = 3 * k" "4 * k + 3 \<le> length dst"
  shows "encode dst (body @ [a, b])
    = (Inr (base64 (body @ [a, b]) @ drop (length (base64 (body @ [a, b]))) dst) :: ('e, byte list) res)"
proof -
  note body = base64_triples [OF assms(1)]
  have loop: "encode_loop (length (body @ [a, b]) div 3 * 3) (body @ [a, b]) 0 0 dst
      = (Inr (3 * k, 4 * k, base64 body @ drop (4 * k) dst) :: ('e, nat \<times> nat \<times> byte list) res)"
    using assms by (intro encode_loop_body) simp_all
  have si: "length (body @ [a, b]) - 3 * k = 2" "(body @ [a, b]) ! (3 * k) = a"
      "(body @ [a, b]) ! (3 * k + 1) = b"
    using assms(1) by (simp_all add: nth_append)
  have "3 \<le> length (drop (4 * k) dst)" using assms(2) by simp
  then obtain x y z post where dst: "drop (4 * k) dst = x # y # z # post" by (rule three_items)
  have "drop (length (base64 (body @ [a, b]))) dst = drop (Suc (Suc (Suc 0))) (drop (4 * k) dst)"
    by (simp add: body Let_def)
  then have post: "drop (length (base64 (body @ [a, b]))) dst = post" by (simp add: dst)
  show ?thesis
    unfolding encode_def loop bindr_Inr prod.case Let_def post
    using body(1) si(3)
    by (simp add: dst si sextet_digit triple_second put_def list_update_append body(2) Let_def assms(1))
qed

lemma encode_writes:
  assumes "length (base64 src) \<le> length dst"
  shows "encode dst src = (Inr (base64 src @ drop (length (base64 src)) dst) :: ('e, byte list) res)"
proof -
  define k where "k = length src div 3"
  define body rest where "body = take (3 * k) src" and "rest = drop (3 * k) src"
  have src: "src = body @ rest" and body: "length body = 3 * k" and "length rest < 3"
    by (simp_all add: body_def rest_def k_def minus_mult_div_eq_mod)
  note triples = base64_triples [OF body]
  consider (0) "rest = []" | (1) a where "rest = [a]" | (2) a b where "rest = [a, b]"
    using \<open>length rest < 3\<close> by (cases rest rule: base64.cases) auto
  then show ?thesis
  proof cases
    case 0
    then show ?thesis
      using assms encode_loop_body [where 'e = 'e, OF body, of "[]" dst] body triples(1)
      by (simp add: src encode_def)
  next
    case (1 a)
    then show ?thesis
      using assms encode_one_left [where 'e = 'e, OF body, of dst a] by (simp add: src triples Let_def)
  next
    case (2 a b)
    then show ?thesis
      using assms encode_two_left [where 'e = 'e, OF body, of dst a b] by (simp add: src triples Let_def)
  qed
qed

section \<open>Properties\<close>

lemma base64_injective: "base64 xs = base64 ys \<Longrightarrow> xs = ys"
  by (metis unbase64_base64)

lemma base64_alphabet: "c \<in> set (base64 xs) \<Longrightarrow> c \<in> set ALPHABET"
proof -
  have "digit k \<in> set ALPHABET" for k by (simp add: digit_def)
  then show "c \<in> set (base64 xs) \<Longrightarrow> c \<in> set ALPHABET"
    by (induction xs rule: base64.induct) (auto simp: Let_def)
qed

text \<open>C36: The encoder, with its index arithmetic and bit operations, writes exactly the unpadded
  base64url text of its input into every buffer that has room for it, without a panic, and leaves
  the rest of the buffer alone; the text is of \<open>ceil(4 n / 3)\<close> characters of the alphabet and
  decodes back to the input.\<close>

theorem encode_correct:
  assumes "(length src * 4 + 2) div 3 \<le> length dst"
  shows "encode dst src = (Inr (base64 src @ drop ((length src * 4 + 2) div 3) dst) :: ('e, byte list) res)
    \<and> length (base64 src) = (length src * 4 + 2) div 3
    \<and> set (base64 src) \<subseteq> set ALPHABET \<and> unbase64 (base64 src) = src"
proof (intro conjI)
  show "encode dst src = (Inr (base64 src @ drop ((length src * 4 + 2) div 3) dst) :: ('e, byte list) res)"
    using encode_writes [where 'e = 'e, of src dst] assms unfolding length_base64 by blast
  show "length (base64 src) = (length src * 4 + 2) div 3" by (rule length_base64)
  show "set (base64 src) \<subseteq> set ALPHABET" using base64_alphabet by blast
  show "unbase64 (base64 src) = src" by (rule unbase64_base64)
qed

lemma encode_correct_witness:
  "encode (replicate 15 0) (map of_char ''hello world'')
      = (Inr (base64 (map of_char ''hello world'')
          @ drop ((length (map of_char ''hello world'' :: byte list) * 4 + 2) div 3) (replicate 15 0))
        :: (unit, byte list) res)
    \<and> length (base64 (map of_char ''hello world''))
      = (length (map of_char ''hello world'' :: byte list) * 4 + 2) div 3
    \<and> set (base64 (map of_char ''hello world'')) \<subseteq> set ALPHABET
    \<and> unbase64 (base64 (map of_char ''hello world'')) = map of_char ''hello world''"
  by (rule encode_correct) simp

end
