(* ===== verification/Smart_Wallet.thy ===== *)
theory Smart_Wallet
  imports Base64_Url
begin

text \<open>
  The passkey wallet of \<open>contracts/smart-wallet/src/lib.rs\<close>: its one-time initialisation and the
  \<open>__check_auth\<close> hook the host calls for every authorisation of the wallet's address.  The
  host's hash and signature check and the JSON parser of \<open>serde_json_core\<close> are not part of the
  repository: they are the parameters of \<open>wallet_crypto\<close>.
\<close>

section \<open>Data\<close>

datatype wallet_error = NotInitialized | AlreadyInitialized | ChallengeMismatch | ClientDataJsonParseError

record Signature =
  authenticator_data :: "byte list"
  client_data_json :: "byte list"
  signature :: "byte list"

text \<open>The instance storage: the public key, once set.\<close>

type_synonym wallet = "byte list option"

text \<open>\<open>parse_challenge\<close> is the \<open>challenge\<close> field of a parsed client-data document, as bytes;
  \<open>None\<close> is a document the parser rejects.\<close>

record wallet_crypto =
  sha256 :: "byte list \<Rightarrow> byte list"
  secp256r1_valid :: "byte list \<Rightarrow> byte list \<Rightarrow> byte list \<Rightarrow> bool"
  parse_challenge :: "byte list \<Rightarrow> byte list option"

section \<open>Operations\<close>

definition wallet_init :: "byte list \<Rightarrow> wallet \<Rightarrow> (wallet_error, unit \<times> wallet) res" where
  "wallet_init public_key w =
     (if w \<noteq> None then Inl (Err AlreadyInitialized) else Inr ((), Some public_key))"

definition wallet_get_public_key :: "wallet \<Rightarrow> (wallet_error, byte list) res" where
  "wallet_get_public_key w = ok_or NotInitialized w"

text \<open>\<open>secp256r1_verify\<close> traps on an invalid signature, and \<open>to_buffer::<1024>\<close> on a document
  longer than the buffer.\<close>

definition wallet_check_auth ::
    "wallet_crypto \<Rightarrow> byte list \<Rightarrow> Signature \<Rightarrow> wallet \<Rightarrow> (wallet_error, unit) res" where
  "wallet_check_auth crypto signature_payload sig w =
     bindr (ok_or NotInitialized w) (\<lambda>public_key.
     let signed = authenticator_data sig @ sha256 crypto (client_data_json sig);
         digest = sha256 crypto signed in
     if \<not> secp256r1_valid crypto public_key digest (signature sig) then Inl Trap else
     if 1024 < length (client_data_json sig) then Inl Trap else
     bindr (ok_or ClientDataJsonParseError (parse_challenge crypto (client_data_json sig)))
       (\<lambda>challenge.
     bindr (encode (replicate 43 0) signature_payload) (\<lambda>expected_challenge.
     if challenge \<noteq> expected_challenge then Inl (Err ChallengeMismatch) else Inr ())))"

section \<open>Properties\<close>

text \<open>The digest a passkey signs.\<close>

definition assertion_digest :: "wallet_crypto \<Rightarrow> Signature \<Rightarrow> byte list" where
  "assertion_digest crypto sig =
     sha256 crypto (authenticator_data sig @ sha256 crypto (client_data_json sig))"

lemma encode_payload:
  assumes "length payload = 32"
  shows "encode (replicate 43 0) payload = (Inr (base64 payload) :: ('e, byte list) res)"
proof -
  have "length (base64 payload) = 43" using assms by (simp add: length_base64)
  then show ?thesis using encode_writes [where 'e = 'e, of payload "replicate 43 0"] by simp
qed

lemma check_auth_eq:
  assumes "length payload = 32"
  shows "wallet_check_auth crypto payload sig w = Inr u \<longleftrightarrow>
    (\<exists>pk. w = Some pk \<and> secp256r1_valid crypto pk (assertion_digest crypto sig) (signature sig))
    \<and> length (client_data_json sig) \<le> 1024
    \<and> parse_challenge crypto (client_data_json sig) = Some (base64 payload)"
  using encode_payload [OF assms]
  by (auto simp: wallet_check_auth_def assertion_digest_def Let_def res_simps)

text \<open>The wallet authorises a transaction exactly when it has a key, that key's signature over
  \<open>sha256(authenticator_data || sha256(client_data_json))\<close> is valid, the document fits the
  1024-byte buffer, and its challenge is the base64url text of the transaction's payload hash:
  neither check can be skipped.\<close>

theorem check_auth_accepts_iff:
  assumes "length payload = 32"
  shows "wallet_check_auth crypto payload sig w = Inr () \<longleftrightarrow>
    (\<exists>pk. w = Some pk \<and> secp256r1_valid crypto pk (assertion_digest crypto sig) (signature sig))
    \<and> length (client_data_json sig) \<le> 1024
    \<and> parse_challenge crypto (client_data_json sig) = Some (base64 payload)"
  by (rule check_auth_eq [OF assms])

text \<open>A toy instance of the external functions: the document is the challenge itself.\<close>

definition sample_crypto :: wallet_crypto where
  "sample_crypto = \<lparr>sha256 = (\<lambda>x. take 32 (x @ replicate 32 0)),
     secp256r1_valid = (\<lambda>pk digest sig. sig = pk @ digest), parse_challenge = Some\<rparr>"

definition sample_assertion :: "byte list \<Rightarrow> Signature" where
  "sample_assertion payload = \<lparr>authenticator_data = [1], client_data_json = base64 payload,
     signature = 4 # sha256 sample_crypto (1 # sha256 sample_crypto (base64 payload))\<rparr>"

lemma check_auth_accepts_iff_witness:
  "wallet_check_auth sample_crypto (replicate 32 7) (sample_assertion (replicate 32 7)) (Some [4]) = Inr ()"
proof -
  have "length (replicate 32 (7::byte)) = 32" by simp
  from check_auth_accepts_iff [OF this, of sample_crypto "sample_assertion (replicate 32 7)" "Some [4]"]
  show ?thesis
    by (simp add: sample_assertion_def sample_crypto_def assertion_digest_def length_base64)
qed

text \<open>C23: An assertion is bound to one transaction: if the same signature object is accepted for
  two payload hashes, by whatever keys, the two hashes are equal.\<close>

theorem check_auth_binds_payload:
  assumes "length p = 32" "length q = 32"
    and "wallet_check_auth crypto p sig w = Inr ()" "wallet_check_auth crypto q sig w' = Inr ()"
  shows "p = q"
  using check_auth_eq [OF assms(1)] check_auth_eq [OF assms(2)] assms(3,4) base64_injective by auto

lemma check_auth_binds_payload_witness:
  "replicate 32 (7::byte) = replicate 32 7"
proof -
  have "wallet_check_auth sample_crypto (replicate 32 7) (sample_assertion (replicate 32 7)) (Some [4]) = Inr ()"
    by (simp add: check_auth_eq sample_assertion_def sample_crypto_def assertion_digest_def length_base64)
  from check_auth_binds_payload [OF _ _ this this] show ?thesis by simp
qed

end
