(* ===== verification/Wallet_Factory.thy ===== *)
theory Wallet_Factory
  imports Host Smart_Wallet
begin

text \<open>
  The wallet factory of \<open>contracts/smart-wallet-factory/src/lib.rs\<close>.  The host derives the address
  of a deployed contract from the deployer and a salt, refuses a second deployment at the same
  address, and runs the code of the given wasm hash: the derivation and the code are parameters
  (\<open>factory_host\<close>).  \<open>'w\<close> is the state of a deployed contract.
\<close>

section \<open>Data\<close>

datatype factory_error = AlreadyInitialized | NotInitialized

type_synonym wasm_hash = "byte list"

text \<open>\<open>run_init hash key\<close> is the \<open>init\<close> entry point of the wasm on a fresh instance; \<open>None\<close> is a
  call that fails or an entry point that is missing.\<close>

record 'w factory_host =
  factory_sha256 :: "byte list \<Rightarrow> byte list"
  deployed_address :: "Address \<Rightarrow> byte list \<Rightarrow> Address"
  run_init :: "wasm_hash \<Rightarrow> byte list \<Rightarrow> 'w option"

text \<open>The factory's storage and the contracts that exist on the ledger.\<close>

record 'w factory_state =
  stored_wasm_hash :: "wasm_hash option"
  instances :: "Address \<rightharpoonup> wasm_hash \<times> 'w"

section \<open>Operations\<close>

definition factory_initialize ::
    "'tok Env \<Rightarrow> Address \<Rightarrow> wasm_hash \<Rightarrow> 'w factory_state \<Rightarrow>
      (factory_error, unit \<times> 'w factory_state) res" where
  "factory_initialize env adm hash st =
     bindr (require_auth env adm) (\<lambda>_.
     if stored_wasm_hash st \<noteq> None then Inl (Err AlreadyInitialized) else
     Inr ((), st\<lparr>stored_wasm_hash := Some hash\<rparr>))"

definition factory_deploy ::
    "'w factory_host \<Rightarrow> 'tok Env \<Rightarrow> byte list \<Rightarrow> 'w factory_state \<Rightarrow>
      (factory_error, Address \<times> 'w factory_state) res" where
  "factory_deploy host env public_key st =
     bindr (ok_or NotInitialized (stored_wasm_hash st)) (\<lambda>hash.
     let salt = factory_sha256 host public_key;
         address = deployed_address host (current_contract_address env) salt in
     if instances st address \<noteq> None then Inl Trap else
     bindr (sub_call (run_init host hash public_key)) (\<lambda>w.
     Inr (address, st\<lparr>instances := (instances st)(address \<mapsto> (hash, w))\<rparr>)))"

definition factory_resolve :: "'w factory_host \<Rightarrow> 'tok Env \<Rightarrow> byte list \<Rightarrow> Address" where
  "factory_resolve host env public_key =
     (let salt = factory_sha256 host public_key
      in deployed_address host (current_contract_address env) salt)"

section \<open>Behaviour\<close>

text \<open>The life of one factory, at the address of \<open>chain\<close>: transactions call it, the contracts it
  deployed move on, which never changes their code.\<close>

inductive factory_step ::
    "'w factory_host \<Rightarrow> 'tok Env \<Rightarrow> 'w factory_state \<Rightarrow> 'w factory_state \<Rightarrow> bool"
  for host :: "'w factory_host" and chain :: "'tok Env" where
  initialize: "current_contract_address (env :: 'tok Env) = current_contract_address chain \<Longrightarrow>
    factory_initialize env adm hash st = Inr (r, st') \<Longrightarrow> factory_step host chain st st'"
| deploy: "current_contract_address (env :: 'tok Env) = current_contract_address chain \<Longrightarrow>
    factory_deploy host env key st = Inr (a, st') \<Longrightarrow> factory_step host chain st st'"
| wallet: "instances st a = Some (hash, w) \<Longrightarrow>
    factory_step host chain st (st\<lparr>instances := (instances st)(a \<mapsto> (hash, w'))\<rparr>)"

inductive_cases factory_stepE: "factory_step host chain st st'"

lemma factory_deploy_Inr:
  "factory_deploy host env key st = Inr (a, st') \<longleftrightarrow>
    (\<exists>hash w. stored_wasm_hash st = Some hash \<and> a = factory_resolve host env key \<and> instances st a = None
      \<and> run_init host hash key = Some w \<and> st' = st\<lparr>instances := (instances st)(a \<mapsto> (hash, w))\<rparr>)"
  by (cases "instances st (factory_resolve host env key)")
    (auto simp: factory_deploy_def factory_resolve_def res_simps Let_def)

text \<open>Every contract of the factory runs the pinned code.\<close>

definition factory_pinned :: "'w factory_state \<Rightarrow> bool" where
  "factory_pinned st \<longleftrightarrow> (\<forall>a i. instances st a = Some i \<longrightarrow> stored_wasm_hash st = Some (fst i))"

lemma factory_step_pinned:
  assumes "factory_step host chain st st'" "factory_pinned st"
  shows "factory_pinned st'" "stored_wasm_hash st = Some hash \<Longrightarrow> stored_wasm_hash st' = Some hash"
proof -
  have "factory_pinned st' \<and> (stored_wasm_hash st = Some hash \<longrightarrow> stored_wasm_hash st' = Some hash)"
    using assms(1)
  proof (rule factory_stepE)
    fix env adm h r
    assume "factory_initialize env adm h st = Inr (r, st')"
    then show ?thesis
      using assms(2) by (auto simp: factory_initialize_def res_simps factory_pinned_def)
  next
    fix env key a
    assume "factory_deploy host env key st = Inr (a, st')"
    then show ?thesis using assms(2) unfolding factory_pinned_def factory_deploy_Inr by (force split: if_splits)
  next
    fix a h w w'
    assume *: "instances st a = Some (h, w)" "st' = st\<lparr>instances := (instances st)(a \<mapsto> (h, w'))\<rparr>"
    then have "stored_wasm_hash st = Some h" using assms(2) by (auto simp: factory_pinned_def)
    then show ?thesis using * assms(2) by (auto simp: factory_pinned_def)
  qed
  then show "factory_pinned st'" "stored_wasm_hash st = Some hash \<Longrightarrow> stored_wasm_hash st' = Some hash"
    by simp_all
qed

lemma factory_steps_pinned:
  assumes "(factory_step host chain)\<^sup>*\<^sup>* st st'" "factory_pinned st"
  shows "factory_pinned st'" "stored_wasm_hash st = Some hash \<Longrightarrow> stored_wasm_hash st' = Some hash"
  using assms by (induction rule: rtranclp_induct) (auto dest: factory_step_pinned)

text \<open>An address that exists stays in use.\<close>

lemma factory_steps_keep:
  assumes "(factory_step host chain)\<^sup>*\<^sup>* st st'" "instances st a = Some (hash, w)"
  shows "\<exists>w'. instances st' a = Some (hash, w')"
  using assms
proof (induction rule: rtranclp_induct)
  case (step y z)
  then show ?case
    by (auto elim!: factory_stepE simp: factory_initialize_def res_simps factory_deploy_Inr
        split: if_splits)
qed simp

section \<open>Properties\<close>

text \<open>C31: The wasm is pinned: once a factory without deployments has been initialised by a signed
  call, no later transaction changes the hash, and in every reachable state every contract it
  deployed runs exactly that code, whoever asked for the deployment.\<close>

theorem factory_deploys_pinned_wasm:
  assumes "factory_initialize env adm hash st = Inr (r, s)" "instances st = Map.empty"
    and "(factory_step host chain)\<^sup>*\<^sup>* s t"
  shows "authorized env adm \<and> stored_wasm_hash t = Some hash
    \<and> (\<forall>a h w. instances t a = Some (h, w) \<longrightarrow> h = hash)
    \<and> (\<forall>env' adm' hash' r' u. factory_initialize env' adm' hash' t \<noteq> Inr (r', u))"
proof -
  have s: "authorized env adm" "stored_wasm_hash s = Some hash" "factory_pinned s"
    using assms(1,2) by (auto simp: factory_initialize_def res_simps factory_pinned_def split: if_splits)
  note t = factory_steps_pinned [OF assms(3) s(3)]
  have "stored_wasm_hash t = Some hash" by (rule t(2) [OF s(2)])
  then show ?thesis
    using t(1) s(1) by (auto simp: factory_pinned_def factory_initialize_def res_simps)
qed

text \<open>\<open>resolve\<close> tells the truth and a wallet is deployed once: a deployment for a key lands at
  the address \<open>resolve\<close> computes, holding the state its \<open>init\<close> made from that key, and from then
  on every further deployment for the key traps, in every later state.\<close>

theorem factory_deploy_once:
  assumes "factory_deploy host env key st = Inr (a, s)" "current_contract_address env = current_contract_address chain"
    and "(factory_step host chain)\<^sup>*\<^sup>* s t" "current_contract_address env' = current_contract_address chain"
  shows "a = factory_resolve host env' key \<and> instances st a = None
    \<and> (\<exists>hash w. stored_wasm_hash st = Some hash \<and> run_init host hash key = Some w
        \<and> instances s a = Some (hash, w) \<and> (\<exists>w'. instances t a = Some (hash, w')))
    \<and> (\<forall>b u. factory_deploy host env' key t \<noteq> Inr (b, u))"
proof -
  from assms(1) obtain hash w where d: "stored_wasm_hash st = Some hash" "a = factory_resolve host env key"
    "instances st a = None" "run_init host hash key = Some w" "instances s a = Some (hash, w)"
    by (auto simp: factory_deploy_Inr)
  have a: "a = factory_resolve host env' key" using d(2) assms(2,4) by (simp add: factory_resolve_def)
  obtain w' where "instances t a = Some (hash, w')"
    using factory_steps_keep [OF assms(3) d(5)] by blast
  then show ?thesis using d a by (auto simp: factory_deploy_Inr)
qed

text \<open>The factory over the repository's own wallet.\<close>

definition sample_host :: "wallet factory_host" where
  "sample_host = \<lparr>factory_sha256 = (\<lambda>k. k), deployed_address = (\<lambda>d salt. d + sum_list (map unat salt) + 1),
     run_init = (\<lambda>hash key. if hash = [9] then
       (case wallet_init key None of Inr (_, w) \<Rightarrow> Some w | Inl _ \<Rightarrow> None) else None)\<rparr>"

definition sample_factory :: "wallet factory_state" where
  "sample_factory = \<lparr>stored_wasm_hash = Some [9], instances = Map.empty\<rparr>"

lemma factory_deploys_pinned_wasm_witness:
  "\<exists>t. (factory_step sample_host (sample_env 0 0))\<^sup>*\<^sup>* sample_factory t \<and> instances t 7 = Some ([9], Some [5])
    \<and> stored_wasm_hash t = Some [9]"
proof -
  have i: "factory_initialize (sample_env 0 0) 10 [9] \<lparr>stored_wasm_hash = None, instances = Map.empty\<rparr>
      = Inr ((), sample_factory)"
    by (simp add: factory_initialize_def require_auth_def sample_env_def sample_factory_def)
  let ?t = "sample_factory\<lparr>instances := [7 \<mapsto> ([9], Some [5])]\<rparr>"
  have "factory_deploy sample_host (sample_env 0 0) [5] sample_factory = Inr (7, ?t)"
    by (simp add: factory_deploy_def sample_host_def sample_factory_def sample_env_def wallet_init_def Let_def)
  then have r: "(factory_step sample_host (sample_env 0 0))\<^sup>*\<^sup>* sample_factory ?t"
    by (intro r_into_rtranclp factory_step.deploy [where env = "sample_env 0 0"]) (simp_all add: sample_env_def)
  show ?thesis
    using factory_deploys_pinned_wasm [OF i _ r] r by (intro exI [of _ ?t]) (simp add: sample_factory_def)
qed

lemma factory_deploy_once_witness:
  "7 = factory_resolve sample_host (sample_env 5 5) [5]
    \<and> (\<forall>b u. factory_deploy sample_host (sample_env 5 5) [5]
        (sample_factory\<lparr>instances := [7 \<mapsto> ([9], Some [5])]\<rparr>) \<noteq> Inr (b, u))"
proof -
  have "factory_deploy sample_host (sample_env 0 0) [5] sample_factory
      = Inr (7, sample_factory\<lparr>instances := [7 \<mapsto> ([9], Some [5])]\<rparr>)"
    by (simp add: factory_deploy_def sample_host_def sample_factory_def sample_env_def wallet_init_def Let_def)
  from factory_deploy_once [OF this _ rtranclp.rtrancl_refl, of "sample_env 0 0" "sample_env 5 5"] show ?thesis
    by (simp add: sample_env_def)
qed

end
