(* ===== verification/Wallet_Deployment.thy ===== *)
theory Wallet_Deployment
  imports Wallet_Factory
begin

text \<open>
  The wallet and its factory together: the factory pins the wasm of \<open>contracts/smart-wallet\<close>, and a
  wallet it has deployed changes by the wallet's own entry points only.  A deployment answers for
  ever to the passkey it was deployed for, and to no other.
\<close>

section \<open>Deployed wallets\<close>

text \<open>The wasm \<open>hash\<close> is the wallet's: its \<open>init\<close> on a fresh instance is the wallet's own.\<close>

definition runs_wallet :: "wallet factory_host \<Rightarrow> wasm_hash \<Rightarrow> bool" where
  "runs_wallet host hash \<longleftrightarrow> (\<forall>key. run_init host hash key =
     (case wallet_init key None of Inl _ \<Rightarrow> None | Inr (_, w) \<Rightarrow> Some w))"

text \<open>The ledger moves when somebody calls the factory, when somebody calls \<open>init\<close> on a deployed
  wallet (the one entry point of a wallet that writes), and when a contract of other code moves on.\<close>

inductive deployment_step ::
    "wallet factory_host \<Rightarrow> 'tok Env \<Rightarrow> wasm_hash \<Rightarrow> wallet factory_state \<Rightarrow> wallet factory_state \<Rightarrow> bool"
  for host :: "wallet factory_host" and chain :: "'tok Env" and hash :: wasm_hash where
  initialize: "current_contract_address (env :: 'tok Env) = current_contract_address chain \<Longrightarrow>
    factory_initialize env adm h st = Inr (r, st') \<Longrightarrow> deployment_step host chain hash st st'"
| deploy: "current_contract_address (env :: 'tok Env) = current_contract_address chain \<Longrightarrow>
    factory_deploy host env key st = Inr (a, st') \<Longrightarrow> deployment_step host chain hash st st'"
| init: "instances st a = Some (hash, w) \<Longrightarrow> wallet_init key w = Inr (r, w') \<Longrightarrow>
    deployment_step host chain hash st (st\<lparr>instances := (instances st)(a \<mapsto> (hash, w'))\<rparr>)"
| foreign: "instances st a = Some (h, w) \<Longrightarrow> h \<noteq> hash \<Longrightarrow>
    deployment_step host chain hash st (st\<lparr>instances := (instances st)(a \<mapsto> (h, w'))\<rparr>)"

inductive_cases deployment_stepE: "deployment_step host chain hash st st'"

text \<open>Every such move is one of the factory's own moves.\<close>

lemma deployment_is_factory_step:
  "deployment_step host chain hash st st' \<Longrightarrow> factory_step host chain st st'"
  by (erule deployment_stepE) (auto intro: factory_step.intros)

lemma wallet_init_Inr: "wallet_init key w = Inr (r, w') \<longleftrightarrow> w = None \<and> w' = Some key"
  by (auto simp: wallet_init_def)

text \<open>A wallet that has a key keeps it.\<close>

lemma deployment_keeps_key:
  assumes "(deployment_step host chain hash)\<^sup>*\<^sup>* s t" "instances s a = Some (hash, Some key)"
  shows "instances t a = Some (hash, Some key)"
  using assms
proof (induction rule: rtranclp_induct)
  case (step y z)
  from step.hyps(2) step.IH [OF step.prems] show ?case
    by (auto elim!: deployment_stepE simp: wallet_init_Inr factory_initialize_def res_simps
        factory_deploy_Inr split: if_splits)
qed simp

section \<open>Properties\<close>

lemma deployed_wallet_key:
  assumes "factory_deploy host env key st = Inr (a, s)" "stored_wasm_hash st = Some hash" "runs_wallet host hash"
    and "(deployment_step host chain hash)\<^sup>*\<^sup>* s t"
  shows "a = factory_resolve host env key" "instances t a = Some (hash, Some key)"
proof -
  from assms(1,2) obtain w where d: "a = factory_resolve host env key" "run_init host hash key = Some w"
    "instances s a = Some (hash, w)"
    by (auto simp: factory_deploy_Inr)
  have "w = Some key" using d(2) assms(3) by (simp add: runs_wallet_def wallet_init_def)
  then show "a = factory_resolve host env key" "instances t a = Some (hash, Some key)"
    using d deployment_keeps_key [OF assms(4)] by simp_all
qed

text \<open>C32: A wallet from the factory answers to its passkey alone.  When the pinned code is the wallet's, a
  deployment for a key lands at the address \<open>resolve\<close> gives, and in every later state of the ledger the
  contract there is a wallet that reports that key, refuses every further \<open>init\<close>, and accepts a
  signature for a transaction exactly when it is that key's, valid, over a document of at most 1024
  bytes whose challenge is the transaction's payload hash.\<close>

theorem deployed_wallet_obeys_its_key:
  assumes "factory_deploy host env key st = Inr (a, s)" "stored_wasm_hash st = Some hash" "runs_wallet host hash"
    and "(deployment_step host chain hash)\<^sup>*\<^sup>* s t" "length payload = 32"
  shows "a = factory_resolve host env key \<and> (\<exists>w. instances t a = Some (hash, w)
    \<and> wallet_get_public_key w = Inr key
    \<and> (\<forall>other. wallet_init other w = Inl (Err wallet_error.AlreadyInitialized))
    \<and> (wallet_check_auth crypto payload sig w = Inr () \<longleftrightarrow>
        secp256r1_valid crypto key (assertion_digest crypto sig) (signature sig)
        \<and> length (client_data_json sig) \<le> 1024
        \<and> parse_challenge crypto (client_data_json sig) = Some (base64 payload)))"
  using deployed_wallet_key [OF assms(1-4)]
  by (simp add: wallet_get_public_key_def wallet_init_def check_auth_eq [OF assms(5)])

lemma sample_host_wallet: "runs_wallet sample_host [9]"
  by (simp add: runs_wallet_def sample_host_def wallet_init_def)

lemma deployed_wallet_obeys_its_key_witness:
  "wallet_check_auth sample_crypto (replicate 32 7) (sample_assertion (replicate 32 7)) (Some [4]) = Inr ()
    \<and> (6::nat) = factory_resolve sample_host (sample_env 0 0) [4]"
proof -
  let ?s = "sample_factory\<lparr>instances := [6 \<mapsto> ([9], Some [4])]\<rparr>"
  have d: "factory_deploy sample_host (sample_env 0 0) [4] sample_factory = Inr (6, ?s)"
    by (simp add: factory_deploy_def sample_host_def sample_factory_def sample_env_def wallet_init_def Let_def)
  show ?thesis
    using deployed_wallet_obeys_its_key [OF d _ sample_host_wallet rtranclp.rtrancl_refl,
        where payload = "replicate 32 7" and crypto = sample_crypto and sig = "sample_assertion (replicate 32 7)"]
    by (simp add: sample_factory_def) (simp add: sample_assertion_def sample_crypto_def assertion_digest_def length_base64)
qed

end
