(* ===== verification/Wallet_Custody.thy ===== *)
theory Wallet_Custody
  imports Wallet_Deployment Perpetual_Properties Market_Trading
begin

text \<open>
  Custody: wallets from the factory as holders of shares.  The markets ask the host for the holder's
  authorisation, the host asks the wallet at the holder's address, and the wallet asks the passkey: what
  the three contracts promise separately is here one statement about who can move a share.
\<close>

section \<open>Authorisation by wallets\<close>

text \<open>The host's rule for contract accounts, in one transaction: an address whose contract is a wallet is
  authorised only if the wallet's \<open>__check_auth\<close> accepts the credentials given for the address and the
  hash of what it is to authorise.\<close>

definition host_checks ::
    "wallet_crypto \<Rightarrow> wasm_hash \<Rightarrow> wallet factory_state \<Rightarrow> (Address \<Rightarrow> byte list) \<Rightarrow> (Address \<Rightarrow> Signature) \<Rightarrow>
      'tok Env \<Rightarrow> bool" where
  "host_checks crypto hash d payload sig env \<longleftrightarrow> (\<forall>a w. instances d a = Some (hash, w) \<and> authorized env a \<longrightarrow>
     length (payload a) = 32 \<and> wallet_check_auth crypto (payload a) (sig a) w = Inr ())"

text \<open>What a passkey has signed for a transaction: a document whose challenge is the transaction's hash.\<close>

definition passkey_signed :: "wallet_crypto \<Rightarrow> byte list \<Rightarrow> byte list \<Rightarrow> Signature \<Rightarrow> bool" where
  "passkey_signed crypto key payload sig \<longleftrightarrow>
     secp256r1_valid crypto key (assertion_digest crypto sig) (signature sig)
   \<and> parse_challenge crypto (client_data_json sig) = Some (base64 payload)"

lemma authorised_by_passkey:
  assumes "factory_deploy host fenv key st = Inr (a, d0)" "stored_wasm_hash st = Some hash" "runs_wallet host hash"
    and "(deployment_step host fchain hash)\<^sup>*\<^sup>* d0 d"
    and "host_checks crypto hash d payload sig env" "authorized env a"
  shows "passkey_signed crypto key (payload a) (sig a)"
    and "length q = 32 \<Longrightarrow> passkey_signed crypto key q (sig a) \<Longrightarrow> q = payload a"
proof -
  note w = deployed_wallet_key(2) [OF assms(1-4)]
  then have a: "length (payload a) = 32" "wallet_check_auth crypto (payload a) (sig a) (Some key) = Inr ()"
    using assms(5,6) unfolding host_checks_def by blast+
  show signed: "passkey_signed crypto key (payload a) (sig a)"
    using a(2) unfolding check_auth_eq [OF a(1)] passkey_signed_def by simp
  show "q = payload a" if "length q = 32" "passkey_signed crypto key q (sig a)"
    using signed that(2) base64_injective by (auto simp: passkey_signed_def)
qed

section \<open>Shares in a wallet\<close>

text \<open>C24: A share held by a wallet moves only by its passkey.  Let a factory that pins the wallet's code deploy
  a wallet for a key, and let anything happen to it and to the ledger of deployments since.  When any
  call to a market or perpetual that buyers with non-negative minimums have led to lowers the balance of
  the wallet's address, the passkey has signed a document whose challenge is the hash of that very transaction, and it is not a
  signature for any other one.\<close>

theorem wallet_shares_need_its_passkey:
  assumes "factory_deploy host fenv key st = Inr (a, d0)" "stored_wasm_hash st = Some hash" "runs_wallet host hash"
    and "(deployment_step host fchain hash)\<^sup>*\<^sup>* d0 d" "host_checks crypto hash d payload sig env"
    and "(market_step chain)\<^sup>*\<^sup>* s0 s \<and> market_fresh s0 \<and> market_exec env c s = Inr t
        \<and> market_balance_of t p a < market_balance_of s p a
      \<or> (perp_step chain)\<^sup>*\<^sup>* u0 u \<and> perp_fresh u0 \<and> perp_exec env e u = Inr v
        \<and> perp_balance_of v p a < perp_balance_of u p a"
  shows "passkey_signed crypto key (payload a) (sig a)
    \<and> (\<forall>q. length q = 32 \<and> passkey_signed crypto key q (sig a) \<longrightarrow> q = payload a)"
proof -
  have "authorized env a"
    using assms(6) loss_is_authorised [of chain s0 s env c t p a] perp_loss_authorised [of chain u0 u env e v p a]
    by blast
  with authorised_by_passkey [OF assms(1-5)] show ?thesis by blast
qed

definition custody_assertion :: "byte list \<Rightarrow> Signature" where
  "custody_assertion payload = \<lparr>authenticator_data = [1], client_data_json = base64 payload,
     signature = 10 # sha256 sample_crypto (1 # sha256 sample_crypto (base64 payload))\<rparr>"

lemma wallet_shares_need_its_passkey_witness:
  "passkey_signed sample_crypto [10] (replicate 32 7) (custody_assertion (replicate 32 7))"
proof -
  let ?d = "sample_factory\<lparr>instances := [12 \<mapsto> ([9], Some [10])]\<rparr>"
  let ?payload = "\<lambda>_::nat. replicate 32 (7::byte)"
  let ?sig = "\<lambda>_::nat. custody_assertion (replicate 32 7)"
  have d: "factory_deploy sample_host (sample_env 0 0) [10] sample_factory = Inr (12, ?d)"
    by (simp add: factory_deploy_def sample_host_def sample_factory_def sample_env_def wallet_init_def Let_def)
  have pin: "stored_wasm_hash sample_factory = Some [9]" by (simp add: sample_factory_def)
  have "wallet_check_auth sample_crypto (replicate 32 7) (custody_assertion (replicate 32 7)) (Some [10]) = Inr ()"
    by (simp add: check_auth_eq custody_assertion_def sample_crypto_def assertion_digest_def length_base64)
  then have host: "host_checks sample_crypto [9] ?d ?payload ?sig (sample_env 1000000 0)"
    by (auto simp: host_checks_def split: if_splits)
  obtain t where t: "market_exec (sample_env 1000000 0) (CallTransfer 12 13 Yes 100) sample_traded = Inr t"
      "market_balance_of t Yes 12 = 200"
    using sample_transfer by blast
  have "market_balance_of t Yes 12 < market_balance_of sample_traded Yes 12"
    by (simp add: t(2)) (simp add: sample_traded_def market_balance_of_def)
  with t(1) sample_reach_traded sample_fresh_ok
  have loss: "(market_step (sample_env 0 0))\<^sup>*\<^sup>* sample_fresh sample_traded \<and> market_fresh sample_fresh
      \<and> market_exec (sample_env 1000000 0) (CallTransfer 12 13 Yes 100) sample_traded = Inr t
      \<and> market_balance_of t Yes 12 < market_balance_of sample_traded Yes 12"
    by simp
  show ?thesis
    using wallet_shares_need_its_passkey [OF d pin sample_host_wallet rtranclp.rtrancl_refl host disjI1 [OF loss]]
    by simp
qed

end
