(* ===== verification/Mock_Oracles.thy ===== *)
theory Mock_Oracles
  imports Oracle
begin

text \<open>
  The two testnet stand-ins, \<open>contracts/mock-redstone/src/lib.rs\<close> and
  \<open>contracts/mock-lazer/src/lib.rs\<close>, and the SEP-40 interface
  (\<open>contracts/ctf-math/src/lib.rs\<close>, trait \<open>sep40::Contract\<close>) as a locale that the first one
  provides: a client's view of an oracle whose operator can publish a price.
\<close>

section \<open>The SEP-40 interface\<close>

text \<open>An environment whose oracle contract at an address answers as a given provider state.\<close>

definition answers_as ::
    "'tok Env \<Rightarrow> Address \<Rightarrow> (Asset \<Rightarrow> PriceData option) \<Rightarrow> u32 \<Rightarrow> u32 \<Rightarrow> bool" where
  "answers_as env a lastprice decimals resolution \<longleftrightarrow>
     (\<forall>x. sep40_lastprice env a x = Some (lastprice x))
   \<and> sep40_decimals env a = Some decimals \<and> sep40_resolution env a = Some resolution"

locale sep40_provider =
  fixes lastprice :: "'s \<Rightarrow> Asset \<Rightarrow> PriceData option"
    and decimals :: "'s \<Rightarrow> u32"
    and resolution :: "'s \<Rightarrow> u32"
    and publish :: "int \<Rightarrow> u64 \<Rightarrow> 's \<Rightarrow> 's"
  assumes lastprice_publish: "lastprice (publish p ts s) x = Some \<lparr>price = p, timestamp = ts\<rparr>"
    and decimals_publish: "decimals (publish p ts s) = decimals s"
begin

text \<open>A published price that equals the reference exactly, and is stamped with the current time,
  corroborates it.\<close>

lemma publish_corroborates:
  assumes "answers_as env (contract cfg) (lastprice t) (decimals t) (resolution t)"
    and "t = publish (cents * 10 ^ unat (decimals s - 2)) now s"
    and "2 \<le> decimals s" "decimals s \<le> 30" "0 < cents" "cents \<le> 10 ^ 9"
  shows "corroborates env cfg (decimals s) now cents"
proof -
  define D where "D = (10::int) ^ unat (decimals s - 2)"
  have "unat (decimals s - 2) \<le> 28" using assms(3,4) by (simp add: unat_sub word_le_nat_alt)
  then have "D \<le> 10 ^ 28" unfolding D_def by (intro power_increasing) auto
  then have D: "0 < D" "D \<le> 10 ^ 28" by (auto simp: D_def)
  have "cents * D \<le> 10 ^ 9 * 10 ^ 28" using assms(5,6) D by (intro mult_mono) auto
  moreover have half: "0 \<le> D div 2" "D div 2 < D" using D(1) by linarith+
  ultimately have range: "in_i128 D" "in_i128 (cents * D + D div 2)"
    using D assms(5) by (auto intro!: in_i128_small)
  have "(cents * D + D div 2) div D = cents" using half D(1) by simp
  then have "reflector_price_to_cents (cents * D) (decimals s) = (Inr cents :: (unit, int) res)"
    using reflector_eq_nonneg [where 'e = unit, of "decimals s" "cents * D"] assms(3,5) range D(1)
    by (simp add: D_def)
  moreover have "0 < (uint (tolerance_bps cfg) + 1) * cents" using assms(5) by (intro mult_pos_pos) (simp_all add: add_nonneg_pos)
  ultimately show ?thesis
    using assms(1,3,4,5) unfolding assms(2) answers_as_def corroborates_def
    by (simp add: lastprice_publish decimals_publish D_def)
qed

end

section \<open>The RedStone mock\<close>

definition DEFAULT_DECIMALS :: u32 where
  "DEFAULT_DECIMALS = 8"

definition DEFAULT_RESOLUTION_SECS :: u32 where
  "DEFAULT_RESOLUTION_SECS = 300"

record mock_redstone =
  px :: "(int \<times> u64) option"
  dec :: "u32 option"
  res_secs :: "u32 option"

definition mr_set_price :: "int \<Rightarrow> u64 \<Rightarrow> mock_redstone \<Rightarrow> mock_redstone" where
  "mr_set_price p ts s = s\<lparr>px := Some (p, ts)\<rparr>"

definition mr_set_none :: "mock_redstone \<Rightarrow> mock_redstone" where
  "mr_set_none s = s\<lparr>px := None\<rparr>"

definition mr_set_decimals :: "u32 \<Rightarrow> mock_redstone \<Rightarrow> mock_redstone" where
  "mr_set_decimals d s = s\<lparr>dec := Some d\<rparr>"

definition mr_set_resolution :: "u32 \<Rightarrow> mock_redstone \<Rightarrow> mock_redstone" where
  "mr_set_resolution r s = s\<lparr>res_secs := Some r\<rparr>"

definition mr_lastprice :: "mock_redstone \<Rightarrow> Asset \<Rightarrow> PriceData option" where
  "mr_lastprice s x = map_option (\<lambda>(p, ts). \<lparr>price = p, timestamp = ts\<rparr>) (px s)"

definition mr_decimals :: "mock_redstone \<Rightarrow> u32" where
  "mr_decimals s = (case dec s of None \<Rightarrow> DEFAULT_DECIMALS | Some d \<Rightarrow> d)"

definition mr_resolution :: "mock_redstone \<Rightarrow> u32" where
  "mr_resolution s = (case res_secs s of None \<Rightarrow> DEFAULT_RESOLUTION_SECS | Some r \<Rightarrow> r)"

interpretation mock: sep40_provider mr_lastprice mr_decimals mr_resolution mr_set_price
  by unfold_locales (simp_all add: mr_lastprice_def mr_set_price_def mr_decimals_def)

section \<open>The Lazer mock\<close>

definition mock_lazer_verify_update :: "byte list \<Rightarrow> byte list" where
  "mock_lazer_verify_update data = data"

section \<open>Properties\<close>

text \<open>Whoever may call the RedStone mock decides its oracle leg: for every settlement price up
  to \<open>10 ^ 9\<close> cents there is a \<open>set_price\<close> call, without any signature, after which the leg
  corroborates that price at whatever tolerance, so the mock adds no protection.\<close>

theorem mock_redstone_decides_leg:
  assumes "answers_as env (contract cfg) (mr_lastprice t) (mr_decimals t) (mr_resolution t)"
    and "t = mr_set_price (cents * 10 ^ unat (mr_decimals s - 2)) now s"
    and "2 \<le> mr_decimals s" "mr_decimals s \<le> 30" "0 < cents" "cents \<le> 10 ^ 9"
  shows "corroborates env cfg (mr_decimals s) now cents"
  by (rule mock.publish_corroborates [OF assms])

definition sample_mock :: mock_redstone where
  "sample_mock = \<lparr>px = None, dec = None, res_secs = None\<rparr>"

definition sample_mock_env :: "ledger Env" where
  "sample_mock_env = (sample_env 1000 0)\<lparr>
     sep40_lastprice := (\<lambda>_ x. Some (mr_lastprice (mr_set_price 150000000000 1000 sample_mock) x)),
     sep40_decimals := (\<lambda>_. Some 8), sep40_resolution := (\<lambda>_. Some 300)\<rparr>"

lemma mock_redstone_decides_leg_witness:
  "corroborates sample_mock_env sample_feed (mr_decimals sample_mock) 1000 150000"
proof (rule mock_redstone_decides_leg)
  show "answers_as sample_mock_env (contract sample_feed)
      (mr_lastprice (mr_set_price 150000000000 1000 sample_mock))
      (mr_decimals (mr_set_price 150000000000 1000 sample_mock))
      (mr_resolution (mr_set_price 150000000000 1000 sample_mock))"
    by (simp add: answers_as_def sample_mock_env_def mr_decimals_def mr_resolution_def mr_set_price_def
        sample_mock_def DEFAULT_DECIMALS_def DEFAULT_RESOLUTION_SECS_def)
qed (simp_all add: mr_decimals_def sample_mock_def DEFAULT_DECIMALS_def)

text \<open>The mock's storage behaves as the contracts read it: a published price is returned until
  it is replaced or withdrawn, precision and cadence have their defaults until they are set, and
  the setters do not disturb one another.\<close>

theorem mock_redstone_storage:
  "mr_lastprice (mr_set_price p ts s) x = Some \<lparr>price = p, timestamp = ts\<rparr>
    \<and> mr_lastprice (mr_set_none s) x = None
    \<and> mr_decimals (mr_set_decimals d s) = d \<and> mr_resolution (mr_set_resolution r s) = r
    \<and> mr_decimals (mr_set_price p ts s) = mr_decimals s
    \<and> mr_resolution (mr_set_price p ts s) = mr_resolution s
    \<and> mr_lastprice (mr_set_decimals d (mr_set_resolution r s)) x = mr_lastprice s x
    \<and> mr_decimals sample_mock = 8 \<and> mr_resolution sample_mock = 300"
  by (simp add: mr_lastprice_def mr_set_price_def mr_set_none_def mr_decimals_def mr_set_decimals_def
      mr_resolution_def mr_set_resolution_def sample_mock_def DEFAULT_DECIMALS_def
      DEFAULT_RESOLUTION_SECS_def)

end
