(* ===== verification/Spec2Isabelle.thy ===== *)
theory Spec2Isabelle
  imports Perpetual_Checkpoint Perpetual_Types Perpetual_Limits Perpetual_Lifetimes Polaris_Ownership Wallet_Custody
    Mock_Oracles
begin

text \<open>
  Polaris: fully collateralised conditional-token markets on Soroban (\<open>contracts/\<close>), and the
  passkey wallets that trade in them.

  \<^bold>\<open>The program.\<close>  A market (\<open>contracts/market\<close>) locks collateral and issues YES and NO shares
  against it, runs a constant-product pool of the two (\<open>buy\<close>, \<open>sell\<close>), and ends by \<open>settle\<close>, on a
  verified price that independent oracles corroborate, or by \<open>cancel\<close>, after a grace period; then
  holders \<open>redeem\<close>.  A perpetual (\<open>contracts/perpetual\<close>) is a market without strike and expiry: an
  informational price checkpoint, and a wind-down by its admin.  Both share the pure functions and
  the oracle check of \<open>contracts/ctf-math\<close>.  The vault (\<open>contracts/vault\<close>) keeps liquidity capital
  and collects what markets owe it.  A wallet (\<open>contracts/smart-wallet\<close>) is an account authorised by
  a passkey; the factory (\<open>contracts/smart-wallet-factory\<close>) deploys wallets from a pinned wasm.  Two
  mocks stand in for oracles on the test network.

  \<^bold>\<open>The theories\<close>, in the order they build on each other:

  \<^item> \<open>Polaris_Prelude\<close>: the result of a call (value, typed error, trap) and its \<open>?\<close> operator,
    checked \<open>i128\<close> arithmetic on \<open>int\<close>, checked word addition, storage lifetimes, sums of finitely
    supported functions.
  \<^item> \<open>Ctf_Math\<close> (\<open>ctf-math/src/lib.rs\<close>): \<open>cpmm_out\<close>, \<open>isqrt\<close>, \<open>cpmm_sell_out\<close>, \<open>apply_fee\<close>,
    \<open>effective_fee_bps\<close>, \<open>to_cents\<close>, \<open>reflector_price_to_cents\<close>, with correctness and rounding
    bounds of each, and the absence of overflow for amounts of up to \<open>2 ^ 61\<close>.
  \<^item> \<open>Host\<close>: the types of module \<open>sep40\<close>, and the environment \<open>Env\<close> of a call.  \<open>Oracle\<close>:
    \<open>verify_oracle_corroboration\<close> and its exact verdict.  \<open>Mock_Oracles\<close>: the SEP-40 interface as
    the locale \<open>sep40_provider\<close> and \<open>contracts/mock-redstone\<close>, \<open>contracts/mock-lazer\<close>.
  \<^item> \<open>Book\<close>: the abstract specification both markets implement, a book of two share ledgers, pools
    and a supply, with its moves (\<open>book_step\<close>) and invariant (\<open>book_ok\<close>), and two interfaces:
    \<open>share_ledger\<close>, the laws of the balance functions of a contract's storage, and
    \<open>ctf_contract\<close>, a contract whose steps implement the book and keep its supply funded.
  \<^item> \<open>Market\<close> (\<open>market/src/lib.rs\<close>): storage (\<open>market_store\<close>, one field per \<open>DataKey\<close>, lifetimes
    and events; the tokens of the chain in \<open>market_state\<close>), every helper, every entry point
    \<open>market_initialize\<close> to \<open>market_redeem\<close>, the queries, and \<open>market_exec\<close> over the calls.
    \<open>Market_Book\<close>: the effect of every entry point, the refinement of the book, the state machine
    \<open>market_step\<close> and the interpretations.  \<open>Market_Properties\<close> (solvency, redemption),
    \<open>Market_Settlement\<close> (settlement, cancellation, lifecycle) and \<open>Market_Trading\<close> (authorisation,
    trades, queries, limits of the guarantees) hold the properties, and these theories build on them:
    \<open>Market_Types\<close> (every stored number and record keeps its type, \<open>market_store_ok\<close>),
    \<open>Market_Errors\<close> (\<open>market_fault\<close>, the cause each typed error of each call names),
    \<open>Market_Outcome\<close> (what a settlement can decide, \<open>market_legs\<close>, and exactly when it goes through),
    \<open>Market_Progress\<close> (when each other call succeeds; holders redeem in any order, \<open>redeem_all\<close>),
    \<open>Market_Lifetimes\<close> (what each call leaves of the lifetimes of balances, \<open>bumped\<close>),
    \<open>Market_Seed\<close> (what \<open>k\<close> trades can cost the pools at most, \<open>trades_within\<close>) and \<open>Market_Drain\<close>
    (runs of calls, \<open>market_run\<close>, and what the rounding of the two trade formulas adds up to).
  \<^item> \<open>Perpetual\<close>, \<open>Perpetual_Book\<close>, \<open>Perpetual_Properties\<close> (\<open>perpetual/src/lib.rs\<close>): the same for
    the perpetual, whose definitions carry the prefix \<open>perp_\<close>.  Its source repeats the trading half
    of the market's; both are modelled from their own source and then compared:
    \<open>Shared_Trading\<close> reads a perpetual as a market (\<open>as_market\<close>) and shows that every shared call
    does the same to both on every branch, \<open>Shared_Runs\<close> that every run of a perpetual is a run of
    that market; \<open>Perpetual_Errors\<close>, \<open>Perpetual_Types\<close>, \<open>Perpetual_Checkpoint\<close>,
    \<open>Perpetual_Lifetimes\<close> and \<open>Perpetual_Limits\<close> take theorems of the market over to the perpetual.
  \<^item> \<open>Vault\<close> (\<open>vault/src/lib.rs\<close>): its calls, with \<open>redeem_from_market\<close> running the \<open>redeem\<close> of the
    market or perpetual at the called address (\<open>client_redeem\<close>) on that contract's state.
    \<open>Vault_Liquidity\<close> composes it with the end of a market whose treasury is the vault.
  \<^item> \<open>Polaris_System\<close>: any number of markets, perpetuals and vaults on one ledger of tokens
    (\<open>polaris_step\<close>), the interface \<open>tenant\<close> of a contract that lives beside others (its calls pay once,
    and what does not lower its balances is a step of the rest of the world), and the invariant that
    every contract of a reachable system is in a state its own machine reaches (\<open>polaris_ok\<close>).
    \<open>Polaris_Custody\<close> (backing, collection, the capital of vaults) and \<open>Polaris_Ownership\<close> (who can
    take shares from whom): what follows for the whole system.
  \<^item> \<open>Base64_Url\<close>, \<open>Smart_Wallet\<close> (\<open>smart-wallet/src\<close>) and \<open>Wallet_Factory\<close>
    (\<open>smart-wallet-factory/src/lib.rs\<close>).  \<open>Wallet_Deployment\<close> composes the two: the contract the
    factory deploys is a wallet, and stays the wallet of its key.  \<open>Wallet_Custody\<close> adds the markets: who
    can move the shares of a wallet, when the host authorises its address by its \<open>__check_auth\<close> (\<open>host_checks\<close>).

  \<^bold>\<open>How the code is read.\<close>  Entry points keep their names behind a prefix of the contract
  (\<open>market_buy\<close> for \<open>PolarisMarket::buy\<close>).  An entry point takes the environment, its arguments and
  the contract's state and returns a failure, or its value and the new state; the host discards the
  effects of a failed call, so a failure carries no state.  Guards come in the order of the code.
  \<open>i128\<close> is \<open>int\<close> with a range check on every operation, since the workspace compiles with
  \<open>overflow-checks\<close>; \<open>u32\<close> and \<open>u64\<close> are words; \<open>as u32\<close> truncates.  Loops are recursive functions
  that terminate on every input (\<open>isqrt_loop\<close> because its variable decreases within \<open>i128\<close>,
  \<open>encode_loop\<close> because its index grows); no fuel is used.

  \<^bold>\<open>What is outside.\<close>  The ledger time, signatures, token contracts, oracle contracts and the Pyth
  Lazer verifier are fields of \<open>Env\<close>; the hash, the signature check and the JSON parser of the wallet
  and the address derivation of the factory are fields of \<open>wallet_crypto\<close> and \<open>factory_host\<close>.  What
  the properties rely on is named: \<open>sep41_at\<close> (a transfer moves exactly its amount), \<open>pays_when_funded\<close>
  (a funded transfer succeeds) and \<open>hosted\<close> (calls of one contract see the same tokens, and nobody
  signs for the contract itself); the concrete token \<open>ledger\<close> and \<open>sample_env\<close> satisfy all three.
  Reachability (\<open>market_step\<close>, \<open>perp_step\<close>) allows arbitrary calls at arbitrary times with arbitrary
  oracle answers, deposits into the contract's balance from outside, and the ageing of storage; it
  asks of callers only that a buyer's minimum is not negative (\<open>careful\<close>), which the code itself does not
  check.  \<^emph>\<open>Reachable\<close> always means reachable by such runs: one buy with a negative minimum can break solvency,
  the backing of claims and the redemptions (\<open>market_negative_minimum\<close>), so every property that starts from
  a reachable state holds under this condition on the callers before.  The steps of the whole system
  (\<open>polaris_step\<close>) ask the same, and that no market, perpetual or vault signs, since none of them has a signer.

  Not modelled: contracts of other kinds that a vault's admin may name to \<open>redeem_from_market\<close> (the call fails), token issuers that take tokens back
  from a contract (the steps let its balances rise from outside, not fall), the archival of entries whose
  lifetime has run out, resource limits of the host, the XDR encoding of types and events, the order
  of keys in events, and the tests.

  \<^bold>\<open>What is shown.\<close>

  \<^item> Custody, as long as no buy has a negative minimum: solvency and full backing of both markets, alone and
    in the company of every other contract on the ledger; all holders, accounts or vaults, can redeem in any
    order once a contract ends; a vault, whatever the rest of the system does, pays out only to its admin's
    order, and gets back what its liquidity is worth when a market ends.  From such states on no call at all
    takes a share from an address without its signature.
  \<^item> Settlement: it goes through exactly when it should, fails closed, and never decides a market against
    one of its oracle legs beyond that leg's tolerance; cancellation is available from its deadline on,
    when that fits 64 bits; the checkpoint of a perpetual is inert and its wind-down is the admin's alone.
  \<^item> Trading: what trades pay, to the unit; that quoted buys go through; that \<open>k\<close> trades cost the product
    of the pools at most \<open>k\<close> supplies; that the runs of a perpetual are runs of a market.
  \<^item> Errors and types: every typed error of every call of both contracts names its cause; stored numbers
    keep their types.
  \<^item> Wallets: an accepted passkey assertion is bound to one transaction, and the shares of a wallet move
    only by one; a factory deploys one wallet per key, from one wasm, which answers to that key alone.

  \<^bold>\<open>Limits.\<close>  The limits found on the way are
  theorems as well: rounding that favours the trader (\<open>rounding_pays_the_trader\<close>), by which anyone
  takes the seed liquidity of a market a unit at a time (\<open>market_seed_can_be_drained\<close>, and
  \<open>perp_seed_can_be_drained\<close>, \<open>market_supply_below_liquidity\<close>), until a buy with a negative minimum
  leaves a negative balance (\<open>market_negative_minimum\<close>; \<open>market_negative_slippage\<close> is the single
  step); a grace period that disables cancellation (\<open>market_cancel_overflow\<close>) and the odd share of a
  cancelled market (\<open>market_odd_share_is_lost\<close>).  The amounts the liveness theorems allow (a supply of
  at most \<open>2 ^ 61\<close> for trades, half of the \<open>i128\<close> range for redemptions) are far above any real one,
  and keep every intermediate value of the code within \<open>i128\<close>.
\<close>

end
